(* ===== verification/Prelude.thy ===== *)
theory Prelude
  imports Main "HOL-Library.Word" "HOL-Library.Sublist" "HOL-Library.Char_ord"
    "HOL-Library.List_Lexorder" "HOL-Library.Multiset"
begin

text \<open>
  Generic material shared by every component: panics as values, the sequencing of
  computations that may panic, first-match scans over lists, and the enumeration of a
  finite map in an order that the Go runtime chooses.

  A Go function that may panic is a HOL function into \<open>go_panic + 'a\<close>: \<open>Inl\<close> is the
  panic, \<open>Inr\<close> the returned value. A nil-able pointer is an \<open>option\<close>.
\<close>

named_theorems result_simps "rewriting computations that may panic"
named_theorems go_defs "unfolding the Go standard-library functions"

section \<open>Panics\<close>

datatype go_panic = NilDereference | IndexOutOfRange | FailedTypeAssertion

type_synonym 'a panicking = "go_panic + 'a"

definition deref :: "'a option \<Rightarrow> 'a panicking" where
  "deref p = (case p of None \<Rightarrow> Inl NilDereference | Some x \<Rightarrow> Inr x)"

definition bind_result :: "'e + 'a \<Rightarrow> ('a \<Rightarrow> 'e + 'b) \<Rightarrow> 'e + 'b" where
  "bind_result r f = (case r of Inl e \<Rightarrow> Inl e | Inr x \<Rightarrow> f x)"

fun map_result :: "('a \<Rightarrow> 'e + 'b) \<Rightarrow> 'a list \<Rightarrow> 'e + 'b list" where
  "map_result f [] = Inr []"
| "map_result f (x # xs) =
     bind_result (f x) (\<lambda>y. bind_result (map_result f xs) (\<lambda>ys. Inr (y # ys)))"

definition concat_result :: "('a \<Rightarrow> 'e + 'b list) \<Rightarrow> 'a list \<Rightarrow> 'e + 'b list" where
  "concat_result f xs = bind_result (map_result f xs) (\<lambda>yss. Inr (concat yss))"

lemma deref_simps [simp, result_simps]:
  "deref (Some x) = Inr x" "deref None = Inl NilDereference"
  by (simp_all add: deref_def)

lemma bind_result_simps [simp, result_simps]:
  "bind_result (Inr x) f = f x" "bind_result (Inl e) f = Inl e"
  by (simp_all add: bind_result_def)

lemma bind_result_Inr_iff:
  "bind_result r f = Inr y \<longleftrightarrow> (\<exists>x. r = Inr x \<and> f x = Inr y)"
  by (cases r) auto

lemma deref_Inr_iff: "deref p = Inr x \<longleftrightarrow> p = Some x"
  by (cases p) auto

lemma map_result_Inr_length: "map_result f xs = Inr ys \<Longrightarrow> length ys = length xs"
  by (induction xs arbitrary: ys) (auto simp: bind_result_Inr_iff)

lemma map_result_Inr_nth:
  "map_result f xs = Inr ys \<Longrightarrow> i < length xs \<Longrightarrow> f (xs ! i) = Inr (ys ! i)"
proof (induction xs arbitrary: ys i)
  case Nil
  then show ?case by simp
next
  case (Cons x xs)
  then show ?case by (cases i) (auto simp: bind_result_Inr_iff)
qed

lemma map_result_Inr_set:
  "map_result f xs = Inr ys \<Longrightarrow> y \<in> set ys \<longleftrightarrow> (\<exists>x \<in> set xs. f x = Inr y)"
  by (induction xs arbitrary: ys) (auto simp: bind_result_Inr_iff)

lemma map_result_total:
  "(\<And>x. x \<in> set xs \<Longrightarrow> \<exists>y. f x = Inr y) \<Longrightarrow> \<exists>ys. map_result f xs = Inr ys"
proof (induction xs)
  case Nil
  show ?case by simp
next
  case (Cons x xs)
  from Cons.prems obtain y where "f x = Inr y" by fastforce
  moreover from Cons obtain ys where "map_result f xs = Inr ys" by fastforce
  ultimately show ?case by simp
qed

lemma map_result_pure: "map_result (\<lambda>x. Inr (f x)) xs = Inr (map f xs)"
  by (induction xs) auto

lemma map_result_cong_pure:
  "(\<And>x. x \<in> set xs \<Longrightarrow> f x = Inr (g x)) \<Longrightarrow> map_result f xs = Inr (map g xs)"
  by (induction xs) auto

lemma concat_result_simps [simp]:
  "concat_result f [] = Inr []"
  "concat_result f (x # xs) =
     bind_result (f x) (\<lambda>y. bind_result (concat_result f xs) (\<lambda>ys. Inr (y @ ys)))"
  unfolding concat_result_def
  by simp (cases "f x"; cases "map_result f xs"; simp)

lemma concat_result_Inr_set:
  "concat_result f xs = Inr ys \<Longrightarrow>
     y \<in> set ys \<longleftrightarrow> (\<exists>x \<in> set xs. \<exists>zs. f x = Inr zs \<and> y \<in> set zs)"
  by (induction xs arbitrary: ys) (auto simp: bind_result_Inr_iff)

lemma concat_result_Inr_member:
  "concat_result f xs = Inr ys \<Longrightarrow> x \<in> set xs \<Longrightarrow> \<exists>zs. f x = Inr zs \<and> set zs \<subseteq> set ys"
proof (induction xs arbitrary: ys)
  case Nil
  then show ?case by simp
next
  case (Cons a xs)
  then obtain as bs where ab: "f a = Inr as" "concat_result f xs = Inr bs" "ys = as @ bs"
    by (auto simp: bind_result_Inr_iff)
  show ?case
  proof (cases "x = a")
    case True
    with ab show ?thesis by auto
  next
    case False
    with Cons ab(2) have "\<exists>zs. f x = Inr zs \<and> set zs \<subseteq> set bs" by simp
    with ab(3) show ?thesis by auto
  qed
qed

lemma concat_result_Inr_origin:
  "concat_result f xs = Inr ys \<Longrightarrow> y \<in> set ys \<Longrightarrow> \<exists>x \<in> set xs. \<exists>zs. f x = Inr zs \<and> y \<in> set zs"
  by (simp add: concat_result_Inr_set)

lemma concat_result_total:
  "(\<And>x. x \<in> set xs \<Longrightarrow> \<exists>y. f x = Inr y) \<Longrightarrow> \<exists>ys. concat_result f xs = Inr ys"
  using map_result_total [of xs f] by (auto simp: concat_result_def)

lemma concat_result_cong_pure:
  "(\<And>x. x \<in> set xs \<Longrightarrow> f x = Inr (g x)) \<Longrightarrow>
     concat_result f xs = Inr (concat (map g xs))"
  by (simp add: concat_result_def map_result_cong_pure)

lemma concat_result_append:
  "concat_result f (xs @ ys) =
     bind_result (concat_result f xs)
       (\<lambda>as. bind_result (concat_result f ys) (\<lambda>bs. Inr (as @ bs)))"
proof (induction xs)
  case Nil
  show ?case by (cases "concat_result f ys") auto
next
  case (Cons x xs)
  then show ?case
    by (cases "f x"; cases "concat_result f xs"; cases "concat_result f ys") auto
qed

section \<open>First match in a list\<close>

lemma find_Some_in: "find P xs = Some x \<Longrightarrow> P x \<and> x \<in> set xs"
  by (induction xs) (auto split: if_splits)

lemma find_None_set: "find P xs = None \<longleftrightarrow> (\<forall>x \<in> set xs. \<not> P x)"
  by (induction xs) auto

lemma find_exists: "(\<exists>y. find P xs = Some y) \<longleftrightarrow> (\<exists>x \<in> set xs. P x)"
  by (induction xs) auto

section \<open>Ranging over a Go map\<close>

text \<open>
  \<open>for k, v := range m\<close> visits every key of \<open>m\<close> once, in an order that the language
  leaves open. The order is an explicit list of keys.
\<close>

definition range_order :: "('k \<rightharpoonup> 'v) \<Rightarrow> 'k list \<Rightarrow> bool" where
  "range_order m ks \<longleftrightarrow> distinct ks \<and> set ks = dom m"

fun range_values :: "('k \<rightharpoonup> 'v) \<Rightarrow> 'k list \<Rightarrow> 'v list" where
  "range_values m [] = []"
| "range_values m (k # ks) =
     (case m k of None \<Rightarrow> range_values m ks | Some v \<Rightarrow> v # range_values m ks)"

fun copy_map :: "('k \<rightharpoonup> 'v) \<Rightarrow> 'k list \<Rightarrow> ('k \<rightharpoonup> 'v) \<Rightarrow> ('k \<rightharpoonup> 'v)" where
  "copy_map m [] acc = acc"
| "copy_map m (k # ks) acc =
     copy_map m ks (case m k of None \<Rightarrow> acc | Some v \<Rightarrow> acc(k \<mapsto> v))"

lemma range_order_exists: "finite (dom m) \<Longrightarrow> \<exists>ks. range_order m ks"
  using finite_distinct_list [of "dom m"] by (auto simp: range_order_def)

lemma set_range_values: "set (range_values m ks) = {v. \<exists>k \<in> set ks. m k = Some v}"
  by (induction ks) (auto split: option.splits)

lemma range_values_ran: "range_order m ks \<Longrightarrow> set (range_values m ks) = ran m"
  by (auto simp: set_range_values range_order_def ran_def dom_def)

lemma range_values_mset:
  "range_order m ks \<Longrightarrow> mset (range_values m ks) = mset (map (\<lambda>k. the (m k)) ks)"
proof -
  have "set ks \<subseteq> dom m \<Longrightarrow> range_values m ks = map (\<lambda>k. the (m k)) ks" for ks
    by (induction ks) auto
  then show "range_order m ks \<Longrightarrow> ?thesis" by (simp add: range_order_def)
qed

lemma range_values_perm:
  assumes "range_order m ks" "range_order m ks'"
  shows "mset (range_values m ks) = mset (range_values m ks')"
proof -
  from assms have "mset ks = mset ks'"
    by (metis range_order_def set_eq_iff_mset_eq_distinct)
  with assms show ?thesis by (simp add: range_values_mset)
qed

lemma copy_map_lookup:
  "copy_map m ks acc k = (if k \<in> set ks then (case m k of None \<Rightarrow> acc k | v \<Rightarrow> v) else acc k)"
  by (induction ks arbitrary: acc) (auto split: option.splits)

lemma copy_map_all: "range_order m ks \<Longrightarrow> copy_map m ks Map.empty = m"
  by (rule ext) (auto simp: copy_map_lookup range_order_def dom_def split: option.splits)

end
