(* ===== verification/GoStd.thy ===== *)
theory GoStd
  imports Prelude
begin

text \<open>
  The parts of the Go standard library that the source uses, on byte strings (a Go string is
  a sequence of bytes, \<open>char\<close> is a byte): \<open>strings.HasPrefix\<close> and \<open>strings.HasSuffix\<close>,
  \<open>net.SplitHostPort\<close> and \<open>net.JoinHostPort\<close>, \<open>http.CanonicalHeaderKey\<close>, and the decimal
  rendering of \<open>fmt\<close>. A regular-expression engine is a parameter: whether a pattern compiles,
  and whether a compiled pattern matches, are the two questions the source asks.
\<close>

section \<open>strings\<close>

definition HasPrefix :: "string \<Rightarrow> string \<Rightarrow> bool" where
  "HasPrefix s p \<longleftrightarrow> length p \<le> length s \<and> take (length p) s = p"

definition HasSuffix :: "string \<Rightarrow> string \<Rightarrow> bool" where
  "HasSuffix s p \<longleftrightarrow> length p \<le> length s \<and> drop (length s - length p) s = p"

lemma HasPrefix_iff: "HasPrefix s p \<longleftrightarrow> (\<exists>t. s = p @ t)"
  unfolding HasPrefix_def by (metis append_eq_conv_conj append_take_drop_id take_all_iff nle_le)

lemma HasSuffix_iff: "HasSuffix s p \<longleftrightarrow> (\<exists>t. s = t @ p)"
proof
  assume "HasSuffix s p"
  then have "s = take (length s - length p) s @ p"
    unfolding HasSuffix_def by (metis append_take_drop_id)
  then show "\<exists>t. s = t @ p" ..
next
  assume "\<exists>t. s = t @ p"
  then show "HasSuffix s p" by (auto simp: HasSuffix_def)
qed

lemma HasSuffix_suffix: "HasSuffix s p \<longleftrightarrow> suffix p s"
  by (auto simp: HasSuffix_iff suffix_def)

lemma HasPrefix_prefix: "HasPrefix s p \<longleftrightarrow> prefix p s"
  by (auto simp: HasPrefix_iff prefix_def)

lemma HasSuffix_trans: "HasSuffix s t \<Longrightarrow> HasSuffix t u \<Longrightarrow> HasSuffix s u"
  by (metis HasSuffix_suffix suffix_order.trans)

lemma HasSuffix_same_case: "HasSuffix s t \<Longrightarrow> HasSuffix s u \<Longrightarrow> HasSuffix t u \<or> HasSuffix u t"
  by (metis HasSuffix_suffix suffix_same_cases)

lemma HasSuffix_refl [simp]: "HasSuffix s s"
  by (simp add: HasSuffix_def)

fun IndexByte :: "string \<Rightarrow> char \<Rightarrow> nat option" where
  "IndexByte [] c = None"
| "IndexByte (x # xs) c = (if x = c then Some 0 else map_option Suc (IndexByte xs c))"

fun LastIndexByte :: "string \<Rightarrow> char \<Rightarrow> nat option" where
  "LastIndexByte [] c = None"
| "LastIndexByte (x # xs) c =
     (case LastIndexByte xs c of
        Some i \<Rightarrow> Some (Suc i)
      | None \<Rightarrow> (if x = c then Some 0 else None))"

lemma IndexByte_None [simp]: "IndexByte s c = None \<longleftrightarrow> c \<notin> set s"
  by (induction s) auto

lemma LastIndexByte_None [simp]: "LastIndexByte s c = None \<longleftrightarrow> c \<notin> set s"
  by (induction s) (auto split: option.splits)

lemma IndexByte_append: "c \<notin> set s \<Longrightarrow> IndexByte (s @ c # t) c = Some (length s)"
  by (induction s) auto

lemma LastIndexByte_append: "c \<notin> set t \<Longrightarrow> LastIndexByte (s @ c # t) c = Some (length s)"
proof (induction s)
  case Nil
  then show ?case by (simp add: LastIndexByte_None [THEN iffD2])
next
  case (Cons x s)
  then show ?case by simp
qed

fun join_with :: "string \<Rightarrow> string list \<Rightarrow> string" where
  "join_with sep [] = []"
| "join_with sep [x] = x"
| "join_with sep (x # y # ys) = x @ sep @ join_with sep (y # ys)"

section \<open>fmt\<close>

text \<open>\<open>%d\<close> of an integer and \<open>%v\<close> of a slice of strings.\<close>

fun decimal_nat :: "nat \<Rightarrow> string" where
  "decimal_nat n =
     (if n < 10 then [char_of (48 + n)]
      else decimal_nat (n div 10) @ [char_of (48 + n mod 10)])"

declare decimal_nat.simps [simp del]

definition decimal :: "int \<Rightarrow> string" where
  "decimal i = (if i < 0 then ''-'' @ decimal_nat (nat (- i)) else decimal_nat (nat i))"

definition format_strings :: "string list \<Rightarrow> string" where
  "format_strings xs = ''['' @ join_with '' '' xs @ '']''"

definition digit_char :: "char \<Rightarrow> bool" where
  "digit_char c \<longleftrightarrow> (of_char c :: nat) \<in> {48..57}"

lemma digit_char_digit: "d < 10 \<Longrightarrow> digit_char (char_of (48 + d :: nat))"
  by (simp add: digit_char_def)

lemma decimal_nat_digits: "c \<in> set (decimal_nat n) \<Longrightarrow> digit_char c"
proof (induction n rule: decimal_nat.induct)
  case (1 n)
  show ?case
  proof (cases "n < 10")
    case True
    with "1.prems" have "c = char_of (48 + n)" by (subst (asm) decimal_nat.simps) simp
    with True show ?thesis using digit_char_digit by blast
  next
    case False
    with "1.prems" have "c \<in> set (decimal_nat (n div 10)) \<or> c = char_of (48 + n mod 10)"
      by (subst (asm) decimal_nat.simps) auto
    with "1.IH" [OF False] show ?thesis using digit_char_digit [of "n mod 10"] by auto
  qed
qed

lemma decimal_nat_no_punct:
  "CHR '':'' \<notin> set (decimal_nat n)" "CHR ''['' \<notin> set (decimal_nat n)"
  "CHR '']'' \<notin> set (decimal_nat n)"
  using decimal_nat_digits by (fastforce simp: digit_char_def)+

section \<open>net\<close>

datatype addr_error =
    MissingPort | TooManyColons | MissingBracket | UnexpectedOpenBracket | UnexpectedCloseBracket

text \<open>
  \<open>split_tail\<close> is the common end of \<open>SplitHostPort\<close>: no bracket may follow the positions \<open>j\<close>
  and \<open>k\<close>, and the port starts after the last colon \<open>i\<close>.
\<close>

definition split_tail ::
    "string \<Rightarrow> string \<Rightarrow> nat \<Rightarrow> nat \<Rightarrow> nat \<Rightarrow> addr_error + (string \<times> string)" where
  "split_tail hostport host j k i =
     (if CHR ''['' \<in> set (drop j hostport) then Inl UnexpectedOpenBracket
      else if CHR '']'' \<in> set (drop k hostport) then Inl UnexpectedCloseBracket
      else Inr (host, drop (i + 1) hostport))"

definition SplitHostPort :: "string \<Rightarrow> addr_error + (string \<times> string)" where
  "SplitHostPort hostport =
     (case LastIndexByte hostport CHR '':'' of
        None \<Rightarrow> Inl MissingPort
      | Some i \<Rightarrow>
          if hostport ! 0 = CHR ''['' then
            (case IndexByte hostport CHR '']'' of
               None \<Rightarrow> Inl MissingBracket
             | Some e \<Rightarrow>
                 if e + 1 = length hostport then Inl MissingPort
                 else if e + 1 = i then
                   split_tail hostport (take (e - 1) (drop 1 hostport)) 1 (e + 1) i
                 else if hostport ! (e + 1) = CHR '':'' then Inl TooManyColons
                 else Inl MissingPort)
          else if CHR '':'' \<in> set (take i hostport) then Inl TooManyColons
          else split_tail hostport (take i hostport) 0 0 i)"

definition JoinHostPort :: "string \<Rightarrow> string \<Rightarrow> string" where
  "JoinHostPort host port =
     (if CHR '':'' \<in> set host then ''['' @ host @ '']:'' @ port
      else host @ '':'' @ port)"

text \<open>Joining and splitting are inverse on bracket-free hosts and ports.\<close>

lemma SplitHostPort_no_colon: "CHR '':'' \<notin> set s \<Longrightarrow> SplitHostPort s = Inl MissingPort"
  by (simp add: SplitHostPort_def LastIndexByte_None [THEN iffD2])

lemma SplitHostPort_plain:
  assumes "CHR '':'' \<notin> set h" "CHR ''['' \<notin> set h" "CHR '']'' \<notin> set h"
    and "CHR '':'' \<notin> set p" "CHR ''['' \<notin> set p" "CHR '']'' \<notin> set p"
  shows "SplitHostPort (h @ '':'' @ p) = Inr (h, p)"
proof -
  have "(h @ CHR '':'' # p) ! 0 \<noteq> CHR ''[''"
    using assms(2) by (cases h) auto
  then show ?thesis
    using assms by (simp add: SplitHostPort_def LastIndexByte_append split_tail_def)
qed

lemma LastIndexByte_bracket:
  "CHR '':'' \<notin> set p \<Longrightarrow>
     LastIndexByte (CHR ''['' # h @ CHR '']'' # CHR '':'' # p) CHR '':'' = Some (length h + 2)"
  using LastIndexByte_append [of "CHR '':''" p "CHR ''['' # h @ [CHR '']'']"] by simp

lemma SplitHostPort_bracket:
  assumes "CHR ''['' \<notin> set h" "CHR '']'' \<notin> set h"
    and "CHR '':'' \<notin> set p" "CHR ''['' \<notin> set p" "CHR '']'' \<notin> set p"
  shows "SplitHostPort (''['' @ h @ '']:'' @ p) = Inr (h, p)"
proof -
  have e: "IndexByte (CHR ''['' # h @ CHR '']'' # CHR '':'' # p) CHR '']'' = Some (length h + 1)"
    using IndexByte_append [OF assms(2), of "CHR '':'' # p"] by simp
  show ?thesis
    using assms LastIndexByte_bracket [OF assms(3), of h] e
    by (simp add: SplitHostPort_def split_tail_def)
qed

lemma SplitHostPort_JoinHostPort:
  assumes "CHR ''['' \<notin> set h" "CHR '']'' \<notin> set h"
    and "CHR '':'' \<notin> set p" "CHR ''['' \<notin> set p" "CHR '']'' \<notin> set p"
  shows "SplitHostPort (JoinHostPort h p) = Inr (h, p)"
  using SplitHostPort_plain [of h p] SplitHostPort_bracket [of h p] assms
  by (auto simp: JoinHostPort_def)

lemma LastIndexByte_Some:
  "LastIndexByte s c = Some i \<Longrightarrow> i < length s \<and> s ! i = c \<and> c \<notin> set (drop (Suc i) s)"
proof (induction s arbitrary: i)
  case (Cons x s)
  show ?case
  proof (cases "LastIndexByte s c")
    case None
    with Cons.prems show ?thesis by (auto simp: LastIndexByte_None split: if_splits)
  next
    case (Some j)
    with Cons show ?thesis by auto
  qed
qed simp

text \<open>The port that \<open>SplitHostPort\<close> returns has neither colons nor brackets.\<close>

lemma SplitHostPort_port:
  assumes "SplitHostPort s = Inr (h, p)"
  shows "CHR '':'' \<notin> set p" "CHR ''['' \<notin> set p" "CHR '']'' \<notin> set p"
proof -
  obtain i where i: "LastIndexByte s CHR '':'' = Some i"
    using assms by (cases "LastIndexByte s CHR '':''") (auto simp: SplitHostPort_def)
  obtain h' j k where t: "split_tail s h' j k i = Inr (h, p)" "j \<le> Suc i" "k \<le> Suc i"
    using assms i by (auto simp: SplitHostPort_def split: option.splits if_splits)
  then have p: "p = drop (Suc i) s" "CHR ''['' \<notin> set (drop j s)" "CHR '']'' \<notin> set (drop k s)"
    by (auto simp: split_tail_def split: if_splits)
  show "CHR '':'' \<notin> set p" using LastIndexByte_Some [OF i] p(1) by simp
  show "CHR ''['' \<notin> set p" using p set_drop_subset_set_drop [OF t(2), of s] by blast
  show "CHR '']'' \<notin> set p" using p set_drop_subset_set_drop [OF t(3), of s] by blast
qed

section \<open>net/http: canonical header keys\<close>

type_synonym Header = "string \<rightharpoonup> string list"

definition is_upper :: "char \<Rightarrow> bool" where
  "is_upper c \<longleftrightarrow> (65::nat) \<le> of_char c \<and> (of_char c :: nat) \<le> 90"

definition is_lower :: "char \<Rightarrow> bool" where
  "is_lower c \<longleftrightarrow> (97::nat) \<le> of_char c \<and> (of_char c :: nat) \<le> 122"

definition to_upper :: "char \<Rightarrow> char" where
  "to_upper c = (if is_lower c then char_of (of_char c - 32 :: nat) else c)"

definition to_lower :: "char \<Rightarrow> char" where
  "to_lower c = (if is_upper c then char_of (of_char c + 32 :: nat) else c)"

definition validHeaderFieldByte :: "char \<Rightarrow> bool" where
  "validHeaderFieldByte c \<longleftrightarrow>
     is_upper c \<or> is_lower c \<or> digit_char c \<or> c \<in> set ''!#$%&*+-.^_`|~'' \<or> c = CHR 0x27"

fun canonical_from :: "bool \<Rightarrow> string \<Rightarrow> string" where
  "canonical_from upper [] = []"
| "canonical_from upper (c # cs) =
     (let c' = (if upper then to_upper c else to_lower c)
      in c' # canonical_from (c' = CHR ''-'') cs)"

definition CanonicalHeaderKey :: "string \<Rightarrow> string" where
  "CanonicalHeaderKey s =
     (if list_all validHeaderFieldByte s then canonical_from True s else s)"

definition header_values :: "Header \<Rightarrow> string \<Rightarrow> string list" where
  "header_values h k = (case h k of None \<Rightarrow> [] | Some vs \<Rightarrow> vs)"

lemma to_lower_to_upper [simp]: "to_lower (to_upper c) = to_lower c"
proof (cases "is_lower c")
  case True
  then have b: "(97::nat) \<le> of_char c" "(of_char c :: nat) \<le> 122" by (auto simp: is_lower_def)
  then have "(of_char c - 32 :: nat) < 256" by simp
  with b have "of_char (char_of (of_char c - 32 :: nat) :: char) = (of_char c - 32 :: nat)"
    by simp
  moreover from b have "(65::nat) \<le> of_char c - 32" "(of_char c - 32 :: nat) \<le> 90" by simp_all
  ultimately show ?thesis using True b
    by (simp add: to_upper_def to_lower_def is_upper_def is_lower_def)
next
  case False
  then show ?thesis by (simp add: to_upper_def)
qed

lemma to_upper_to_lower [simp]: "to_upper (to_lower c) = to_upper c"
proof (cases "is_upper c")
  case True
  then have b: "(65::nat) \<le> of_char c" "(of_char c :: nat) \<le> 90" by (auto simp: is_upper_def)
  then have "of_char (char_of (of_char c + 32 :: nat) :: char) = (of_char c + 32 :: nat)"
    by simp
  with True b show ?thesis
    by (simp add: to_upper_def to_lower_def is_upper_def is_lower_def)
next
  case False
  then show ?thesis by (simp add: to_lower_def)
qed

lemma is_upper_to_lower: "is_upper c \<Longrightarrow> is_lower (to_lower c)"
  by (simp add: to_lower_def is_upper_def is_lower_def)

lemma is_lower_to_upper: "is_lower c \<Longrightarrow> is_upper (to_upper c)"
proof -
  assume l: "is_lower c"
  then have b: "(65::nat) \<le> of_char c - 32" "(of_char c - 32 :: nat) \<le> 90"
    by (auto simp: is_lower_def)
  then have "(of_char c - 32 :: nat) mod 256 = of_char c - 32" by simp
  with l b show ?thesis by (simp add: to_upper_def is_upper_def)
qed

lemma valid_to_lower [simp]: "validHeaderFieldByte (to_lower c) = validHeaderFieldByte c"
  by (cases "is_upper c") (use is_upper_to_lower in \<open>auto simp: validHeaderFieldByte_def to_lower_def\<close>)

lemma valid_to_upper [simp]: "validHeaderFieldByte (to_upper c) = validHeaderFieldByte c"
  by (cases "is_lower c") (use is_lower_to_upper in \<open>auto simp: validHeaderFieldByte_def to_upper_def\<close>)

lemma to_upper_cong: "to_lower c = to_lower d \<Longrightarrow> to_upper c = to_upper d"
  by (metis to_upper_to_lower)

lemma canonical_from_cong:
  "map to_lower s = map to_lower t \<Longrightarrow> canonical_from u s = canonical_from u t"
proof (induction s arbitrary: t u)
  case Nil
  then show ?case by simp
next
  case (Cons c s)
  then obtain d t' where t: "t = d # t'" "to_lower c = to_lower d"
      "map to_lower s = map to_lower t'" by auto
  show ?case using t to_upper_cong [OF t(2)] Cons.IH [OF t(3)] by simp
qed

lemma to_lower_idem [simp]: "to_lower (to_lower c) = to_lower c"
  by (metis to_lower_to_upper to_upper_to_lower)

lemma map_to_lower_canonical [simp]: "map to_lower (canonical_from u s) = map to_lower s"
  by (induction u s rule: canonical_from.induct) (simp_all add: Let_def)

lemma valid_map_to_lower:
  "list_all validHeaderFieldByte (map to_lower s) = list_all validHeaderFieldByte s"
  by (simp add: list.pred_map comp_def)

lemma CanonicalHeaderKey_case_insensitive:
  assumes "list_all validHeaderFieldByte s" "map to_lower s = map to_lower t"
  shows "CanonicalHeaderKey s = CanonicalHeaderKey t"
proof -
  from assms have "list_all validHeaderFieldByte t"
    by (metis valid_map_to_lower)
  with assms canonical_from_cong [OF assms(2)] show ?thesis
    by (simp add: CanonicalHeaderKey_def)
qed

lemma CanonicalHeaderKey_idem: "CanonicalHeaderKey (CanonicalHeaderKey s) = CanonicalHeaderKey s"
proof (cases "list_all validHeaderFieldByte s")
  case True
  have "list_all validHeaderFieldByte (canonical_from True s)"
    using True by (metis map_to_lower_canonical valid_map_to_lower)
  with True show ?thesis
    using canonical_from_cong [of "canonical_from True s" s True] by (simp add: CanonicalHeaderKey_def)
next
  case False
  then show ?thesis by (simp add: CanonicalHeaderKey_def)
qed

section \<open>regexp\<close>

text \<open>
  \<open>compile_error\<close> answers whether \<open>regexp.Compile\<close> rejects a pattern (with the error's text);
  \<open>pattern_matches\<close> is \<open>MatchString\<close> of the compiled pattern. A \<open>*regexp.Regexp\<close> keeps its
  source text, as Go's does.
\<close>

record regexp_engine =
  compile_error :: "string \<Rightarrow> string option"
  pattern_matches :: "string \<Rightarrow> string \<Rightarrow> bool"

datatype Regexp = Regexp string

definition regexp_Compile :: "regexp_engine \<Rightarrow> string \<Rightarrow> string + Regexp" where
  "regexp_Compile E s =
     (case compile_error E s of Some e \<Rightarrow> Inl e | None \<Rightarrow> Inr (Regexp s))"

fun MatchString :: "regexp_engine \<Rightarrow> Regexp \<Rightarrow> string \<Rightarrow> bool" where
  "MatchString E (Regexp p) v = pattern_matches E p v"

lemma regexp_Compile_Inr [simp]:
  "regexp_Compile E s = Inr r \<longleftrightarrow> compile_error E s = None \<and> r = Regexp s"
  by (auto simp: regexp_Compile_def split: option.splits)

lemma regexp_Compile_Inl [simp]: "regexp_Compile E s = Inl e \<longleftrightarrow> compile_error E s = Some e"
  by (auto simp: regexp_Compile_def split: option.splits)

text \<open>
  A concrete engine, for literal patterns: a pattern matches the strings that contain it, and
  an opening bracket does not compile.
\<close>

definition literal_engine :: regexp_engine where
  "literal_engine =
     \<lparr>compile_error =
        (\<lambda>s. if CHR ''['' \<in> set s then Some ''error parsing regexp: missing closing ]'' else None),
      pattern_matches = (\<lambda>p v. sublist p v)\<rparr>"

end
