(* ===== verification/API.thy ===== *)
theory API
  imports GoStd
begin

text \<open>
  The Kubernetes and Gateway API objects the program works on, as records with the fields the
  source reads or writes. A pointer field is an \<open>option\<close>, a string enum is a \<open>string\<close> with its
  values named below, an \<open>int32\<close> is a \<open>32 word\<close>, an embedded struct is a record extension or
  is flattened into the record that embeds it. \<open>ParentReference\<close>, \<open>Condition\<close> and
  \<open>RouteParentStatus\<close> have all their fields, because the source compares or writes them whole.
\<close>

type_synonym int32 = "32 word"

section \<open>Names\<close>

datatype NamespacedName = NamespacedName (nn_Namespace: string) (nn_Name: string)

instantiation NamespacedName :: linorder
begin

definition less_eq_NamespacedName :: "NamespacedName \<Rightarrow> NamespacedName \<Rightarrow> bool" where
  "less_eq_NamespacedName a b \<longleftrightarrow>
     nn_Namespace a < nn_Namespace b \<or> nn_Namespace a = nn_Namespace b \<and> nn_Name a \<le> nn_Name b"

definition less_NamespacedName :: "NamespacedName \<Rightarrow> NamespacedName \<Rightarrow> bool" where
  "less_NamespacedName a b \<longleftrightarrow>
     nn_Namespace a < nn_Namespace b \<or> nn_Namespace a = nn_Namespace b \<and> nn_Name a < nn_Name b"

instance
  by intro_classes
    (auto simp: less_eq_NamespacedName_def less_NamespacedName_def NamespacedName.expand)

end

record ObjectMeta =
  om_Name :: string
  om_Namespace :: string
  om_Generation :: int

definition object_key :: "'a ObjectMeta_scheme \<Rightarrow> NamespacedName" where
  "object_key o1 = NamespacedName (om_Namespace o1) (om_Name o1)"

section \<open>Conditions\<close>

type_synonym Time = int

record Condition =
  cond_Type :: string
  cond_Status :: string
  cond_ObservedGeneration :: int
  cond_LastTransitionTime :: Time
  cond_Reason :: string
  cond_Message :: string

definition ConditionTrue :: string where "ConditionTrue = ''True''"
definition ConditionFalse :: string where "ConditionFalse = ''False''"

section \<open>Gateways\<close>

record Listener =
  lst_Name :: string
  lst_Hostname :: "string option"
  lst_Protocol :: string

record GatewayStatusAddress =
  gsa_Type :: "string option"
  gsa_Value :: string

record RouteGroupKind =
  rgk_Group :: "string option"
  rgk_Kind :: string

record ListenerStatus =
  lsts_Name :: string
  lsts_SupportedKinds :: "RouteGroupKind list"
  lsts_AttachedRoutes :: int32
  lsts_Conditions :: "Condition list"

record Gateway = ObjectMeta +
  gw_GatewayClassName :: string
  gw_Listeners :: "Listener list"
  gw_Status_Addresses :: "GatewayStatusAddress list"
  gw_Status_Conditions :: "Condition list"
  gw_Status_Listeners :: "ListenerStatus list"

record GatewayClass = ObjectMeta +
  gc_ControllerName :: string
  gc_Status_Conditions :: "Condition list"

section \<open>HTTP routes\<close>

record ParentReference =
  pr_Group :: "string option"
  pr_Kind :: "string option"
  pr_Namespace :: "string option"
  pr_Name :: string
  pr_SectionName :: "string option"
  pr_Port :: "int32 option"

record HTTPPathMatch =
  pm_Type :: "string option"
  pm_Value :: "string option"

record HTTPHeaderMatch =
  hm_Type :: "string option"
  hm_Name :: string
  hm_Value :: string

record HTTPRouteMatch =
  rm_Path :: "HTTPPathMatch option"
  rm_Headers :: "HTTPHeaderMatch list"

record HTTPPathModifier =
  mod_Type :: string
  mod_ReplaceFullPath :: "string option"
  mod_ReplacePrefixMatch :: "string option"

record HTTPRequestRedirectFilter =
  rrf_Scheme :: "string option"
  rrf_Hostname :: "string option"
  rrf_Path :: "HTTPPathModifier option"
  rrf_Port :: "int32 option"
  rrf_StatusCode :: "int option"

record HTTPRouteFilter =
  flt_Type :: string
  flt_RequestRedirect :: "HTTPRequestRedirectFilter option"

record HTTPBackendRef =
  br_Kind :: "string option"
  br_Name :: string
  br_Namespace :: "string option"
  br_Port :: "int32 option"

record HTTPRouteRule =
  rr_Matches :: "HTTPRouteMatch list"
  rr_Filters :: "HTTPRouteFilter list"
  rr_BackendRefs :: "HTTPBackendRef list"

record RouteParentStatus =
  rps_ParentRef :: ParentReference
  rps_ControllerName :: string
  rps_Conditions :: "Condition list"

record HTTPRoute = ObjectMeta +
  hr_ParentRefs :: "ParentReference list"
  hr_Hostnames :: "string list"
  hr_Rules :: "HTTPRouteRule list"
  hr_Status_Parents :: "RouteParentStatus list"

section \<open>Services, config maps and backend TLS policies\<close>

record ServicePort =
  sp_Port :: int32
  sp_AppProtocol :: "string option"

record Service = ObjectMeta +
  svc_Ports :: "ServicePort list"
  svc_Ingress_IPs :: "string list"

record ConfigMap = ObjectMeta +
  cm_Data :: "string \<rightharpoonup> string"
  cm_BinaryData :: "string \<rightharpoonup> string"

record TargetRef =
  tr_Group :: string
  tr_Kind :: string
  tr_Name :: string

record PolicyAncestorStatus =
  pas_AncestorRef :: ParentReference
  pas_ControllerName :: string
  pas_Conditions :: "Condition list"

record BackendTLSPolicy = ObjectMeta +
  btp_TargetRefs :: "TargetRef list"
  btp_CACertificateRefs :: "TargetRef list"
  btp_Hostname :: string
  btp_Status_Ancestors :: "PolicyAncestorStatus list"

section \<open>Values of the string enums\<close>

definition HTTPProtocolType :: string where "HTTPProtocolType = ''HTTP''"
definition HTTPSProtocolType :: string where "HTTPSProtocolType = ''HTTPS''"

definition PathMatchExact :: string where "PathMatchExact = ''Exact''"
definition PathMatchPathPrefix :: string where "PathMatchPathPrefix = ''PathPrefix''"
definition PathMatchRegularExpression :: string where
  "PathMatchRegularExpression = ''RegularExpression''"

definition HeaderMatchExact :: string where "HeaderMatchExact = ''Exact''"
definition HeaderMatchRegularExpression :: string where
  "HeaderMatchRegularExpression = ''RegularExpression''"

definition HTTPRouteFilterRequestRedirect :: string where
  "HTTPRouteFilterRequestRedirect = ''RequestRedirect''"
definition FullPathHTTPPathModifier :: string where
  "FullPathHTTPPathModifier = ''ReplaceFullPath''"
definition PrefixMatchHTTPPathModifier :: string where
  "PrefixMatchHTTPPathModifier = ''ReplacePrefixMatch''"

definition RouteConditionAccepted :: string where "RouteConditionAccepted = ''Accepted''"
definition RouteConditionResolvedRefs :: string where
  "RouteConditionResolvedRefs = ''ResolvedRefs''"
definition RouteReasonAccepted :: string where "RouteReasonAccepted = ''Accepted''"
definition RouteReasonUnsupportedValue :: string where
  "RouteReasonUnsupportedValue = ''UnsupportedValue''"
definition RouteReasonNoMatchingParent :: string where
  "RouteReasonNoMatchingParent = ''NoMatchingParent''"
definition RouteReasonNoMatchingListenerHostname :: string where
  "RouteReasonNoMatchingListenerHostname = ''NoMatchingListenerHostname''"
definition RouteReasonResolvedRefs :: string where "RouteReasonResolvedRefs = ''ResolvedRefs''"
definition RouteReasonInvalidKind :: string where "RouteReasonInvalidKind = ''InvalidKind''"

lemmas status_consts = ConditionTrue_def ConditionFalse_def
lemmas path_type_consts =
  PathMatchExact_def PathMatchPathPrefix_def PathMatchRegularExpression_def
lemmas header_type_consts = HeaderMatchExact_def HeaderMatchRegularExpression_def
lemmas route_reason_consts =
  RouteReasonAccepted_def RouteReasonUnsupportedValue_def RouteReasonNoMatchingParent_def
  RouteReasonNoMatchingListenerHostname_def RouteReasonResolvedRefs_def RouteReasonInvalidKind_def
lemmas route_condition_consts = RouteConditionAccepted_def RouteConditionResolvedRefs_def
lemmas api_consts =
  status_consts path_type_consts header_type_consts route_reason_consts route_condition_consts
  HTTPProtocolType_def HTTPSProtocolType_def HTTPRouteFilterRequestRedirect_def
  FullPathHTTPPathModifier_def PrefixMatchHTTPPathModifier_def

lemma status_distinct [simp]: "ConditionTrue \<noteq> ConditionFalse" "ConditionFalse \<noteq> ConditionTrue"
  by (simp_all add: status_consts)

lemma path_type_distinct [simp]:
  "PathMatchExact \<noteq> PathMatchPathPrefix" "PathMatchPathPrefix \<noteq> PathMatchExact"
  "PathMatchExact \<noteq> PathMatchRegularExpression" "PathMatchRegularExpression \<noteq> PathMatchExact"
  "PathMatchPathPrefix \<noteq> PathMatchRegularExpression"
  "PathMatchRegularExpression \<noteq> PathMatchPathPrefix"
  "PathMatchExact \<noteq> []" "PathMatchPathPrefix \<noteq> []" "PathMatchRegularExpression \<noteq> []"
  "[] \<noteq> PathMatchExact" "[] \<noteq> PathMatchPathPrefix" "[] \<noteq> PathMatchRegularExpression"
  by (simp_all add: path_type_consts)

lemma header_type_distinct [simp]:
  "HeaderMatchExact \<noteq> HeaderMatchRegularExpression"
  "HeaderMatchRegularExpression \<noteq> HeaderMatchExact"
  "HeaderMatchExact \<noteq> []" "HeaderMatchRegularExpression \<noteq> []"
  by (simp_all add: header_type_consts)

lemma route_condition_distinct [simp]:
  "RouteConditionAccepted \<noteq> RouteConditionResolvedRefs"
  "RouteConditionResolvedRefs \<noteq> RouteConditionAccepted"
  by (simp_all add: route_condition_consts)

end
