(* ===== verification/Hostnames.thy ===== *)
theory Hostnames
  imports API
begin

text \<open>
  \<^verbatim>\<open>pkg/state/utils.go\<close>: hostname intersection and the pointer helpers. A hostname pattern
  denotes the set of hosts it covers (\<open>hostname_covers\<close>): the empty pattern and \<open>*\<close> cover
  every host, \<open>*.suffix\<close> covers every host that ends in \<open>.suffix\<close>, any other pattern covers
  itself. The lemmas show that the two Go functions compute intersections of these sets.
\<close>

section \<open>The code\<close>

text \<open>The zero value of the pointer's element type is the first argument.\<close>

definition ValueOf :: "'a \<Rightarrow> 'a option \<Rightarrow> 'a" where
  "ValueOf zero t = (case t of None \<Rightarrow> zero | Some v \<Rightarrow> v)"

definition Ptr :: "'a \<Rightarrow> 'a option" where
  "Ptr t = Some t"

definition Intersect :: "string \<Rightarrow> string \<Rightarrow> string \<times> bool" where
  "Intersect h1 h2 =
     (if h1 = ''*'' \<or> h1 = '''' then (h2, True)
      else if h2 = ''*'' \<or> h2 = '''' then (h1, True)
      else if h1 = h2 then (h1, True)
      else
        let h1Wild = HasPrefix h1 ''*.''; h2Wild = HasPrefix h2 ''*.'' in
        if h1Wild \<and> \<not> h2Wild then
          (if HasSuffix h2 (drop 1 h1) then (h2, True) else ('''', False))
        else if \<not> h1Wild \<and> h2Wild then
          (if HasSuffix h1 (drop 1 h2) then (h1, True) else ('''', False))
        else if h1Wild \<and> h2Wild then
          (if HasSuffix h1 (drop 1 h2) then (h1, True)
           else if HasSuffix h2 (drop 1 h1) then (h2, True)
           else ('''', False))
        else ('''', False))"

fun intersect_loop :: "string list \<Rightarrow> string \<Rightarrow> string list" where
  "intersect_loop [] listenerHostname = []"
| "intersect_loop (rh # rhs) listenerHostname =
     (case Intersect rh listenerHostname of
        (intersection, ok) \<Rightarrow>
          if ok then intersection # intersect_loop rhs listenerHostname
          else intersect_loop rhs listenerHostname)"

definition IntersectHostnames :: "string list \<Rightarrow> string \<Rightarrow> string list" where
  "IntersectHostnames routeHostnames listenerHostname =
     (if listenerHostname = '''' \<or> listenerHostname = ''*'' then
        (if routeHostnames = [] then [''*''] else routeHostnames)
      else if routeHostnames = [] then [listenerHostname]
      else intersect_loop routeHostnames listenerHostname)"

section \<open>What the patterns mean\<close>

definition hostname_covers :: "string \<Rightarrow> string \<Rightarrow> bool" where
  "hostname_covers h host \<longleftrightarrow>
     h = '''' \<or> h = ''*'' \<or> h = host \<or> HasPrefix h ''*.'' \<and> HasSuffix host (drop 1 h)"

definition hostnames_cover :: "string list \<Rightarrow> string \<Rightarrow> bool" where
  "hostnames_cover hs host \<longleftrightarrow> hs = [] \<or> (\<exists>h \<in> set hs. hostname_covers h host)"

lemma ValueOf_simps [simp]: "ValueOf z None = z" "ValueOf z (Some v) = v"
  by (simp_all add: ValueOf_def)

lemma ValueOf_Ptr [simp]: "ValueOf z (Ptr v) = v"
  by (simp add: Ptr_def)

lemma hostname_covers_any [simp]: "hostname_covers '''' host" "hostname_covers ''*'' host"
  by (simp_all add: hostname_covers_def)

lemma hostname_covers_self [simp]: "hostname_covers h h"
  by (simp add: hostname_covers_def)

lemma wildcard_cases:
  assumes "HasPrefix h ''*.''"
  obtains t where "h = CHR ''*'' # CHR ''.'' # t" "drop 1 h = CHR ''.'' # t"
  using assms by (auto simp: HasPrefix_iff)

lemma wildcard_suffix:
  assumes "HasPrefix h1 ''*.''" "HasPrefix h2 ''*.''"
  shows "HasSuffix h1 (drop 1 h2) \<longleftrightarrow> HasSuffix (drop 1 h1) (drop 1 h2)"
proof -
  obtain t1 where t1: "h1 = CHR ''*'' # CHR ''.'' # t1"
    using assms(1) by (elim wildcard_cases) blast
  obtain t2 where t2: "h2 = CHR ''*'' # CHR ''.'' # t2"
    using assms(2) by (elim wildcard_cases) blast
  show ?thesis by (auto simp: t1 t2 HasSuffix_suffix suffix_Cons)
qed

lemma exact_covers:
  "h \<noteq> '''' \<Longrightarrow> h \<noteq> ''*'' \<Longrightarrow> \<not> HasPrefix h ''*.'' \<Longrightarrow> hostname_covers h host \<longleftrightarrow> h = host"
  by (auto simp: hostname_covers_def)

lemma wildcard_covers:
  assumes "HasPrefix h ''*.''"
  shows "hostname_covers h host \<longleftrightarrow> HasSuffix host (drop 1 h)"
proof -
  obtain t where t: "h = CHR ''*'' # CHR ''.'' # t"
    using assms by (elim wildcard_cases) blast
  show ?thesis
    by (auto simp: t hostname_covers_def HasPrefix_iff HasSuffix_suffix suffix_Cons)
qed

lemma wildcard_subset:
  assumes "HasPrefix h1 ''*.''" "HasPrefix h2 ''*.''" "HasSuffix h1 (drop 1 h2)"
    and "hostname_covers h1 host"
  shows "hostname_covers h2 host"
proof -
  have "HasSuffix host (drop 1 h1)" using assms(1,4) by (simp only: wildcard_covers)
  moreover have "HasSuffix (drop 1 h1) (drop 1 h2)"
    using assms(3) by (simp only: wildcard_suffix [OF assms(1,2)])
  ultimately have "HasSuffix host (drop 1 h2)" by (rule HasSuffix_trans)
  then show ?thesis by (simp only: wildcard_covers [OF assms(2)])
qed

lemma wildcard_disjoint:
  assumes "HasPrefix h1 ''*.''" "HasPrefix h2 ''*.''"
    and "\<not> HasSuffix h1 (drop 1 h2)" "\<not> HasSuffix h2 (drop 1 h1)"
  shows "\<not> (hostname_covers h1 host \<and> hostname_covers h2 host)"
proof
  assume "hostname_covers h1 host \<and> hostname_covers h2 host"
  then have "HasSuffix host (drop 1 h1)" "HasSuffix host (drop 1 h2)"
    by (simp_all only: wildcard_covers [OF assms(1)] wildcard_covers [OF assms(2)])
  then have "HasSuffix (drop 1 h1) (drop 1 h2) \<or> HasSuffix (drop 1 h2) (drop 1 h1)"
    by (rule HasSuffix_same_case)
  with assms(3,4) show False
    by (simp only: wildcard_suffix [OF assms(1,2)] wildcard_suffix [OF assms(2,1)] simp_thms)
qed

section \<open>Intersection of two patterns\<close>

lemma Intersect_covers:
  "snd (Intersect h1 h2) \<and> hostname_covers (fst (Intersect h1 h2)) host \<longleftrightarrow>
     hostname_covers h1 host \<and> hostname_covers h2 host"
proof (cases "h1 = '''' \<or> h1 = ''*'' \<or> h2 = '''' \<or> h2 = ''*'' \<or> h1 = h2")
  case True
  then show ?thesis by (auto simp: Intersect_def)
next
  case False
  then have ne: "h1 \<noteq> ''''" "h1 \<noteq> ''*''" "h2 \<noteq> ''''" "h2 \<noteq> ''*''" "h1 \<noteq> h2" by auto
  consider (ww) "HasPrefix h1 ''*.''" "HasPrefix h2 ''*.''"
    | (we) "HasPrefix h1 ''*.''" "\<not> HasPrefix h2 ''*.''"
    | (ew) "\<not> HasPrefix h1 ''*.''" "HasPrefix h2 ''*.''"
    | (ee) "\<not> HasPrefix h1 ''*.''" "\<not> HasPrefix h2 ''*.''" by blast
  then show ?thesis
  proof cases
    case ww
    have I: "Intersect h1 h2 =
        (if HasSuffix h1 (drop 1 h2) then (h1, True)
         else if HasSuffix h2 (drop 1 h1) then (h2, True) else ('''', False))"
      using ne ww by (simp add: Intersect_def)
    show ?thesis
    proof (cases "HasSuffix h1 (drop 1 h2) \<or> HasSuffix h2 (drop 1 h1)")
      case True
      with I wildcard_subset [OF ww] wildcard_subset [OF ww(2,1)] show ?thesis
        by (cases "HasSuffix h1 (drop 1 h2)") auto
    next
      case False
      with I wildcard_disjoint [OF ww] show ?thesis by simp
    qed
  next
    case we
    have "Intersect h1 h2 = (if HasSuffix h2 (drop 1 h1) then (h2, True) else ('''', False))"
      using ne we by (simp add: Intersect_def)
    then show ?thesis
      using exact_covers [OF ne(3,4) we(2)] wildcard_covers [OF we(1)] by auto
  next
    case ew
    have "Intersect h1 h2 = (if HasSuffix h1 (drop 1 h2) then (h1, True) else ('''', False))"
      using ne ew by (simp add: Intersect_def)
    then show ?thesis
      using exact_covers [OF ne(1,2) ew(1)] wildcard_covers [OF ew(2)] by auto
  next
    case ee
    have "Intersect h1 h2 = ('''', False)" using ne ee by (simp add: Intersect_def)
    then show ?thesis
      using exact_covers [OF ne(1,2) ee(1)] exact_covers [OF ne(3,4) ee(2)] ne(5) by auto
  qed
qed

lemma Intersect_result: "Intersect h1 h2 = (h, True) \<Longrightarrow> h = h1 \<or> h = h2"
  by (auto simp: Intersect_def Let_def split: if_splits)

section \<open>Intersection of a route's hostnames with a listener's\<close>

lemma intersect_loop_covers:
  "(\<exists>h \<in> set (intersect_loop rhs lh). hostname_covers h host) \<longleftrightarrow>
     (\<exists>h \<in> set rhs. hostname_covers h host) \<and> hostname_covers lh host"
proof (induction rhs)
  case Nil
  show ?case by simp
next
  case (Cons rh rhs)
  obtain i ok where i: "Intersect rh lh = (i, ok)" by fastforce
  with Intersect_covers [of rh lh host] Cons.IH show ?case by auto
qed

lemma IntersectHostnames_covers:
  "(\<exists>h \<in> set (IntersectHostnames rhs lh). hostname_covers h host) \<longleftrightarrow>
     hostnames_cover rhs host \<and> hostname_covers lh host"
  by (auto simp: IntersectHostnames_def hostnames_cover_def intersect_loop_covers)

lemma IntersectHostnames_nonempty_iff:
  "IntersectHostnames rhs lh \<noteq> [] \<longleftrightarrow>
     (\<exists>host. hostnames_cover rhs host \<and> hostname_covers lh host)"
proof
  assume "IntersectHostnames rhs lh \<noteq> []"
  then obtain h where "h \<in> set (IntersectHostnames rhs lh)" by (meson last_in_set)
  then show "\<exists>host. hostnames_cover rhs host \<and> hostname_covers lh host"
    using IntersectHostnames_covers [of rhs lh h] hostname_covers_self by blast
next
  assume "\<exists>host. hostnames_cover rhs host \<and> hostname_covers lh host"
  then obtain host where "hostnames_cover rhs host \<and> hostname_covers lh host" ..
  then have "\<exists>h \<in> set (IntersectHostnames rhs lh). hostname_covers h host"
    by (simp only: IntersectHostnames_covers)
  then show "IntersectHostnames rhs lh \<noteq> []" by auto
qed

lemma IntersectHostnames_no_route_hostnames: "IntersectHostnames [] lh \<noteq> []"
  by (simp add: IntersectHostnames_def)

lemma intersect_loop_set: "set (intersect_loop rhs lh) \<subseteq> insert lh (set rhs)"
proof (induction rhs)
  case Nil
  show ?case by simp
next
  case (Cons rh rhs)
  obtain i ok where i: "Intersect rh lh = (i, ok)" by fastforce
  with Cons Intersect_result [of rh lh i] show ?case by (cases ok) auto
qed

lemma intersect_loop_length: "length (intersect_loop rhs lh) \<le> length rhs"
  by (induction rhs) (auto split: prod.splits)

lemma IntersectHostnames_set:
  "h \<in> set (IntersectHostnames rhs lh) \<Longrightarrow> h \<in> set rhs \<or> h = lh \<or> h = ''*''"
  using intersect_loop_set [of rhs lh] by (auto simp: IntersectHostnames_def split: if_splits)

lemma IntersectHostnames_no_empty:
  assumes "'''' \<notin> set rhs"
  shows "'''' \<notin> set (IntersectHostnames rhs lh)"
proof (cases "lh = ''''")
  case True
  with assms show ?thesis by (simp add: IntersectHostnames_def)
next
  case False
  with assms IntersectHostnames_set [of "''''" rhs lh] show ?thesis by auto
qed

end
