(* ===== verification/InternalRoutes.thy ===== *)
theory InternalRoutes
  imports Hostnames
begin

text \<open>
  The computed routing table of \<^verbatim>\<open>pkg/state/gateway.go\<close> (\<open>InternalRoute\<close> and the
  structs below it, which the proxy reads), and the matching of one hostname pattern list, one
  path and one set of headers against a request: \<open>MatchHostname\<close>, \<open>Matches\<close> and
  \<open>hasPathPrefix\<close>.
\<close>

section \<open>Data\<close>

record ErrorState =
  es_Condition :: Condition
  es_HTTPStatusCode :: int
  es_HTTPMessage :: string

record InternalTLSConfig =
  tls_Hostname :: string
  tls_CACerts :: "string list"

record InternalBackend =
  ib_Host :: string
  ib_Port :: int32
  ib_AppProtocol :: "string option"
  ib_TLSConfig :: "InternalTLSConfig option"

record InternalPathRedirect =
  ipr_Type :: string
  ipr_Value :: string

record InternalRedirect =
  ird_Scheme :: "string option"
  ird_Hostname :: "string option"
  ird_Path :: "InternalPathRedirect option"
  ird_Port :: "int32 option"
  ird_StatusCode :: "int option"

record InternalPathMatch =
  ipm_Type :: string
  ipm_Value :: string

record InternalHeaderMatch =
  ihm_Type :: string
  ihm_Name :: string
  ihm_MatchExactValue :: string
  ihm_MatchRegularExpressionValue :: "Regexp option"

record InternalMatch =
  im_Path :: "InternalPathMatch option"
  im_Headers :: "InternalHeaderMatch list"

record InternalRule =
  irule_Matches :: "InternalMatch list"
  irule_Backend :: "InternalBackend option"
  irule_Redirect :: "InternalRedirect option"
  irule_Error :: "ErrorState option"

record InternalRoute =
  ir_Hostnames :: "string list"
  ir_Rules :: "InternalRule list"

text \<open>What the source reads of an \<open>http.Request\<close>; \<open>req_TLS\<close> is \<open>r.TLS != nil\<close>.\<close>

record Request =
  req_Host :: string
  req_Path :: string
  req_RawQuery :: string
  req_Header :: Header
  req_TLS :: bool

section \<open>Hostnames\<close>

definition strip_port :: "string \<Rightarrow> string" where
  "strip_port host = (case SplitHostPort host of Inr (h, _) \<Rightarrow> h | Inl _ \<Rightarrow> host)"

fun hostname_loop :: "string list \<Rightarrow> string \<Rightarrow> bool" where
  "hostname_loop [] host = False"
| "hostname_loop (h # hs) host =
     (if h = ''*'' then True
      else if h = host then True
      else if HasPrefix h ''*.'' \<and> HasSuffix host (drop 1 h) then True
      else hostname_loop hs host)"

definition MatchHostname :: "InternalRoute \<Rightarrow> string \<Rightarrow> bool" where
  "MatchHostname ir host =
     (let host' = strip_port host in
      if length (ir_Hostnames ir) = 0 then True else hostname_loop (ir_Hostnames ir) host')"

lemma hostname_loop_covers:
  "'''' \<notin> set hs \<Longrightarrow> hostname_loop hs host \<longleftrightarrow> (\<exists>h \<in> set hs. hostname_covers h host)"
  by (induction hs) (auto simp: hostname_covers_def)

lemma MatchHostname_covers:
  "'''' \<notin> set (ir_Hostnames ir) \<Longrightarrow>
     MatchHostname ir host \<longleftrightarrow> hostnames_cover (ir_Hostnames ir) (strip_port host)"
  by (simp add: MatchHostname_def hostnames_cover_def hostname_loop_covers)

lemma strip_port_no_colon [simp]: "CHR '':'' \<notin> set h \<Longrightarrow> strip_port h = h"
  by (simp add: strip_port_def SplitHostPort_no_colon)

lemma strip_port_JoinHostPort:
  assumes "CHR ''['' \<notin> set h" "CHR '']'' \<notin> set h"
    and "CHR '':'' \<notin> set p" "CHR ''['' \<notin> set p" "CHR '']'' \<notin> set p"
  shows "strip_port (JoinHostPort h p) = h"
  using assms by (simp add: strip_port_def SplitHostPort_JoinHostPort)

section \<open>Paths\<close>

definition hasPathPrefix :: "string \<Rightarrow> string \<Rightarrow> bool" where
  "hasPathPrefix path pre =
     (if pre = ''/'' then True
      else if path = pre then True
      else if length path > length pre \<and> path ! length pre = CHR ''/'' \<and>
              take (length pre) path = pre then True
      else if length pre > 0 \<and> pre ! (length pre - 1) = CHR ''/'' then
        (if length path \<ge> length pre \<and> take (length pre) path = pre then True else False)
      else False)"

text \<open>The elements of a path are the strings between its slashes.\<close>

fun path_elements :: "string \<Rightarrow> string list" where
  "path_elements [] = [[]]"
| "path_elements (c # cs) =
     (if c = CHR ''/'' then [] # path_elements cs
      else (c # hd (path_elements cs)) # tl (path_elements cs))"

lemma path_elements_nonempty [simp]: "path_elements s \<noteq> []"
  by (cases s) auto

lemma path_elements_slash: "path_elements (a @ CHR ''/'' # b) = path_elements a @ path_elements b"
  by (induction a) auto

lemma join_with_Cons: "ys \<noteq> [] \<Longrightarrow> join_with sep (x # ys) = x @ sep @ join_with sep ys"
  by (cases ys) auto

lemma join_with_append:
  "xs \<noteq> [] \<Longrightarrow> ys \<noteq> [] \<Longrightarrow> join_with sep (xs @ ys) = join_with sep xs @ sep @ join_with sep ys"
proof (induction xs)
  case Nil
  then show ?case by simp
next
  case (Cons x xs)
  then show ?case by (cases "xs = []") (simp_all add: join_with_Cons)
qed

lemma join_path_elements: "join_with ''/'' (path_elements s) = s"
proof (induction s)
  case Nil
  show ?case by simp
next
  case (Cons c s)
  obtain w ws where w: "path_elements s = w # ws"
    by (meson list.exhaust path_elements_nonempty)
  with Cons.IH show ?case by (cases ws) auto
qed

lemma path_elements_prefix_iff:
  "prefix (path_elements p) (path_elements s) \<longleftrightarrow> s = p \<or> (\<exists>t. s = p @ CHR ''/'' # t)"
proof
  assume "prefix (path_elements p) (path_elements s)"
  then obtain zs where zs: "path_elements s = path_elements p @ zs" by (auto simp: prefix_def)
  show "s = p \<or> (\<exists>t. s = p @ CHR ''/'' # t)"
  proof (cases "zs = []")
    case True
    with zs show ?thesis by (metis append_Nil2 join_path_elements)
  next
    case False
    have "s = join_with ''/'' (path_elements p @ zs)" using zs join_path_elements by metis
    also have "\<dots> = p @ ''/'' @ join_with ''/'' zs"
      using False by (simp add: join_with_append join_path_elements)
    finally show ?thesis by auto
  qed
next
  assume "s = p \<or> (\<exists>t. s = p @ CHR ''/'' # t)"
  then show "prefix (path_elements p) (path_elements s)" by (auto simp: path_elements_slash)
qed

lemma take_eq_prefix_slash:
  "length path > length p \<and> path ! length p = CHR ''/'' \<and> take (length p) path = p \<longleftrightarrow>
     (\<exists>t. path = p @ CHR ''/'' # t)"
proof
  assume h: "length path > length p \<and> path ! length p = CHR ''/'' \<and> take (length p) path = p"
  then have "path = take (length p) path @ path ! length p # drop (Suc (length p)) path"
    by (intro id_take_nth_drop) simp
  with h show "\<exists>t. path = p @ CHR ''/'' # t" by metis
next
  assume "\<exists>t. path = p @ CHR ''/'' # t"
  then show "length path > length p \<and> path ! length p = CHR ''/'' \<and> take (length p) path = p"
    by auto
qed

lemma hasPathPrefix_iff:
  "hasPathPrefix path p \<longleftrightarrow>
     p = ''/'' \<or> path = p \<or> (\<exists>t. path = p @ CHR ''/'' # t) \<or>
     p \<noteq> [] \<and> last p = CHR ''/'' \<and> HasPrefix path p"
proof (cases "p = []")
  case True
  then show ?thesis unfolding hasPathPrefix_def take_eq_prefix_slash by auto
next
  case False
  then have "p ! (length p - 1) = last p" by (simp add: last_conv_nth)
  with False show ?thesis
    unfolding hasPathPrefix_def HasPrefix_def take_eq_prefix_slash by auto
qed

lemma hasPathPrefix_elements:
  assumes "p = [] \<or> last p \<noteq> CHR ''/''"
  shows "hasPathPrefix path p \<longleftrightarrow> prefix (path_elements p) (path_elements path)"
proof -
  from assms have "p \<noteq> ''/''" by auto
  with assms show ?thesis by (auto simp: hasPathPrefix_iff path_elements_prefix_iff)
qed

section \<open>One match of a rule\<close>

text \<open>
  The header loop of \<open>Matches\<close> stops at the first header that no value of the request matches;
  \<open>header_matched\<close> is its inner loop, which stops at the first matching value.
\<close>

fun header_matched :: "regexp_engine \<Rightarrow> InternalHeaderMatch \<Rightarrow> string list \<Rightarrow> bool" where
  "header_matched E hm [] = False"
| "header_matched E hm (v # vs) =
     (if ihm_Type hm = HeaderMatchRegularExpression then
        (case ihm_MatchRegularExpressionValue hm of
           None \<Rightarrow> header_matched E hm vs
         | Some re \<Rightarrow> if MatchString E re v then True else header_matched E hm vs)
      else if v = ihm_MatchExactValue hm then True
      else header_matched E hm vs)"

fun headers_loop :: "regexp_engine \<Rightarrow> InternalHeaderMatch list \<Rightarrow> Header \<Rightarrow> bool" where
  "headers_loop E [] header = True"
| "headers_loop E (hm # hms) header =
     (if \<not> header_matched E hm (header_values header (CanonicalHeaderKey (ihm_Name hm)))
      then False else headers_loop E hms header)"

definition Matches :: "regexp_engine \<Rightarrow> InternalMatch \<Rightarrow> string \<Rightarrow> Header \<Rightarrow> bool" where
  "Matches E im path header =
     (case im_Path im of
        None \<Rightarrow> headers_loop E (im_Headers im) header
      | Some p \<Rightarrow>
          if ipm_Type p = PathMatchExact then
            (if path \<noteq> ipm_Value p then False else headers_loop E (im_Headers im) header)
          else if ipm_Type p = PathMatchPathPrefix then
            (if \<not> hasPathPrefix path (ipm_Value p) then False
             else headers_loop E (im_Headers im) header)
          else headers_loop E (im_Headers im) header)"

text \<open>The declarative reading of the two loops.\<close>

definition header_value_ok :: "regexp_engine \<Rightarrow> InternalHeaderMatch \<Rightarrow> string \<Rightarrow> bool" where
  "header_value_ok E hm v \<longleftrightarrow>
     (if ihm_Type hm = HeaderMatchRegularExpression
      then \<exists>re. ihm_MatchRegularExpressionValue hm = Some re \<and> MatchString E re v
      else v = ihm_MatchExactValue hm)"

definition path_ok :: "InternalPathMatch option \<Rightarrow> string \<Rightarrow> bool" where
  "path_ok pm path \<longleftrightarrow>
     (\<forall>p. pm = Some p \<longrightarrow>
        (ipm_Type p = PathMatchExact \<longrightarrow> path = ipm_Value p) \<and>
        (ipm_Type p = PathMatchPathPrefix \<longrightarrow> hasPathPrefix path (ipm_Value p)))"

lemma header_matched_iff: "header_matched E hm vs \<longleftrightarrow> (\<exists>v \<in> set vs. header_value_ok E hm v)"
  by (induction vs) (auto simp: header_value_ok_def split: option.splits)

lemma headers_loop_iff:
  "headers_loop E hms header \<longleftrightarrow>
     (\<forall>hm \<in> set hms. \<exists>v \<in> set (header_values header (CanonicalHeaderKey (ihm_Name hm))).
        header_value_ok E hm v)"
  by (induction hms) (auto simp: header_matched_iff)

lemma Matches_iff:
  "Matches E im path header \<longleftrightarrow> path_ok (im_Path im) path \<and>
     (\<forall>hm \<in> set (im_Headers im).
        \<exists>v \<in> set (header_values header (CanonicalHeaderKey (ihm_Name hm))). header_value_ok E hm v)"
  by (auto simp: Matches_def path_ok_def headers_loop_iff split: option.splits)

text \<open>Two header matches that differ only in the letter case of a valid header name.\<close>

definition same_header_match :: "InternalHeaderMatch \<Rightarrow> InternalHeaderMatch \<Rightarrow> bool" where
  "same_header_match a b \<longleftrightarrow>
     b = a\<lparr>ihm_Name := ihm_Name b\<rparr> \<and> list_all validHeaderFieldByte (ihm_Name a) \<and>
     map to_lower (ihm_Name a) = map to_lower (ihm_Name b)"

lemma header_value_ok_rename: "header_value_ok E (a\<lparr>ihm_Name := n\<rparr>) = header_value_ok E a"
  by (rule ext) (simp add: header_value_ok_def)

lemma same_header_match_ok:
  assumes "same_header_match a b"
  shows "header_value_ok E b = header_value_ok E a"
proof -
  obtain n where "b = a\<lparr>ihm_Name := n\<rparr>" using assms by (auto simp: same_header_match_def)
  then show ?thesis by (simp only: header_value_ok_rename)
qed

lemma same_header_match_key:
  "same_header_match a b \<Longrightarrow> CanonicalHeaderKey (ihm_Name a) = CanonicalHeaderKey (ihm_Name b)"
  unfolding same_header_match_def using CanonicalHeaderKey_case_insensitive by blast

lemma headers_loop_case_insensitive:
  "list_all2 same_header_match hms hms' \<Longrightarrow> headers_loop E hms' header = headers_loop E hms header"
  by (induction rule: list_all2_induct)
    (auto simp: header_matched_iff same_header_match_ok dest: same_header_match_key)

end
