(* ===== verification/RouteStatus.thy ===== *)
theory RouteStatus
  imports InternalRoutes
begin

text \<open>
  \<^verbatim>\<open>pkg/state/httproute.go\<close> and the small methods of \<^verbatim>\<open>gateway.go\<close>: validation of
  a route, the conditions \<open>Accepted\<close> and \<open>ResolvedRefs\<close> that are reported for it, and the two
  questions asked of a route's reported status. An \<open>HTTPRouteState\<close> wraps a pointer that the
  code tests for nil in three methods and dereferences in the others; \<open>now\<close> is the reading of
  the clock (\<open>metav1.Now\<close>), which the code copies into conditions and never reads.
\<close>

section \<open>The code\<close>

record GatewayState =
  gs_Gateway :: Gateway

record HTTPRouteState =
  hs_HTTPRoute :: "HTTPRoute option"

definition GetHostnames :: "HTTPRoute \<Rightarrow> string list" where
  "GetHostnames route = map (\<lambda>h. h) (hr_Hostnames route)"

definition GetNamespace :: "HTTPRouteState \<Rightarrow> string panicking" where
  "GetNamespace s = bind_result (deref (hs_HTTPRoute s)) (\<lambda>route. Inr (om_Namespace route))"

fun validate_headers :: "regexp_engine \<Rightarrow> HTTPHeaderMatch list \<Rightarrow> string option" where
  "validate_headers E [] = None"
| "validate_headers E (h # hs) =
     (if ValueOf '''' (hm_Type h) = HeaderMatchRegularExpression then
        (case regexp_Compile E (hm_Value h) of
           Inl err \<Rightarrow> Some (''invalid regular expression in header match: '' @ err)
         | Inr _ \<Rightarrow> validate_headers E hs)
      else validate_headers E hs)"

fun validate_matches :: "regexp_engine \<Rightarrow> HTTPRouteMatch list \<Rightarrow> string option" where
  "validate_matches E [] = None"
| "validate_matches E (m # ms) =
     (case validate_headers E (rm_Headers m) of
        Some err \<Rightarrow> Some err
      | None \<Rightarrow> validate_matches E ms)"

fun validate_rules :: "regexp_engine \<Rightarrow> HTTPRouteRule list \<Rightarrow> string option" where
  "validate_rules E [] = None"
| "validate_rules E (rule # rules) =
     (case validate_matches E (rr_Matches rule) of
        Some err \<Rightarrow> Some err
      | None \<Rightarrow> validate_rules E rules)"

definition Validate :: "regexp_engine \<Rightarrow> HTTPRouteState \<Rightarrow> string option" where
  "Validate E s =
     (case hs_HTTPRoute s of None \<Rightarrow> None | Some route \<Rightarrow> validate_rules E (hr_Rules route))"

fun find_gateway :: "string \<Rightarrow> GatewayState list \<Rightarrow> GatewayState option" where
  "find_gateway n [] = None"
| "find_gateway n (g # gs) = (if om_Name (gs_Gateway g) = n then Some g else find_gateway n gs)"

definition http_listener :: "Listener \<Rightarrow> bool" where
  "http_listener l \<longleftrightarrow>
     \<not> (lst_Protocol l \<noteq> HTTPProtocolType \<and> lst_Protocol l \<noteq> HTTPSProtocolType)"

fun listener_loop :: "HTTPRoute \<Rightarrow> ParentReference \<Rightarrow> Listener list \<Rightarrow> bool" where
  "listener_loop route parentRef [] = False"
| "listener_loop route parentRef (l # ls) =
     (if \<not> http_listener l then listener_loop route parentRef ls
      else if ValueOf '''' (pr_SectionName parentRef) \<noteq> '''' \<and>
              ValueOf '''' (pr_SectionName parentRef) \<noteq> lst_Name l then
        listener_loop route parentRef ls
      else if length (IntersectHostnames (GetHostnames route) (ValueOf '''' (lst_Hostname l))) > 0 \<or>
              length (hr_Hostnames route) = 0 then True
      else listener_loop route parentRef ls)"

definition accepted_outcome ::
    "regexp_engine \<Rightarrow> HTTPRoute \<Rightarrow> ParentReference \<Rightarrow> GatewayState list \<Rightarrow>
     string \<times> string \<times> string" where
  "accepted_outcome E route parentRef gateways =
     (case Validate E \<lparr>hs_HTTPRoute = Some route\<rparr> of
        Some err \<Rightarrow> (ConditionFalse, RouteReasonUnsupportedValue, ''Invalid route: '' @ err)
      | None \<Rightarrow>
          (case find_gateway (pr_Name parentRef) gateways of
             None \<Rightarrow> (ConditionFalse, RouteReasonNoMatchingParent, ''Gateway not found'')
           | Some gw \<Rightarrow>
               if \<not> listener_loop route parentRef (gw_Listeners (gs_Gateway gw)) then
                 (ConditionFalse, RouteReasonNoMatchingListenerHostname,
                  ''No matching listener hostname'')
               else (ConditionTrue, RouteReasonAccepted,
                     ''Route accepted by reference implementation'')))"

definition ComputeAcceptedCondition ::
    "regexp_engine \<Rightarrow> Time \<Rightarrow> HTTPRouteState \<Rightarrow> ParentReference \<Rightarrow> GatewayState list \<Rightarrow>
     Condition panicking" where
  "ComputeAcceptedCondition E now s parentRef gateways =
     bind_result (deref (hs_HTTPRoute s)) (\<lambda>route.
       case accepted_outcome E route parentRef gateways of
         (acceptedStatus, acceptedReason, acceptedMessage) \<Rightarrow>
           Inr \<lparr>cond_Type = RouteConditionAccepted, cond_Status = acceptedStatus,
                cond_ObservedGeneration = om_Generation route, cond_LastTransitionTime = now,
                cond_Reason = acceptedReason, cond_Message = acceptedMessage\<rparr>)"

text \<open>The first backend reference whose kind is set to something else than \<open>Service\<close>.\<close>

fun invalid_kind_refs :: "HTTPBackendRef list \<Rightarrow> string option" where
  "invalid_kind_refs [] = None"
| "invalid_kind_refs (b # bs) =
     (case br_Kind b of
        None \<Rightarrow> invalid_kind_refs bs
      | Some kind \<Rightarrow> if kind \<noteq> ''Service'' then Some kind else invalid_kind_refs bs)"

fun invalid_kind_rules :: "HTTPRouteRule list \<Rightarrow> string option" where
  "invalid_kind_rules [] = None"
| "invalid_kind_rules (rule # rules) =
     (case invalid_kind_refs (rr_BackendRefs rule) of
        Some kind \<Rightarrow> Some kind
      | None \<Rightarrow> invalid_kind_rules rules)"

definition ComputeResolvedRefsCondition :: "Time \<Rightarrow> HTTPRouteState \<Rightarrow> Condition panicking" where
  "ComputeResolvedRefsCondition now s =
     bind_result (deref (hs_HTTPRoute s)) (\<lambda>route.
       case (case invalid_kind_rules (hr_Rules route) of
               Some kind \<Rightarrow> (ConditionFalse, RouteReasonInvalidKind,
                            ''Unsupported backend kind: '' @ kind)
             | None \<Rightarrow> (ConditionTrue, RouteReasonResolvedRefs, ''All references resolved'')) of
         (resolvedRefsStatus, resolvedRefsReason, resolvedRefsMessage) \<Rightarrow>
           Inr \<lparr>cond_Type = RouteConditionResolvedRefs, cond_Status = resolvedRefsStatus,
                cond_ObservedGeneration = om_Generation route, cond_LastTransitionTime = now,
                cond_Reason = resolvedRefsReason, cond_Message = resolvedRefsMessage\<rparr>)"

fun accepted_in :: "Condition list \<Rightarrow> bool" where
  "accepted_in [] = False"
| "accepted_in (c # cs) =
     (if cond_Type c = RouteConditionAccepted \<and> cond_Status c = ConditionTrue then True
      else accepted_in cs)"

fun is_accepted_loop :: "string \<Rightarrow> RouteParentStatus list \<Rightarrow> bool" where
  "is_accepted_loop controllerName [] = False"
| "is_accepted_loop controllerName (ps # pss) =
     (if rps_ControllerName ps = controllerName \<and> accepted_in (rps_Conditions ps) then True
      else is_accepted_loop controllerName pss)"

definition IsAccepted :: "HTTPRouteState \<Rightarrow> string \<Rightarrow> bool" where
  "IsAccepted s controllerName =
     (case hs_HTTPRoute s of
        None \<Rightarrow> False
      | Some route \<Rightarrow> is_accepted_loop controllerName (hr_Status_Parents route))"

fun matches_gateway_loop :: "string \<Rightarrow> string \<Rightarrow> RouteParentStatus list \<Rightarrow> bool" where
  "matches_gateway_loop controllerName gwName [] = False"
| "matches_gateway_loop controllerName gwName (ps # pss) =
     (if rps_ControllerName ps = controllerName then
        (if pr_Name (rps_ParentRef ps) = gwName then
           (if accepted_in (rps_Conditions ps) then True
            else matches_gateway_loop controllerName gwName pss)
         else matches_gateway_loop controllerName gwName pss)
      else matches_gateway_loop controllerName gwName pss)"

definition MatchesGateway :: "HTTPRouteState \<Rightarrow> Gateway \<Rightarrow> string \<Rightarrow> bool" where
  "MatchesGateway s gw controllerName =
     (case hs_HTTPRoute s of
        None \<Rightarrow> False
      | Some route \<Rightarrow> matches_gateway_loop controllerName (om_Name gw) (hr_Status_Parents route))"

fun GetHTTPRoutes_of :: "GatewayState \<Rightarrow> HTTPRouteState list \<Rightarrow> string \<Rightarrow> HTTPRouteState list" where
  "GetHTTPRoutes_of s [] controllerName = []"
| "GetHTTPRoutes_of s (route # routes) controllerName =
     (if MatchesGateway route (gs_Gateway s) controllerName
      then route # GetHTTPRoutes_of s routes controllerName
      else GetHTTPRoutes_of s routes controllerName)"

section \<open>Validation\<close>

lemma GetHostnames_eq [simp]: "GetHostnames route = hr_Hostnames route"
  by (simp add: GetHostnames_def)

definition header_compiles :: "regexp_engine \<Rightarrow> HTTPHeaderMatch \<Rightarrow> bool" where
  "header_compiles E h \<longleftrightarrow>
     (ValueOf '''' (hm_Type h) = HeaderMatchRegularExpression \<longrightarrow> compile_error E (hm_Value h) = None)"

lemma validate_headers_None:
  "validate_headers E hs = None \<longleftrightarrow> (\<forall>h \<in> set hs. header_compiles E h)"
  by (induction hs) (auto simp: header_compiles_def split: sum.splits)

lemma validate_matches_None:
  "validate_matches E ms = None \<longleftrightarrow> (\<forall>m \<in> set ms. \<forall>h \<in> set (rm_Headers m). header_compiles E h)"
  by (induction ms) (simp_all add: validate_headers_None [symmetric] split: option.split)

lemma validate_rules_None:
  "validate_rules E rules = None \<longleftrightarrow>
     (\<forall>rule \<in> set rules. \<forall>m \<in> set (rr_Matches rule). \<forall>h \<in> set (rm_Headers m). header_compiles E h)"
  by (induction rules) (simp_all add: validate_matches_None [symmetric] split: option.split)

section \<open>The condition \<open>Accepted\<close>\<close>

lemma find_gateway_Some: "find_gateway n gs = Some g \<Longrightarrow> g \<in> set gs \<and> om_Name (gs_Gateway g) = n"
  by (induction gs) (auto split: if_splits)

lemma find_gateway_None: "find_gateway n gs = None \<longleftrightarrow> (\<forall>g \<in> set gs. om_Name (gs_Gateway g) \<noteq> n)"
  by (induction gs) auto

definition section_selects :: "ParentReference \<Rightarrow> Listener \<Rightarrow> bool" where
  "section_selects pr l \<longleftrightarrow>
     ValueOf '''' (pr_SectionName pr) = '''' \<or> ValueOf '''' (pr_SectionName pr) = lst_Name l"

definition listener_serves :: "Listener \<Rightarrow> string \<Rightarrow> bool" where
  "listener_serves l host \<longleftrightarrow> http_listener l \<and> hostname_covers (ValueOf '''' (lst_Hostname l)) host"

lemma listener_loop_iff:
  "listener_loop route pr ls \<longleftrightarrow>
     (\<exists>l \<in> set ls. http_listener l \<and> section_selects pr l \<and>
        IntersectHostnames (hr_Hostnames route) (ValueOf '''' (lst_Hostname l)) \<noteq> [])"
  using IntersectHostnames_no_route_hostnames
  by (induction ls) (auto simp: section_selects_def)

lemma listener_loop_host:
  "listener_loop route pr ls \<longleftrightarrow>
     (\<exists>l \<in> set ls. \<exists>host. section_selects pr l \<and> listener_serves l host \<and>
        hostnames_cover (hr_Hostnames route) host)"
  by (auto simp: listener_loop_iff IntersectHostnames_nonempty_iff listener_serves_def)

lemma ComputeAcceptedCondition_Some:
  "ComputeAcceptedCondition E now \<lparr>hs_HTTPRoute = Some route\<rparr> pr gws =
     (case accepted_outcome E route pr gws of (st, rs, msg) \<Rightarrow>
        Inr \<lparr>cond_Type = RouteConditionAccepted, cond_Status = st,
             cond_ObservedGeneration = om_Generation route, cond_LastTransitionTime = now,
             cond_Reason = rs, cond_Message = msg\<rparr>)"
  by (simp add: ComputeAcceptedCondition_def split: prod.splits)

lemma Validate_Some [simp]:
  "Validate E \<lparr>hs_HTTPRoute = Some route\<rparr> = validate_rules E (hr_Rules route)"
  by (simp add: Validate_def)

text \<open>The outcome does not depend on the route's reported status.\<close>

lemma accepted_outcome_status [simp]:
  "accepted_outcome E (route\<lparr>hr_Status_Parents := ps\<rparr>) pr gws = accepted_outcome E route pr gws"
proof -
  have "listener_loop (route\<lparr>hr_Status_Parents := ps\<rparr>) pr ls = listener_loop route pr ls" for ls
    by (simp add: listener_loop_iff)
  then show ?thesis by (simp add: accepted_outcome_def split: option.split)
qed

lemma accepted_outcome_True:
  "fst (accepted_outcome E route pr gws) = ConditionTrue \<longleftrightarrow>
     validate_rules E (hr_Rules route) = None \<and>
     (\<exists>gw. find_gateway (pr_Name pr) gws = Some gw \<and>
        listener_loop route pr (gw_Listeners (gs_Gateway gw)))"
  by (auto simp: accepted_outcome_def split: option.splits)

lemma accepted_outcome_cases:
  obtains (invalid) err where "validate_rules E (hr_Rules route) = Some err"
      "accepted_outcome E route pr gws =
         (ConditionFalse, RouteReasonUnsupportedValue, ''Invalid route: '' @ err)"
  | (no_parent) "validate_rules E (hr_Rules route) = None" "find_gateway (pr_Name pr) gws = None"
      "accepted_outcome E route pr gws =
         (ConditionFalse, RouteReasonNoMatchingParent, ''Gateway not found'')"
  | (no_host) gw where "validate_rules E (hr_Rules route) = None"
      "find_gateway (pr_Name pr) gws = Some gw"
      "\<not> listener_loop route pr (gw_Listeners (gs_Gateway gw))"
      "accepted_outcome E route pr gws =
         (ConditionFalse, RouteReasonNoMatchingListenerHostname, ''No matching listener hostname'')"
  | (accepted) gw where "validate_rules E (hr_Rules route) = None"
      "find_gateway (pr_Name pr) gws = Some gw"
      "listener_loop route pr (gw_Listeners (gs_Gateway gw))"
      "accepted_outcome E route pr gws =
         (ConditionTrue, RouteReasonAccepted, ''Route accepted by reference implementation'')"
proof (cases "validate_rules E (hr_Rules route)")
  case (Some err)
  then show ?thesis using invalid by (simp add: accepted_outcome_def)
next
  case valid: None
  show ?thesis
  proof (cases "find_gateway (pr_Name pr) gws")
    case None
    with valid show ?thesis using no_parent by (simp add: accepted_outcome_def)
  next
    case (Some gw)
    with valid show ?thesis
      using no_host accepted
      by (cases "listener_loop route pr (gw_Listeners (gs_Gateway gw))")
        (simp_all add: accepted_outcome_def)
  qed
qed

section \<open>The condition \<open>ResolvedRefs\<close>\<close>

definition service_kind :: "HTTPBackendRef \<Rightarrow> bool" where
  "service_kind b \<longleftrightarrow> br_Kind b = None \<or> br_Kind b = Some ''Service''"

lemma invalid_kind_refs_None: "invalid_kind_refs bs = None \<longleftrightarrow> (\<forall>b \<in> set bs. service_kind b)"
  by (induction bs) (auto simp: service_kind_def split: option.splits)

lemma invalid_kind_rules_None:
  "invalid_kind_rules rules = None \<longleftrightarrow>
     (\<forall>rule \<in> set rules. \<forall>b \<in> set (rr_BackendRefs rule). service_kind b)"
  by (induction rules) (simp_all add: invalid_kind_refs_None [symmetric] split: option.split)

lemma invalid_kind_refs_find:
  "invalid_kind_refs bs =
     (case find (\<lambda>b. \<not> service_kind b) bs of None \<Rightarrow> None | Some b \<Rightarrow> br_Kind b)"
  by (induction bs) (auto simp: service_kind_def split: option.splits)

lemma invalid_kind_refs_append:
  "invalid_kind_refs (as @ bs) =
     (case invalid_kind_refs as of Some k \<Rightarrow> Some k | None \<Rightarrow> invalid_kind_refs bs)"
  by (induction as) (auto split: option.splits)

lemma invalid_kind_rules_concat:
  "invalid_kind_rules rules = invalid_kind_refs (concat (map rr_BackendRefs rules))"
  by (induction rules) (auto simp: invalid_kind_refs_append split: option.splits)

section \<open>Questions about the reported status\<close>

lemma accepted_in_iff:
  "accepted_in cs \<longleftrightarrow>
     (\<exists>c \<in> set cs. cond_Type c = RouteConditionAccepted \<and> cond_Status c = ConditionTrue)"
  by (induction cs) auto

lemma is_accepted_loop_iff:
  "is_accepted_loop cn pss \<longleftrightarrow>
     (\<exists>ps \<in> set pss. rps_ControllerName ps = cn \<and> accepted_in (rps_Conditions ps))"
  by (induction pss) auto

lemma matches_gateway_loop_iff:
  "matches_gateway_loop cn gn pss \<longleftrightarrow>
     (\<exists>ps \<in> set pss. rps_ControllerName ps = cn \<and> pr_Name (rps_ParentRef ps) = gn \<and>
        accepted_in (rps_Conditions ps))"
  by (induction pss) auto

lemma MatchesGateway_IsAccepted: "MatchesGateway s gw cn \<Longrightarrow> IsAccepted s cn"
  by (auto simp: MatchesGateway_def IsAccepted_def matches_gateway_loop_iff is_accepted_loop_iff
      split: option.splits)

lemma GetHTTPRoutes_of_filter:
  "GetHTTPRoutes_of s routes cn = filter (\<lambda>r. MatchesGateway r (gs_Gateway s) cn) routes"
  by (induction routes) auto

end
