(* ===== verification/Preference.thy ===== *)
theory Preference
  imports Prelude
begin

text \<open>
  The interface of a "keep the better one" scan. A client walks over candidates and keeps the
  best one seen, replacing it only by a strictly better one; the provider promises that
  \<open>better\<close> is a strict weak order on the candidates it is asked about. The lemmas say what
  the scan then returns: the first of the maximal candidates, whatever the list, and an
  equivalent one after any reordering of the list.
\<close>

fun scan_best :: "('c \<Rightarrow> 'c \<Rightarrow> bool) \<Rightarrow> 'c list \<Rightarrow> 'c option \<Rightarrow> 'c option" where
  "scan_best better [] best = best"
| "scan_best better (c # cs) best =
     scan_best better cs
       (case best of
          None \<Rightarrow> Some c
        | Some b \<Rightarrow> if better c b then Some c else Some b)"

lemma scan_best_Some: "\<exists>c. scan_best better cs (Some b) = Some c"
  by (induction cs arbitrary: b) auto

lemma scan_best_None_iff: "scan_best better cs None = None \<longleftrightarrow> cs = []"
proof (cases cs)
  case (Cons c cs')
  then show ?thesis using scan_best_Some [of better cs' c] by auto
qed simp

lemma scan_best_in: "scan_best better cs best = Some c \<Longrightarrow> c \<in> set cs \<or> best = Some c"
  by (induction cs arbitrary: best) (auto split: option.splits if_splits)

locale preference =
  fixes better :: "'c \<Rightarrow> 'c \<Rightarrow> bool"
    and ok :: "'c \<Rightarrow> bool"
  assumes better_irrefl: "ok a \<Longrightarrow> \<not> better a a"
    and better_trans: "ok a \<Longrightarrow> ok b \<Longrightarrow> ok c \<Longrightarrow> better a b \<Longrightarrow> better b c \<Longrightarrow> better a c"
    and better_neg_trans:
      "ok a \<Longrightarrow> ok b \<Longrightarrow> ok c \<Longrightarrow> \<not> better a b \<Longrightarrow> \<not> better b c \<Longrightarrow> \<not> better a c"
begin

lemma better_asym: "ok a \<Longrightarrow> ok b \<Longrightarrow> better a b \<Longrightarrow> \<not> better b a"
  using better_irrefl better_trans by blast

lemma scan_best_maximal_from:
  assumes "scan_best better cs (Some b) = Some c" "ok b" "\<forall>x \<in> set cs. ok x"
  shows "ok c \<and> \<not> better b c \<and> (\<forall>x \<in> set cs. \<not> better x c)"
  using assms
proof (induction cs arbitrary: b)
  case Nil
  then show ?case using better_irrefl by simp
next
  case (Cons x cs)
  show ?case
  proof (cases "better x b")
    case True
    with Cons have ih: "ok c \<and> \<not> better x c \<and> (\<forall>y \<in> set cs. \<not> better y c)" by simp
    moreover have "\<not> better b x" using True Cons.prems better_asym by simp
    ultimately show ?thesis using Cons.prems better_neg_trans by (metis list.set_intros(1) set_ConsD)
  next
    case False
    with Cons have ih: "ok c \<and> \<not> better b c \<and> (\<forall>y \<in> set cs. \<not> better y c)" by simp
    moreover have "\<not> better x c"
      using False ih Cons.prems better_neg_trans by (metis list.set_intros(1))
    ultimately show ?thesis by simp
  qed
qed

lemma scan_best_maximal:
  assumes "scan_best better cs None = Some c" "\<forall>x \<in> set cs. ok x"
  shows "c \<in> set cs \<and> (\<forall>x \<in> set cs. \<not> better x c)"
proof (cases cs)
  case Nil
  with assms show ?thesis by simp
next
  case (Cons b cs')
  then show ?thesis
    using assms scan_best_maximal_from [of cs' b c] scan_best_in [of better cs None c] by auto
qed

text \<open>The scan keeps the earliest: everything before the result is strictly worse.\<close>

lemma scan_best_first_from:
  assumes "scan_best better cs (Some b) = Some c" "ok b" "\<forall>x \<in> set cs. ok x"
  shows "c = b \<or> (\<exists>pre post. cs = pre @ c # post \<and> better c b \<and> (\<forall>x \<in> set pre. better c x))"
  using assms
proof (induction cs arbitrary: b)
  case Nil
  then show ?case by simp
next
  case (Cons x cs)
  show ?case
  proof (cases "better x b")
    case True
    with Cons have "c = x \<or>
        (\<exists>pre post. cs = pre @ c # post \<and> better c x \<and> (\<forall>y \<in> set pre. better c y))" by simp
    then show ?thesis
    proof
      assume "c = x"
      with True show ?thesis by - (rule disjI2, rule exI [of _ "[]"], rule exI [of _ cs], simp)
    next
      assume "\<exists>pre post. cs = pre @ c # post \<and> better c x \<and> (\<forall>y \<in> set pre. better c y)"
      then obtain pre post where *: "cs = pre @ c # post" "better c x" "\<forall>y \<in> set pre. better c y"
        by blast
      then have "better c b" using True Cons.prems better_trans by (meson in_set_conv_decomp list.set_intros)
      with * show ?thesis by - (rule disjI2, rule exI [of _ "x # pre"], rule exI [of _ post], simp)
    qed
  next
    case False
    with Cons have "c = b \<or>
        (\<exists>pre post. cs = pre @ c # post \<and> better c b \<and> (\<forall>y \<in> set pre. better c y))" by simp
    then show ?thesis
    proof
      assume "\<exists>pre post. cs = pre @ c # post \<and> better c b \<and> (\<forall>y \<in> set pre. better c y)"
      then obtain pre post where *: "cs = pre @ c # post" "better c b" "\<forall>y \<in> set pre. better c y"
        by blast
      then have "better c x"
        using False Cons.prems better_neg_trans by (metis in_set_conv_decomp list.set_intros(1,2))
      with * show ?thesis by - (rule disjI2, rule exI [of _ "x # pre"], rule exI [of _ post], simp)
    qed simp
  qed
qed

lemma scan_best_first:
  assumes "scan_best better cs None = Some c" "\<forall>x \<in> set cs. ok x"
  obtains pre post where "cs = pre @ c # post" "\<forall>x \<in> set pre. better c x"
proof (cases cs)
  case Nil
  with assms show ?thesis by simp
next
  case (Cons b cs')
  with assms have "scan_best better cs' (Some b) = Some c" "ok b" "\<forall>x \<in> set cs'. ok x" by auto
  from scan_best_first_from [OF this] show ?thesis
  proof
    assume "c = b"
    with Cons show ?thesis by (intro that [of "[]" cs']) auto
  next
    assume "\<exists>pre post. cs' = pre @ c # post \<and> better c b \<and> (\<forall>x \<in> set pre. better c x)"
    with Cons show ?thesis by (metis that append_Cons set_ConsD)
  qed
qed

text \<open>The result does not depend on the order of the candidates, up to equivalence.\<close>

lemma scan_best_perm:
  assumes "scan_best better cs None = Some c" "scan_best better ds None = Some d"
    and "set cs = set ds" "\<forall>x \<in> set cs. ok x"
  shows "\<not> better c d \<and> \<not> better d c"
  using scan_best_maximal [OF assms(1)] scan_best_maximal [OF assms(2)] assms(3,4) by auto

end

end
