(* ===== verification/Matching.thy ===== *)
theory Matching
  imports InternalRoutes Preference "HOL-Library.Product_Lexorder"
begin

text \<open>
  \<open>MatchRoute\<close> of \<^verbatim>\<open>pkg/state/gateway.go\<close>: three nested loops over routes, rules
  and matches that keep the best match so far, and the precedence \<open>isBetterMatch\<close>. The loops
  are shown to be one scan over the flat list of candidates; the precedence is a lexicographic
  order on (path type, path length, number of headers), hence a strict weak order on the path
  types that the API admits, and the laws of \<open>preference\<close> give the rest.
\<close>

section \<open>The code\<close>

definition getPathMatchType :: "InternalMatch \<Rightarrow> string" where
  "getPathMatchType m = (case im_Path m of None \<Rightarrow> '''' | Some p \<Rightarrow> ipm_Type p)"

definition getPathMatchTypeWeight :: "string \<Rightarrow> int" where
  "getPathMatchTypeWeight t =
     (if t = PathMatchExact then 3
      else if t = PathMatchPathPrefix then 2
      else if t = '''' then 1
      else 0)"

definition getPathLen :: "InternalMatch \<Rightarrow> nat" where
  "getPathLen m = (case im_Path m of None \<Rightarrow> 0 | Some p \<Rightarrow> length (ipm_Value p))"

definition isBetterMatch :: "InternalMatch \<Rightarrow> InternalMatch option \<Rightarrow> bool" where
  "isBetterMatch current best =
     (case best of
        None \<Rightarrow> True
      | Some b \<Rightarrow>
          let currentType = getPathMatchType current; bestType = getPathMatchType b in
          if currentType \<noteq> bestType then
            getPathMatchTypeWeight currentType > getPathMatchTypeWeight bestType
          else
            let currentPathLen = getPathLen current; bestPathLen = getPathLen b in
            if currentPathLen \<noteq> bestPathLen then currentPathLen > bestPathLen
            else length (im_Headers current) > length (im_Headers b))"

type_synonym best = "InternalRule option \<times> InternalMatch option"

definition empty_match :: InternalMatch where
  "empty_match = \<lparr>im_Path = None, im_Headers = []\<rparr>"

fun match_loop ::
    "regexp_engine \<Rightarrow> Request \<Rightarrow> InternalRule \<Rightarrow> InternalMatch list \<Rightarrow> best \<Rightarrow> best" where
  "match_loop E r rule [] best = best"
| "match_loop E r rule (m # ms) (bestRule, bestMatch) =
     match_loop E r rule ms
       (if Matches E m (req_Path r) (req_Header r) then
          (if isBetterMatch m bestMatch then (Some rule, Some m) else (bestRule, bestMatch))
        else (bestRule, bestMatch))"

fun rule_loop :: "regexp_engine \<Rightarrow> Request \<Rightarrow> InternalRule list \<Rightarrow> best \<Rightarrow> best" where
  "rule_loop E r [] best = best"
| "rule_loop E r (rule # rules) best =
     rule_loop E r rules
       (case match_loop E r rule (irule_Matches rule) best of
          (bestRule, bestMatch) \<Rightarrow>
            if length (irule_Matches rule) = 0 then
              (if bestRule = None then (Some rule, Some empty_match) else (bestRule, bestMatch))
            else (bestRule, bestMatch))"

fun route_loop :: "regexp_engine \<Rightarrow> Request \<Rightarrow> InternalRoute list \<Rightarrow> best \<Rightarrow> best" where
  "route_loop E r [] best = best"
| "route_loop E r (route # routes) best =
     (if \<not> MatchHostname route (req_Host r) then route_loop E r routes best
      else route_loop E r routes (rule_loop E r (ir_Rules route) best))"

definition MatchRoute :: "regexp_engine \<Rightarrow> InternalRoute list \<Rightarrow> Request \<Rightarrow> best" where
  "MatchRoute E routes r = route_loop E r routes (None, None)"

section \<open>The precedence is lexicographic\<close>

text \<open>The path types that the CRD schema and the defaulting of \<open>BuildInternalRoutes\<close> admit.\<close>

definition known_path_type :: "InternalMatch \<Rightarrow> bool" where
  "known_path_type m \<longleftrightarrow> getPathMatchType m \<in>
     {'''', PathMatchExact, PathMatchPathPrefix, PathMatchRegularExpression}"

definition match_rank :: "InternalMatch \<Rightarrow> int \<times> nat \<times> nat" where
  "match_rank m =
     (getPathMatchTypeWeight (getPathMatchType m), getPathLen m, length (im_Headers m))"

definition better_match :: "InternalMatch \<Rightarrow> InternalMatch \<Rightarrow> bool" where
  "better_match a b = isBetterMatch a (Some b)"

lemma weight_inject:
  "known_path_type a \<Longrightarrow> known_path_type b \<Longrightarrow>
     getPathMatchTypeWeight (getPathMatchType a) = getPathMatchTypeWeight (getPathMatchType b) \<longleftrightarrow>
     getPathMatchType a = getPathMatchType b"
  by (auto simp: known_path_type_def getPathMatchTypeWeight_def)

lemma better_match_rank:
  "known_path_type a \<Longrightarrow> known_path_type b \<Longrightarrow>
     better_match a b \<longleftrightarrow> match_rank b < match_rank a"
  using weight_inject [of a b]
  by (auto simp: better_match_def isBetterMatch_def match_rank_def Let_def less_prod_def)

interpretation pref: preference better_match known_path_type
  by unfold_locales (auto simp: better_match_rank not_less)

section \<open>One scan over the candidates\<close>

type_synonym candidate = "InternalRule \<times> InternalMatch"

text \<open>
  A rule without matches stands for one candidate, the empty match, which every request
  satisfies.
\<close>

definition rule_candidates :: "regexp_engine \<Rightarrow> Request \<Rightarrow> InternalRule \<Rightarrow> candidate list" where
  "rule_candidates E r rule =
     (if irule_Matches rule = [] then [(rule, empty_match)]
      else map (Pair rule)
             (filter (\<lambda>m. Matches E m (req_Path r) (req_Header r)) (irule_Matches rule)))"

definition route_candidates ::
    "regexp_engine \<Rightarrow> Request \<Rightarrow> InternalRoute \<Rightarrow> candidate list" where
  "route_candidates E r route =
     (if MatchHostname route (req_Host r)
      then concat (map (rule_candidates E r) (ir_Rules route)) else [])"

definition candidates ::
    "regexp_engine \<Rightarrow> InternalRoute list \<Rightarrow> Request \<Rightarrow> candidate list" where
  "candidates E routes r = concat (map (route_candidates E r) routes)"

definition better_candidate :: "candidate \<Rightarrow> candidate \<Rightarrow> bool" where
  "better_candidate c d = better_match (snd c) (snd d)"

text \<open>
  What replaces what in the loops of the code: a match by the precedence, the fallback of a rule
  without matches nothing at all.
\<close>

definition beats :: "candidate \<Rightarrow> candidate \<Rightarrow> bool" where
  "beats c d \<longleftrightarrow> irule_Matches (fst c) \<noteq> [] \<and> better_candidate c d"

text \<open>
  The fallback of a rule without matches only counts as "the least specific" when no path type
  weighs less than a missing path: \<open>ranked\<close> excludes the type \<open>RegularExpression\<close>.
\<close>

definition ranked :: "InternalMatch \<Rightarrow> bool" where
  "ranked m \<longleftrightarrow> getPathMatchType m \<in> {'''', PathMatchExact, PathMatchPathPrefix}"

definition ranked_routes :: "InternalRoute list \<Rightarrow> bool" where
  "ranked_routes routes \<longleftrightarrow>
     (\<forall>route \<in> set routes. \<forall>rule \<in> set (ir_Rules route). \<forall>m \<in> set (irule_Matches rule). ranked m)"

interpretation cand_pref: preference better_candidate "\<lambda>c. ranked (snd c)"
proof unfold_locales
  have k: "ranked m \<Longrightarrow> known_path_type m" for m by (auto simp: ranked_def known_path_type_def)
  show "ranked (snd a) \<Longrightarrow> \<not> better_candidate a a" for a
    using pref.better_irrefl k by (simp add: better_candidate_def)
  show "ranked (snd a) \<Longrightarrow> ranked (snd b) \<Longrightarrow> ranked (snd c) \<Longrightarrow>
      better_candidate a b \<Longrightarrow> better_candidate b c \<Longrightarrow> better_candidate a c" for a b c
    using pref.better_trans k unfolding better_candidate_def by blast
  show "ranked (snd a) \<Longrightarrow> ranked (snd b) \<Longrightarrow> ranked (snd c) \<Longrightarrow>
      \<not> better_candidate a b \<Longrightarrow> \<not> better_candidate b c \<Longrightarrow> \<not> better_candidate a c" for a b c
    using pref.better_neg_trans k unfolding better_candidate_def by blast
qed

definition to_best :: "candidate option \<Rightarrow> best" where
  "to_best c = (map_option fst c, map_option snd c)"

lemma ranked_empty_match [simp]: "ranked empty_match"
  by (simp add: ranked_def empty_match_def getPathMatchType_def)

lemma better_empty_match: "ranked m \<Longrightarrow> \<not> better_match empty_match m"
  by (auto simp: better_match_def isBetterMatch_def ranked_def empty_match_def Let_def
      getPathMatchType_def getPathMatchTypeWeight_def getPathLen_def split: option.splits)

lemma scan_best_append: "scan_best f (xs @ ys) b = scan_best f ys (scan_best f xs b)"
  by (induction xs arbitrary: b) auto

lemma scan_best_cong:
  assumes "\<And>c d. c \<in> set cs \<Longrightarrow> d \<in> set cs \<or> best = Some d \<Longrightarrow> f c d = g c d"
  shows "scan_best f cs best = scan_best g cs best"
  using assms
proof (induction cs arbitrary: best)
  case (Cons c cs)
  have "(case best of None \<Rightarrow> Some c | Some b \<Rightarrow> if f c b then Some c else Some b) =
      (case best of None \<Rightarrow> Some c | Some b \<Rightarrow> if g c b then Some c else Some b)"
    using Cons.prems [of c] by (cases best) auto
  moreover have "scan_best f cs b = scan_best g cs b" if "b = Some c \<or> b = best" for b
    using that Cons.prems by (intro Cons.IH) auto
  ultimately show ?case by (auto split: option.splits)
qed simp

lemma match_loop_scan:
  assumes "set ms \<subseteq> set (irule_Matches rule)"
  shows "match_loop E r rule ms (to_best b) =
     to_best (scan_best beats
       (map (Pair rule) (filter (\<lambda>m. Matches E m (req_Path r) (req_Header r)) ms)) b)"
  using assms
proof (induction ms arbitrary: b)
  case Nil
  show ?case by simp
next
  case (Cons m ms)
  then have "irule_Matches rule \<noteq> []" by auto
  then have step: "(if isBetterMatch m (map_option snd b) then (Some rule, Some m) else to_best b) =
      to_best (case b of None \<Rightarrow> Some (rule, m)
               | Some c \<Rightarrow> if beats (rule, m) c then Some (rule, m) else Some c)"
    by (cases b) (auto simp: to_best_def beats_def better_candidate_def better_match_def isBetterMatch_def)
  show ?case
  proof (cases "Matches E m (req_Path r) (req_Header r)")
    case True
    have "match_loop E r rule (m # ms) (to_best b) =
        match_loop E r rule ms
          (if isBetterMatch m (map_option snd b) then (Some rule, Some m) else to_best b)"
      using True by (simp add: to_best_def)
    with step True Cons show ?thesis by (simp add: Cons.IH del: match_loop.simps)
  next
    case False
    then have "match_loop E r rule (m # ms) (to_best b) = match_loop E r rule ms (to_best b)"
      by (simp add: to_best_def)
    with False Cons show ?thesis by (simp del: match_loop.simps)
  qed
qed

lemma rule_step_scan:
  "rule_loop E r [rule] (to_best b) = to_best (scan_best beats (rule_candidates E r rule) b)"
proof (cases "irule_Matches rule = []")
  case True
  then show ?thesis by (cases b) (auto simp: rule_candidates_def to_best_def beats_def)
next
  case False
  then have "rule_loop E r [rule] (to_best b) = match_loop E r rule (irule_Matches rule) (to_best b)"
    by (simp split: prod.split)
  with False show ?thesis by (simp add: match_loop_scan rule_candidates_def)
qed

lemma rule_loop_Cons: "rule_loop E r (rule # rules) b = rule_loop E r rules (rule_loop E r [rule] b)"
  by simp

lemma rule_loop_scan:
  "rule_loop E r rules (to_best b) =
     to_best (scan_best beats (concat (map (rule_candidates E r) rules)) b)"
proof (induction rules arbitrary: b)
  case (Cons rule rules)
  then show ?case
    unfolding rule_loop_Cons [of E r rule rules] by (simp only: rule_step_scan scan_best_append list.map concat.simps)
qed simp

lemma route_loop_scan:
  "route_loop E r routes (to_best b) = to_best (scan_best beats (candidates E routes r) b)"
proof (induction routes arbitrary: b)
  case (Cons route routes)
  then show ?case
    by (simp add: rule_loop_scan route_candidates_def candidates_def scan_best_append)
qed (simp add: candidates_def)

text \<open>Whatever the table: the loops are one scan over the candidates.\<close>

lemma MatchRoute_beats:
  "MatchRoute E routes r = to_best (scan_best beats (candidates E routes r) None)"
  using route_loop_scan [of E r routes None] by (simp add: MatchRoute_def to_best_def)

lemma MatchRoute_shape:
  "MatchRoute E routes r = (None, None) \<or>
    (\<exists>rule m. MatchRoute E routes r = (Some rule, Some m))"
  unfolding MatchRoute_beats to_best_def
  by (cases "scan_best beats (candidates E routes r) None") auto

lemma MatchRoute_in:
  assumes "MatchRoute E routes r = (Some rule, Some m)"
  shows "(rule, m) \<in> set (candidates E routes r)"
proof -
  from assms have "scan_best beats (candidates E routes r) None = Some (rule, m)"
    by (cases "scan_best beats (candidates E routes r) None") (auto simp: MatchRoute_beats to_best_def)
  then show ?thesis using scan_best_in [of beats _ None] by blast
qed

lemma candidates_rule:
  assumes "c \<in> set (candidates E routes r)"
  obtains route rule where "route \<in> set routes" "rule \<in> set (ir_Rules route)"
    "c \<in> set (rule_candidates E r rule)"
  using assms that by (auto simp: candidates_def route_candidates_def split: if_splits)

lemma candidates_ranked:
  assumes "ranked_routes routes" "c \<in> set (candidates E routes r)"
  shows "ranked (snd c)"
  using assms(2)
proof (rule candidates_rule)
  fix route rule
  assume "route \<in> set routes" "rule \<in> set (ir_Rules route)" "c \<in> set (rule_candidates E r rule)"
  with assms(1) show ?thesis
    by (auto simp: ranked_routes_def rule_candidates_def split: if_splits)
qed

text \<open>On the path types of the precedence the fallback is the least specific match.\<close>

lemma MatchRoute_scan:
  assumes "ranked_routes routes"
  shows "MatchRoute E routes r = to_best (scan_best better_candidate (candidates E routes r) None)"
proof -
  have "beats c d = better_candidate c d"
    if "c \<in> set (candidates E routes r)" "d \<in> set (candidates E routes r)" for c d
    using that(1)
  proof (rule candidates_rule)
    fix rule assume "c \<in> set (rule_candidates E r rule)"
    with better_empty_match [OF candidates_ranked [OF assms that(2)]] show ?thesis
      by (auto simp: rule_candidates_def beats_def better_candidate_def split: if_splits)
  qed
  then show ?thesis
    unfolding MatchRoute_beats by (intro arg_cong [of _ _ to_best] scan_best_cong) auto
qed

lemma MatchRoute_Some:
  assumes "ranked_routes routes"
  shows "MatchRoute E routes r = (Some rule, Some m) \<longleftrightarrow>
    scan_best better_candidate (candidates E routes r) None = Some (rule, m)"
  unfolding MatchRoute_scan [OF assms] to_best_def by auto

end
