(* ===== verification/Build.thy ===== *)
theory Build
  imports RouteStatus Matching
begin

text \<open>
  \<open>BuildInternalRoutes\<close> of \<^verbatim>\<open>pkg/state/gateway.go\<close>: from one gateway, the routes,
  services, backend TLS policies and config maps, the routing table that the proxy serves. The
  function is one body of 220 lines; each of its loops is a definition here, in the order of
  the code. Two dereferences of the body can panic: a route whose pointer is nil, and a
  \<open>RequestRedirect\<close> filter without its payload.
\<close>

section \<open>The code: binding a route to a listener\<close>

fun find_parent ::
    "regexp_engine \<Rightarrow> Time \<Rightarrow> GatewayState \<Rightarrow> Listener \<Rightarrow> HTTPRouteState \<Rightarrow>
     ParentReference list \<Rightarrow> ParentReference option panicking" where
  "find_parent E now s l route [] = Inr None"
| "find_parent E now s l route (parentRef # prs) =
     (if pr_Name parentRef \<noteq> om_Name (gs_Gateway s) then find_parent E now s l route prs
      else if ValueOf '''' (pr_Namespace parentRef) \<noteq> '''' \<and>
              ValueOf '''' (pr_Namespace parentRef) \<noteq> om_Namespace (gs_Gateway s) then
        find_parent E now s l route prs
      else if ValueOf '''' (pr_SectionName parentRef) \<noteq> '''' \<and>
              ValueOf '''' (pr_SectionName parentRef) \<noteq> lst_Name l then
        find_parent E now s l route prs
      else
        bind_result (ComputeAcceptedCondition E now route parentRef [s]) (\<lambda>cond.
          if cond_Status cond = ConditionTrue then Inr (Some parentRef)
          else find_parent E now s l route prs))"

section \<open>The code: filters\<close>

definition build_path_redirect :: "HTTPPathModifier \<Rightarrow> InternalPathRedirect" where
  "build_path_redirect p =
     \<lparr>ipr_Type = mod_Type p,
      ipr_Value =
        (if mod_Type p = FullPathHTTPPathModifier then ValueOf '''' (mod_ReplaceFullPath p)
         else if mod_Type p = PrefixMatchHTTPPathModifier then
           ValueOf '''' (mod_ReplacePrefixMatch p)
         else '''')\<rparr>"

fun find_redirect :: "HTTPRouteFilter list \<Rightarrow> InternalRedirect option panicking" where
  "find_redirect [] = Inr None"
| "find_redirect (filt # fs) =
     (if flt_Type filt = HTTPRouteFilterRequestRedirect then
        bind_result (deref (flt_RequestRedirect filt)) (\<lambda>r.
          Inr (Some
            \<lparr>ird_Scheme = rrf_Scheme r, ird_Hostname = rrf_Hostname r,
             ird_Path = map_option build_path_redirect (rrf_Path r),
             ird_Port = rrf_Port r, ird_StatusCode = rrf_StatusCode r\<rparr>))
      else find_redirect fs)"

section \<open>The code: backends\<close>

fun port_app_protocol :: "int32 \<Rightarrow> ServicePort list \<Rightarrow> string option" where
  "port_app_protocol p [] = None"
| "port_app_protocol p (sp # sps) =
     (if sp_Port sp = p then sp_AppProtocol sp else port_app_protocol p sps)"

fun ca_certs_loop ::
    "(NamespacedName \<rightharpoonup> ConfigMap) \<Rightarrow> string \<Rightarrow> TargetRef list \<Rightarrow> string list \<Rightarrow> string list" where
  "ca_certs_loop configMaps ns [] caCerts = caCerts"
| "ca_certs_loop configMaps ns (caRef # refs) caCerts =
     ca_certs_loop configMaps ns refs
       (if tr_Group caRef = '''' \<and> tr_Kind caRef = ''ConfigMap'' then
          (case configMaps (NamespacedName ns (tr_Name caRef)) of
             None \<Rightarrow> caCerts
           | Some cm \<Rightarrow>
               (case cm_Data cm ''ca.crt'' of
                  Some data \<Rightarrow> caCerts @ [data]
                | None \<Rightarrow>
                    (case cm_BinaryData cm ''ca.crt'' of
                       Some data \<Rightarrow> caCerts @ [data]
                     | None \<Rightarrow> caCerts)))
        else caCerts)"

definition policy_targets :: "BackendTLSPolicy \<Rightarrow> string \<Rightarrow> string \<Rightarrow> TargetRef \<Rightarrow> bool" where
  "policy_targets policy svcNamespace svcName targetRef \<longleftrightarrow>
     tr_Group targetRef = '''' \<and> tr_Kind targetRef = ''Service'' \<and>
     tr_Name targetRef = svcName \<and> om_Namespace policy = svcNamespace"

type_synonym tls_choice = "string option \<times> InternalTLSConfig option"

fun target_loop ::
    "(NamespacedName \<rightharpoonup> ConfigMap) \<Rightarrow> string \<Rightarrow> string \<Rightarrow> BackendTLSPolicy \<Rightarrow> TargetRef list \<Rightarrow>
     tls_choice \<Rightarrow> tls_choice" where
  "target_loop configMaps svcNamespace svcName policy [] choice = choice"
| "target_loop configMaps svcNamespace svcName policy (targetRef # refs) choice =
     (if policy_targets policy svcNamespace svcName targetRef then
        (Some ''https'',
         Some \<lparr>tls_Hostname = btp_Hostname policy,
               tls_CACerts = ca_certs_loop configMaps (om_Namespace policy)
                               (btp_CACertificateRefs policy) []\<rparr>)
      else target_loop configMaps svcNamespace svcName policy refs choice)"

fun policy_loop ::
    "(NamespacedName \<rightharpoonup> ConfigMap) \<Rightarrow> string \<Rightarrow> string \<Rightarrow> BackendTLSPolicy list \<Rightarrow>
     tls_choice \<Rightarrow> tls_choice" where
  "policy_loop configMaps svcNamespace svcName [] choice = choice"
| "policy_loop configMaps svcNamespace svcName (policy # policies) choice =
     policy_loop configMaps svcNamespace svcName policies
       (target_loop configMaps svcNamespace svcName policy (btp_TargetRefs policy) choice)"

text \<open>What the function reads besides the gateway and the routes.\<close>

record build_inputs =
  bi_services :: "NamespacedName \<rightharpoonup> Service"
  bi_policies :: "BackendTLSPolicy list"
  bi_configMaps :: "NamespacedName \<rightharpoonup> ConfigMap"

definition build_backend ::
    "build_inputs \<Rightarrow> string \<Rightarrow> HTTPBackendRef \<Rightarrow> int32 \<Rightarrow> InternalBackend" where
  "build_backend B routeNamespace ref port =
     (let ns = (case br_Namespace ref of None \<Rightarrow> routeNamespace | Some n \<Rightarrow> n);
          appProtocol =
            (case bi_services B (NamespacedName ns (br_Name ref)) of
               None \<Rightarrow> None
             | Some svc \<Rightarrow> port_app_protocol port (svc_Ports svc));
          choice = policy_loop (bi_configMaps B) ns (br_Name ref) (bi_policies B)
                     (appProtocol, None)
      in \<lparr>ib_Host = br_Name ref @ ''.'' @ ns @ ''.svc.cluster.local'',
          ib_Port = port,
          ib_AppProtocol = fst choice,
          ib_TLSConfig = snd choice\<rparr>)"

definition unsupported_kind_error :: "string \<Rightarrow> ErrorState" where
  "unsupported_kind_error kind =
     \<lparr>es_Condition =
        \<lparr>cond_Type = RouteConditionResolvedRefs, cond_Status = ConditionFalse,
         cond_ObservedGeneration = 0, cond_LastTransitionTime = 0,
         cond_Reason = RouteReasonInvalidKind,
         cond_Message = ''Unsupported backend kind: '' @ kind\<rparr>,
      es_HTTPStatusCode = 500,
      es_HTTPMessage = ''Unsupported backend kind: '' @ kind\<rparr>"

fun backend_loop ::
    "build_inputs \<Rightarrow> string \<Rightarrow> HTTPBackendRef list \<Rightarrow> InternalRule \<Rightarrow> InternalRule" where
  "backend_loop B routeNamespace [] iRule = iRule"
| "backend_loop B routeNamespace (ref # refs) iRule =
     (let kind0 = ValueOf '''' (br_Kind ref);
          kind = (if kind0 = '''' then ''Service'' else kind0)
      in
      if kind \<noteq> ''Service'' then
        backend_loop B routeNamespace refs
          (iRule\<lparr>irule_Error := Some (unsupported_kind_error kind)\<rparr>)
      else
        (case br_Port ref of
           None \<Rightarrow> backend_loop B routeNamespace refs iRule
         | Some port \<Rightarrow>
             iRule\<lparr>irule_Backend := Some (build_backend B routeNamespace ref port),
                   irule_Error := None\<rparr>))"

section \<open>The code: matches\<close>

definition build_header :: "regexp_engine \<Rightarrow> HTTPHeaderMatch \<Rightarrow> InternalHeaderMatch" where
  "build_header E header =
     (let headerType0 = ValueOf '''' (hm_Type header);
          headerType = (if headerType0 = '''' then HeaderMatchExact else headerType0)
      in \<lparr>ihm_Type = headerType,
          ihm_Name = hm_Name header,
          ihm_MatchExactValue = hm_Value header,
          ihm_MatchRegularExpressionValue =
            (if headerType = HeaderMatchRegularExpression then
               (case regexp_Compile E (hm_Value header) of Inr re \<Rightarrow> Some re | Inl _ \<Rightarrow> None)
             else None)\<rparr>)"

definition build_match :: "regexp_engine \<Rightarrow> HTTPRouteMatch \<Rightarrow> InternalMatch" where
  "build_match E m =
     \<lparr>im_Path =
        (case rm_Path m of
           None \<Rightarrow> None
         | Some p \<Rightarrow>
             Some \<lparr>ipm_Type =
                     (if ValueOf '''' (pm_Type p) = '''' then PathMatchPathPrefix
                      else ValueOf '''' (pm_Type p)),
                   ipm_Value = ValueOf '''' (pm_Value p)\<rparr>),
      im_Headers = map (build_header E) (rm_Headers m)\<rparr>"

section \<open>The code: rules, routes and the table\<close>

definition build_rule ::
    "regexp_engine \<Rightarrow> build_inputs \<Rightarrow> HTTPRoute \<Rightarrow> Condition \<Rightarrow> HTTPRouteRule \<Rightarrow>
     InternalRule panicking" where
  "build_rule E B route resolvedRefsCond rule =
     bind_result (find_redirect (rr_Filters rule)) (\<lambda>redirect.
       let iRule0 = \<lparr>irule_Matches = [], irule_Backend = None, irule_Redirect = redirect,
                     irule_Error = None\<rparr>;
           iRule =
             (if cond_Status resolvedRefsCond = ConditionFalse then
                iRule0\<lparr>irule_Error :=
                  Some \<lparr>es_Condition = resolvedRefsCond,
                        es_HTTPStatusCode = 500,
                        es_HTTPMessage = cond_Message resolvedRefsCond\<rparr>\<rparr>
              else if redirect = None then
                backend_loop B (om_Namespace route) (rr_BackendRefs rule) iRule0
              else iRule0)
       in Inr (iRule\<lparr>irule_Matches := map (build_match E) (rr_Matches rule)\<rparr>))"

definition build_route ::
    "regexp_engine \<Rightarrow> Time \<Rightarrow> build_inputs \<Rightarrow> GatewayState \<Rightarrow> Listener \<Rightarrow> HTTPRouteState \<Rightarrow>
     InternalRoute list panicking" where
  "build_route E now B s listener route =
     bind_result (deref (hs_HTTPRoute route)) (\<lambda>hr.
     bind_result (find_parent E now s listener route (hr_ParentRefs hr)) (\<lambda>matchingParentRef.
       if matchingParentRef = None then Inr []
       else
         let routeHostnames = GetHostnames hr;
             effectiveHostnames =
               IntersectHostnames routeHostnames (ValueOf '''' (lst_Hostname listener))
         in
         if length effectiveHostnames = 0 \<and> length routeHostnames > 0 then Inr []
         else
           bind_result (ComputeResolvedRefsCondition now route) (\<lambda>resolvedRefsCond.
           bind_result (map_result (build_rule E B hr resolvedRefsCond) (hr_Rules hr)) (\<lambda>rules.
             Inr [\<lparr>ir_Hostnames = effectiveHostnames, ir_Rules = rules\<rparr>]))))"

definition build_listener ::
    "regexp_engine \<Rightarrow> Time \<Rightarrow> build_inputs \<Rightarrow> GatewayState \<Rightarrow> HTTPRouteState list \<Rightarrow> Listener \<Rightarrow>
     InternalRoute list panicking" where
  "build_listener E now B s routes listener =
     (if lst_Protocol listener \<noteq> HTTPProtocolType \<and> lst_Protocol listener \<noteq> HTTPSProtocolType
      then Inr []
      else concat_result (build_route E now B s listener) routes)"

definition BuildInternalRoutes ::
    "regexp_engine \<Rightarrow> Time \<Rightarrow> GatewayState \<Rightarrow> HTTPRouteState list \<Rightarrow> build_inputs \<Rightarrow> string \<Rightarrow>
     InternalRoute list panicking" where
  "BuildInternalRoutes E now s routes B controllerName =
     concat_result (build_listener E now B s routes) (gw_Listeners (gs_Gateway s))"

section \<open>Binding\<close>

definition refers :: "GatewayState \<Rightarrow> Listener \<Rightarrow> ParentReference \<Rightarrow> bool" where
  "refers s l pr \<longleftrightarrow>
     pr_Name pr = om_Name (gs_Gateway s) \<and>
     (ValueOf '''' (pr_Namespace pr) = '''' \<or>
      ValueOf '''' (pr_Namespace pr) = om_Namespace (gs_Gateway s)) \<and>
     section_selects pr l"

definition accepts :: "regexp_engine \<Rightarrow> GatewayState \<Rightarrow> HTTPRoute \<Rightarrow> ParentReference \<Rightarrow> bool" where
  "accepts E s hr pr \<longleftrightarrow> fst (accepted_outcome E hr pr [s]) = ConditionTrue"

definition attached :: "regexp_engine \<Rightarrow> GatewayState \<Rightarrow> Listener \<Rightarrow> HTTPRoute \<Rightarrow> bool" where
  "attached E s l hr \<longleftrightarrow>
     validate_rules E (hr_Rules hr) = None \<and> (\<exists>pr \<in> set (hr_ParentRefs hr). refers s l pr)"

lemma find_parent_find:
  "find_parent E now s l \<lparr>hs_HTTPRoute = Some hr\<rparr> prs =
     Inr (find (\<lambda>pr. refers s l pr \<and> accepts E s hr pr) prs)"
proof (induction prs)
  case Nil
  show ?case by simp
next
  case (Cons pr prs)
  obtain st rs msg where o: "accepted_outcome E hr pr [s] = (st, rs, msg)"
    by (meson prod_cases3)
  with Cons.IH show ?case
    by (simp add: ComputeAcceptedCondition_Some refers_def accepts_def section_selects_def)
qed

lemma accepts_attached:
  "refers s l pr \<Longrightarrow> pr \<in> set (hr_ParentRefs hr) \<Longrightarrow> accepts E s hr pr \<Longrightarrow> attached E s l hr"
  by (auto simp: accepts_def attached_def accepted_outcome_True)

lemma refers_accepts:
  assumes "refers s l pr" "validate_rules E (hr_Rules hr) = None"
    and "l \<in> set (gw_Listeners (gs_Gateway s))" "http_listener l"
    and "IntersectHostnames (hr_Hostnames hr) (ValueOf '''' (lst_Hostname l)) \<noteq> []"
  shows "accepts E s hr pr"
proof -
  from assms have "listener_loop hr pr (gw_Listeners (gs_Gateway s))"
    unfolding listener_loop_iff refers_def by blast
  with assms(1,2) show ?thesis
    by (simp add: accepts_def accepted_outcome_True refers_def)
qed

text \<open>
  A route is bound to an HTTP listener exactly when it is valid, one of its parent references
  selects the listener, and their hostnames intersect: the acceptance test on all the
  gateway's listeners adds nothing.
\<close>

lemma bound_iff:
  assumes "l \<in> set (gw_Listeners (gs_Gateway s))" "http_listener l"
    and "IntersectHostnames (hr_Hostnames hr) (ValueOf '''' (lst_Hostname l)) \<noteq> []"
  shows "(\<exists>pr \<in> set (hr_ParentRefs hr). refers s l pr \<and> accepts E s hr pr) \<longleftrightarrow> attached E s l hr"
proof
  assume "\<exists>pr \<in> set (hr_ParentRefs hr). refers s l pr \<and> accepts E s hr pr"
  then show "attached E s l hr" using accepts_attached by blast
next
  assume "attached E s l hr"
  then obtain pr where "pr \<in> set (hr_ParentRefs hr)" "refers s l pr"
      "validate_rules E (hr_Rules hr) = None" unfolding attached_def by blast
  with refers_accepts [OF _ _ assms] show
      "\<exists>pr \<in> set (hr_ParentRefs hr). refers s l pr \<and> accepts E s hr pr" by blast
qed

section \<open>Rules\<close>

definition resolved_condition :: "Time \<Rightarrow> HTTPRoute \<Rightarrow> Condition" where
  "resolved_condition now hr =
     (case invalid_kind_rules (hr_Rules hr) of
        Some kind \<Rightarrow>
          \<lparr>cond_Type = RouteConditionResolvedRefs, cond_Status = ConditionFalse,
           cond_ObservedGeneration = om_Generation hr, cond_LastTransitionTime = now,
           cond_Reason = RouteReasonInvalidKind,
           cond_Message = ''Unsupported backend kind: '' @ kind\<rparr>
      | None \<Rightarrow>
          \<lparr>cond_Type = RouteConditionResolvedRefs, cond_Status = ConditionTrue,
           cond_ObservedGeneration = om_Generation hr, cond_LastTransitionTime = now,
           cond_Reason = RouteReasonResolvedRefs, cond_Message = ''All references resolved''\<rparr>)"

lemma ComputeResolvedRefsCondition_Some:
  "ComputeResolvedRefsCondition now \<lparr>hs_HTTPRoute = Some hr\<rparr> = Inr (resolved_condition now hr)"
  by (simp add: ComputeResolvedRefsCondition_def resolved_condition_def split: option.split)

lemma resolved_condition_False:
  "cond_Status (resolved_condition now hr) = ConditionFalse \<longleftrightarrow>
     (\<exists>kind. invalid_kind_rules (hr_Rules hr) = Some kind)"
  by (simp add: resolved_condition_def split: option.split)

text \<open>The \<open>RequestRedirect\<close> filters carry their payload, as the CRD schema demands.\<close>

definition filters_complete :: "HTTPRouteFilter list \<Rightarrow> bool" where
  "filters_complete fs \<longleftrightarrow>
     (\<forall>f \<in> set fs. flt_Type f = HTTPRouteFilterRequestRedirect \<longrightarrow> flt_RequestRedirect f \<noteq> None)"

definition route_complete :: "HTTPRoute \<Rightarrow> bool" where
  "route_complete hr \<longleftrightarrow> (\<forall>rule \<in> set (hr_Rules hr). filters_complete (rr_Filters rule))"

definition redirect_of :: "HTTPRequestRedirectFilter \<Rightarrow> InternalRedirect" where
  "redirect_of r =
     \<lparr>ird_Scheme = rrf_Scheme r, ird_Hostname = rrf_Hostname r,
      ird_Path = map_option build_path_redirect (rrf_Path r),
      ird_Port = rrf_Port r, ird_StatusCode = rrf_StatusCode r\<rparr>"

definition is_redirect_filter :: "HTTPRouteFilter \<Rightarrow> bool" where
  "is_redirect_filter f \<longleftrightarrow> flt_Type f = HTTPRouteFilterRequestRedirect"

lemma find_redirect_find:
  "find_redirect fs =
     (case find is_redirect_filter fs of
        None \<Rightarrow> Inr None
      | Some f \<Rightarrow>
          (case flt_RequestRedirect f of
             None \<Rightarrow> Inl NilDereference
           | Some r \<Rightarrow> Inr (Some (redirect_of r))))"
  by (induction fs) (auto simp: is_redirect_filter_def redirect_of_def split: option.split)

lemma find_redirect_total: "filters_complete fs \<Longrightarrow> \<exists>r. find_redirect fs = Inr r"
  by (auto simp: find_redirect_find filters_complete_def is_redirect_filter_def
      dest!: find_Some_in split: option.split)

definition first_port_ref :: "HTTPBackendRef list \<Rightarrow> HTTPBackendRef option" where
  "first_port_ref refs = find (\<lambda>b. br_Port b \<noteq> None) refs"

definition chosen_backend ::
    "build_inputs \<Rightarrow> string \<Rightarrow> HTTPBackendRef list \<Rightarrow> InternalBackend option" where
  "chosen_backend B ns refs =
     map_option (\<lambda>b. build_backend B ns b (the (br_Port b))) (first_port_ref refs)"

lemma service_kind_value:
  "service_kind b \<Longrightarrow>
     (if ValueOf '''' (br_Kind b) = '''' then ''Service'' else ValueOf '''' (br_Kind b)) = ''Service''"
  by (auto simp: service_kind_def)

lemma backend_loop_services:
  assumes "\<forall>b \<in> set refs. service_kind b" "irule_Error iRule = None" "irule_Backend iRule = None"
  shows "backend_loop B ns refs iRule = iRule\<lparr>irule_Backend := chosen_backend B ns refs\<rparr>"
  using assms
proof (induction refs)
  case Nil
  then show ?case by (simp add: chosen_backend_def first_port_ref_def)
next
  case (Cons b refs)
  from Cons.prems have "service_kind b" by simp
  note k = service_kind_value [OF this]
  show ?case
  proof (cases "br_Port b")
    case None
    with Cons k show ?thesis
      by (simp add: Let_def chosen_backend_def first_port_ref_def)
  next
    case (Some p)
    with Cons.prems k show ?thesis
      by (simp add: Let_def chosen_backend_def first_port_ref_def)
  qed
qed

text \<open>Every built rule, whatever the filters: what each field is.\<close>

lemma build_rule_Matches:
  "build_rule E B hr cond rule = Inr r \<Longrightarrow> irule_Matches r = map (build_match E) (rr_Matches rule)"
  by (auto simp: build_rule_def bind_result_Inr_iff Let_def)

lemma backend_loop_Redirect: "irule_Redirect (backend_loop B ns refs i) = irule_Redirect i"
  by (induction refs arbitrary: i) (auto simp: Let_def split: option.split)

lemma build_rule_Redirect:
  "build_rule E B hr cond rule = Inr r \<Longrightarrow> find_redirect (rr_Filters rule) = Inr (irule_Redirect r)"
  by (auto simp: build_rule_def bind_result_Inr_iff Let_def backend_loop_Redirect)

lemma build_rule_invalid:
  assumes "build_rule E B hr cond rule = Inr r" "cond_Status cond = ConditionFalse"
  shows "irule_Backend r = None \<and>
    irule_Error r = Some \<lparr>es_Condition = cond, es_HTTPStatusCode = 500,
                          es_HTTPMessage = cond_Message cond\<rparr>"
  using assms by (auto simp: build_rule_def bind_result_Inr_iff Let_def)

lemma build_rule_valid:
  assumes "build_rule E B hr cond rule = Inr r" "cond_Status cond \<noteq> ConditionFalse"
    and "\<forall>b \<in> set (rr_BackendRefs rule). service_kind b"
  shows "irule_Error r = None \<and>
    irule_Backend r =
      (if irule_Redirect r = None then chosen_backend B (om_Namespace hr) (rr_BackendRefs rule)
       else None)"
  using assms
  by (auto simp: build_rule_def bind_result_Inr_iff Let_def backend_loop_services split: if_splits)

lemma build_rule_total:
  "filters_complete (rr_Filters rule) \<Longrightarrow> \<exists>r. build_rule E B hr cond rule = Inr r"
  using find_redirect_total [of "rr_Filters rule"] by (auto simp: build_rule_def Let_def)

section \<open>Routes\<close>

definition binds :: "regexp_engine \<Rightarrow> GatewayState \<Rightarrow> Listener \<Rightarrow> HTTPRoute \<Rightarrow> bool" where
  "binds E s l hr \<longleftrightarrow>
     (\<exists>pr \<in> set (hr_ParentRefs hr). refers s l pr \<and> accepts E s hr pr) \<and>
     IntersectHostnames (hr_Hostnames hr) (ValueOf '''' (lst_Hostname l)) \<noteq> []"

lemma build_route_eq:
  "build_route E now B s l \<lparr>hs_HTTPRoute = Some hr\<rparr> =
     (if \<not> binds E s l hr then Inr []
      else bind_result (map_result (build_rule E B hr (resolved_condition now hr)) (hr_Rules hr))
        (\<lambda>rules. Inr [\<lparr>ir_Hostnames =
            IntersectHostnames (hr_Hostnames hr) (ValueOf '''' (lst_Hostname l)),
          ir_Rules = rules\<rparr>]))"
proof -
  let ?P = "\<lambda>pr. refers s l pr \<and> accepts E s hr pr"
  have f: "find ?P (hr_ParentRefs hr) = None \<longleftrightarrow> \<not> (\<exists>pr \<in> set (hr_ParentRefs hr). ?P pr)"
    by (auto simp: find_None_set)
  show ?thesis
    using IntersectHostnames_no_route_hostnames
    by (auto simp: build_route_def find_parent_find f binds_def Let_def
        ComputeResolvedRefsCondition_Some)
qed

definition all_complete :: "HTTPRouteState list \<Rightarrow> bool" where
  "all_complete routes \<longleftrightarrow>
     (\<forall>s \<in> set routes. \<exists>hr. hs_HTTPRoute s = Some hr \<and> route_complete hr)"

lemma build_route_total:
  assumes "route_complete hr"
  shows "\<exists>irs. build_route E now B s l \<lparr>hs_HTTPRoute = Some hr\<rparr> = Inr irs"
proof -
  have "\<exists>rules. map_result (build_rule E B hr (resolved_condition now hr)) (hr_Rules hr) = Inr rules"
    using assms build_rule_total by (intro map_result_total) (auto simp: route_complete_def)
  then show ?thesis by (auto simp: build_route_eq)
qed

lemma HTTPRouteState_eta: "hs_HTTPRoute s = Some hr \<Longrightarrow> s = \<lparr>hs_HTTPRoute = Some hr\<rparr>"
  by simp

lemma build_listener_total:
  assumes "all_complete routes"
  shows "\<exists>irs. build_listener E now B s routes l = Inr irs"
proof -
  have "\<exists>irs. build_route E now B s l rs = Inr irs" if r: "rs \<in> set routes" for rs
  proof -
    obtain hr where "hs_HTTPRoute rs = Some hr" "route_complete hr"
      using assms r unfolding all_complete_def by blast
    then show ?thesis using build_route_total HTTPRouteState_eta by metis
  qed
  then show ?thesis by (auto simp: build_listener_def intro!: concat_result_total)
qed

lemma BuildInternalRoutes_total:
  "all_complete routes \<Longrightarrow> \<exists>irs. BuildInternalRoutes E now s routes B cn = Inr irs"
  unfolding BuildInternalRoutes_def
  by (rule concat_result_total) (rule build_listener_total)

text \<open>Where an element of the table comes from.\<close>

definition built_from ::
    "regexp_engine \<Rightarrow> Time \<Rightarrow> build_inputs \<Rightarrow> GatewayState \<Rightarrow> Listener \<Rightarrow> HTTPRoute \<Rightarrow>
     InternalRoute \<Rightarrow> bool" where
  "built_from E now B s l hr ir \<longleftrightarrow>
     l \<in> set (gw_Listeners (gs_Gateway s)) \<and> http_listener l \<and> binds E s l hr \<and>
     ir_Hostnames ir = IntersectHostnames (hr_Hostnames hr) (ValueOf '''' (lst_Hostname l)) \<and>
     map_result (build_rule E B hr (resolved_condition now hr)) (hr_Rules hr) = Inr (ir_Rules ir)"

lemma build_listener_eq:
  "build_listener E now B s routes l =
     (if http_listener l then concat_result (build_route E now B s l) routes else Inr [])"
  by (auto simp: build_listener_def http_listener_def)

lemma build_route_in:
  "build_route E now B s l rs = Inr irs \<Longrightarrow> ir \<in> set irs \<Longrightarrow>
     \<exists>hr. hs_HTTPRoute rs = Some hr \<and> binds E s l hr \<and>
       ir_Hostnames ir = IntersectHostnames (hr_Hostnames hr) (ValueOf '''' (lst_Hostname l)) \<and>
       map_result (build_rule E B hr (resolved_condition now hr)) (hr_Rules hr) = Inr (ir_Rules ir)"
proof -
  assume b: "build_route E now B s l rs = Inr irs" and i: "ir \<in> set irs"
  then obtain hr where hr: "hs_HTTPRoute rs = Some hr"
    by (auto simp: build_route_def bind_result_Inr_iff deref_Inr_iff)
  with b have "build_route E now B s l \<lparr>hs_HTTPRoute = Some hr\<rparr> = Inr irs"
    using HTTPRouteState_eta by metis
  with i hr show ?thesis by (auto simp: build_route_eq bind_result_Inr_iff split: if_splits)
qed

lemma BuildInternalRoutes_in:
  assumes "BuildInternalRoutes E now s routes B cn = Inr irs" "ir \<in> set irs"
  shows "\<exists>l rs hr. rs \<in> set routes \<and> hs_HTTPRoute rs = Some hr \<and> built_from E now B s l hr ir"
proof -
  obtain l zs where l: "l \<in> set (gw_Listeners (gs_Gateway s))" "ir \<in> set zs"
      "build_listener E now B s routes l = Inr zs"
    using concat_result_Inr_origin [OF assms(1) [unfolded BuildInternalRoutes_def] assms(2)]
    by blast
  then have h: "http_listener l" and c: "concat_result (build_route E now B s l) routes = Inr zs"
    by (auto simp: build_listener_eq split: if_splits)
  obtain rs ys where "rs \<in> set routes" "build_route E now B s l rs = Inr ys" "ir \<in> set ys"
    using concat_result_Inr_origin [OF c l(2)] by blast
  with build_route_in l(1) h show ?thesis unfolding built_from_def by blast
qed

lemma BuildInternalRoutes_complete:
  assumes "BuildInternalRoutes E now s routes B cn = Inr irs"
    and "rs \<in> set routes" "hs_HTTPRoute rs = Some hr"
    and "l \<in> set (gw_Listeners (gs_Gateway s))" "http_listener l" "binds E s l hr"
  shows "\<exists>ir \<in> set irs. built_from E now B s l hr ir"
proof -
  obtain zs where z: "build_listener E now B s routes l = Inr zs" "set zs \<subseteq> set irs"
    using concat_result_Inr_member [OF assms(1) [unfolded BuildInternalRoutes_def] assms(4)]
    by blast
  then have c: "concat_result (build_route E now B s l) routes = Inr zs"
    using assms(5) by (simp add: build_listener_eq)
  obtain ys where y: "build_route E now B s l rs = Inr ys" "set ys \<subseteq> set zs"
    using concat_result_Inr_member [OF c assms(2)] by blast
  then have "build_route E now B s l \<lparr>hs_HTTPRoute = Some hr\<rparr> = Inr ys"
    using assms(3) HTTPRouteState_eta by metis
  with assms(6) obtain rules where
      rules: "map_result (build_rule E B hr (resolved_condition now hr)) (hr_Rules hr) = Inr rules"
      "ys = [\<lparr>ir_Hostnames = IntersectHostnames (hr_Hostnames hr) (ValueOf '''' (lst_Hostname l)),
              ir_Rules = rules\<rparr>]"
    by (auto simp: build_route_eq bind_result_Inr_iff)
  then have "built_from E now B s l hr (hd ys)"
    using assms(4,5,6) by (simp add: built_from_def)
  with z(2) y(2) rules(2) show ?thesis by auto
qed

section \<open>The table meets the precedence's assumption\<close>

text \<open>Path types of a route that is not a regular expression (absent means \<open>PathPrefix\<close>).\<close>

definition simple_path_types :: "HTTPRoute \<Rightarrow> bool" where
  "simple_path_types hr \<longleftrightarrow>
     (\<forall>rule \<in> set (hr_Rules hr). \<forall>m \<in> set (rr_Matches rule). \<forall>p. rm_Path m = Some p \<longrightarrow>
        ValueOf '''' (pm_Type p) \<in> {'''', PathMatchExact, PathMatchPathPrefix})"

lemma build_match_type:
  "getPathMatchType (build_match E m) =
     (case rm_Path m of
        None \<Rightarrow> ''''
      | Some p \<Rightarrow> if ValueOf '''' (pm_Type p) = '''' then PathMatchPathPrefix
                  else ValueOf '''' (pm_Type p))"
  by (simp add: getPathMatchType_def build_match_def split: option.split)

lemma build_match_ranked:
  "(\<And>p. rm_Path m = Some p \<Longrightarrow>
      ValueOf '''' (pm_Type p) \<in> {'''', PathMatchExact, PathMatchPathPrefix}) \<Longrightarrow>
   ranked (build_match E m)"
  unfolding ranked_def build_match_type by (cases "rm_Path m") auto

lemma built_from_rules:
  assumes "built_from E now B s l hr ir"
  shows "length (ir_Rules ir) = length (hr_Rules hr)"
    and "i < length (hr_Rules hr) \<Longrightarrow>
      build_rule E B hr (resolved_condition now hr) (hr_Rules hr ! i) = Inr (ir_Rules ir ! i)"
  using assms map_result_Inr_length map_result_Inr_nth unfolding built_from_def by blast+

lemma built_from_rule:
  assumes "built_from E now B s l hr ir" "r \<in> set (ir_Rules ir)"
  shows "\<exists>rule \<in> set (hr_Rules hr). build_rule E B hr (resolved_condition now hr) rule = Inr r"
  using assms map_result_Inr_set unfolding built_from_def by metis

lemma built_from_ranked:
  assumes "built_from E now B s l hr ir" "simple_path_types hr" "r \<in> set (ir_Rules ir)"
    and "m \<in> set (irule_Matches r)"
  shows "ranked m"
proof -
  obtain rule where rule: "rule \<in> set (hr_Rules hr)"
      "build_rule E B hr (resolved_condition now hr) rule = Inr r"
    using built_from_rule [OF assms(1,3)] by blast
  then obtain m0 where m0: "m0 \<in> set (rr_Matches rule)" "m = build_match E m0"
    using build_rule_Matches assms(4) by fastforce
  have "ranked (build_match E m0)"
    by (rule build_match_ranked)
      (use assms(2) rule(1) m0(1) in \<open>unfold simple_path_types_def, blast\<close>)
  with m0(2) show ?thesis by simp
qed

lemma BuildInternalRoutes_ranked:
  assumes "BuildInternalRoutes E now s routes B cn = Inr irs"
    and "\<forall>rs \<in> set routes. \<forall>hr. hs_HTTPRoute rs = Some hr \<longrightarrow> simple_path_types hr"
  shows "ranked_routes irs"
  unfolding ranked_routes_def
proof (intro ballI)
  fix ir r m
  assume ir: "ir \<in> set irs" and rm: "r \<in> set (ir_Rules ir)" "m \<in> set (irule_Matches r)"
  obtain l rs hr where "rs \<in> set routes" "hs_HTTPRoute rs = Some hr" "built_from E now B s l hr ir"
    using BuildInternalRoutes_in [OF assms(1) ir] by blast
  with assms(2) rm built_from_ranked show "ranked m" by blast
qed

lemma BuildInternalRoutes_nonempty_hostnames:
  assumes "BuildInternalRoutes E now s routes B cn = Inr irs" "ir \<in> set irs"
  shows "ir_Hostnames ir \<noteq> []"
  using BuildInternalRoutes_in [OF assms] by (auto simp: built_from_def binds_def)

text \<open>No hostname of a route is the empty string, as the CRD schema demands.\<close>

definition hostnames_nonempty :: "HTTPRouteState list \<Rightarrow> bool" where
  "hostnames_nonempty routes \<longleftrightarrow>
     (\<forall>rs \<in> set routes. \<forall>hr. hs_HTTPRoute rs = Some hr \<longrightarrow> '''' \<notin> set (hr_Hostnames hr))"

lemma built_from_hostname:
  assumes "built_from E now B s l hr ir" "'''' \<notin> set (hr_Hostnames hr)"
  shows "MatchHostname ir host \<longleftrightarrow>
    hostnames_cover (hr_Hostnames hr) (strip_port host) \<and> listener_serves l (strip_port host)"
proof -
  have h: "ir_Hostnames ir = IntersectHostnames (hr_Hostnames hr) (ValueOf '''' (lst_Hostname l))"
    and l: "http_listener l" and ne: "ir_Hostnames ir \<noteq> []"
    using assms(1) by (auto simp: built_from_def binds_def)
  have "'''' \<notin> set (ir_Hostnames ir)"
    unfolding h by (rule IntersectHostnames_no_empty [OF assms(2)])
  then have "MatchHostname ir host \<longleftrightarrow>
      (\<exists>x \<in> set (ir_Hostnames ir). hostname_covers x (strip_port host))"
    using ne by (simp add: MatchHostname_covers hostnames_cover_def)
  then show ?thesis
    by (simp add: h IntersectHostnames_covers listener_serves_def l)
qed

section \<open>The table ignores the reported status\<close>

definition without_status :: "HTTPRouteState \<Rightarrow> HTTPRouteState" where
  "without_status rs =
     \<lparr>hs_HTTPRoute = map_option (\<lambda>hr. hr\<lparr>hr_Status_Parents := []\<rparr>) (hs_HTTPRoute rs)\<rparr>"

lemma build_route_without_status:
  "build_route E now B s l (without_status rs) = build_route E now B s l rs"
proof (cases "hs_HTTPRoute rs")
  case None
  then show ?thesis by (simp add: build_route_def without_status_def)
next
  case (Some hr)
  let ?hr = "hr\<lparr>hr_Status_Parents := []\<rparr>"
  have "binds E s l ?hr = binds E s l hr" by (simp add: binds_def accepts_def)
  moreover have "build_rule E B ?hr = build_rule E B hr"
    by (intro ext) (simp add: build_rule_def Let_def cong: if_cong)
  moreover have "resolved_condition now ?hr = resolved_condition now hr"
    by (simp add: resolved_condition_def split: option.split)
  ultimately have "build_route E now B s l \<lparr>hs_HTTPRoute = Some ?hr\<rparr> =
      build_route E now B s l \<lparr>hs_HTTPRoute = Some hr\<rparr>"
    unfolding build_route_eq by simp
  then show ?thesis
    using Some HTTPRouteState_eta [OF Some] by (simp add: without_status_def)
qed

lemma concat_result_map: "concat_result f (map g xs) = concat_result (\<lambda>x. f (g x)) xs"
  by (induction xs) simp_all

lemma BuildInternalRoutes_without_status:
  "BuildInternalRoutes E now s (map without_status routes) B cn =
     BuildInternalRoutes E now s routes B cn"
proof -
  have "build_listener E now B s (map without_status routes) = build_listener E now B s routes"
    by (rule ext) (simp add: build_listener_eq concat_result_map build_route_without_status)
  then show ?thesis by (simp add: BuildInternalRoutes_def)
qed

section \<open>Policies: the last one wins\<close>

definition targeting ::
    "string \<Rightarrow> string \<Rightarrow> BackendTLSPolicy list \<Rightarrow> BackendTLSPolicy list" where
  "targeting ns name ps =
     filter (\<lambda>p. \<exists>t \<in> set (btp_TargetRefs p). policy_targets p ns name t) ps"

definition policy_choice :: "(NamespacedName \<rightharpoonup> ConfigMap) \<Rightarrow> BackendTLSPolicy \<Rightarrow> tls_choice" where
  "policy_choice cms p =
     (Some ''https'',
      Some \<lparr>tls_Hostname = btp_Hostname p,
            tls_CACerts = ca_certs_loop cms (om_Namespace p) (btp_CACertificateRefs p) []\<rparr>)"

lemma target_loop_eq:
  "target_loop cms ns name p ts choice =
     (if \<exists>t \<in> set ts. policy_targets p ns name t then policy_choice cms p else choice)"
  by (induction ts) (auto simp: policy_choice_def)

lemma policy_loop_eq:
  "policy_loop cms ns name ps choice =
     (if targeting ns name ps = [] then choice
      else policy_choice cms (last (targeting ns name ps)))"
  by (induction ps arbitrary: choice) (auto simp: targeting_def target_loop_eq)

section \<open>Entries of the table and their routes\<close>

text \<open>The entry's rules are built from the route's, one by one and in order.\<close>

lemma built_from_pairs:
  assumes "built_from E now B s l hr ir"
  shows "list_all2 (\<lambda>rule r. build_rule E B hr (resolved_condition now hr) rule = Inr r)
    (hr_Rules hr) (ir_Rules ir)"
  using built_from_rules [OF assms] by (simp add: list_all2_conv_all_nth)

lemma resolved_condition_invalid:
  "\<not> (\<forall>rule \<in> set (hr_Rules hr). \<forall>b \<in> set (rr_BackendRefs rule). service_kind b) \<longleftrightarrow>
     cond_Status (resolved_condition now hr) = ConditionFalse"
  unfolding resolved_condition_False invalid_kind_rules_None [symmetric] by auto

lemma built_from_invalid:
  assumes "built_from E now B s l hr ir" "r \<in> set (ir_Rules ir)"
    and "\<not> (\<forall>rule \<in> set (hr_Rules hr). \<forall>b \<in> set (rr_BackendRefs rule). service_kind b)"
  shows "irule_Backend r = None \<and>
    (\<exists>e. irule_Error r = Some e \<and> es_HTTPStatusCode e = 500 \<and> cond_Status (es_Condition e) = ConditionFalse)"
proof -
  have "cond_Status (resolved_condition now hr) = ConditionFalse"
    using assms(3) resolved_condition_invalid by blast
  with built_from_rule [OF assms(1,2)] build_rule_invalid show ?thesis by fastforce
qed

lemma built_from_valid:
  assumes "built_from E now B s l hr ir"
    and "\<forall>rule \<in> set (hr_Rules hr). \<forall>b \<in> set (rr_BackendRefs rule). service_kind b"
  shows "list_all2 (\<lambda>rule r. irule_Error r = None \<and>
      irule_Backend r =
        (if irule_Redirect r = None then chosen_backend B (om_Namespace hr) (rr_BackendRefs rule)
         else None)) (hr_Rules hr) (ir_Rules ir)"
proof (rule list.rel_mono_strong [OF built_from_pairs [OF assms(1)]])
  fix rule r
  assume "rule \<in> set (hr_Rules hr)" "r \<in> set (ir_Rules ir)"
    "build_rule E B hr (resolved_condition now hr) rule = Inr r"
  moreover have "cond_Status (resolved_condition now hr) \<noteq> ConditionFalse"
    using assms(2) resolved_condition_invalid by blast
  ultimately show "irule_Error r = None \<and> irule_Backend r =
      (if irule_Redirect r = None then chosen_backend B (om_Namespace hr) (rr_BackendRefs rule)
       else None)"
    using build_rule_valid assms(2) by blast
qed

lemma table_hosts:
  assumes "BuildInternalRoutes E now s routes B cn = Inr irs" "hostnames_nonempty routes"
  shows "(\<exists>ir \<in> set irs. MatchHostname ir host) \<longleftrightarrow>
    (\<exists>l \<in> set (gw_Listeners (gs_Gateway s)). \<exists>rs \<in> set routes. \<exists>hr.
       hs_HTTPRoute rs = Some hr \<and> attached E s l hr \<and> listener_serves l (strip_port host) \<and>
       hostnames_cover (hr_Hostnames hr) (strip_port host))"
    (is "?table \<longleftrightarrow> ?spec")
proof
  assume ?table
  then obtain ir where ir: "ir \<in> set irs" "MatchHostname ir host" by blast
  obtain l rs hr where o: "rs \<in> set routes" "hs_HTTPRoute rs = Some hr" "built_from E now B s l hr ir"
    using BuildInternalRoutes_in [OF assms(1) ir(1)] by blast
  have "'''' \<notin> set (hr_Hostnames hr)" using assms(2) o(1,2) unfolding hostnames_nonempty_def by blast
  from built_from_hostname [OF o(3) this] ir(2) o accepts_attached show ?spec
    unfolding built_from_def binds_def by blast
next
  assume ?spec
  then obtain l rs hr where o: "l \<in> set (gw_Listeners (gs_Gateway s))" "rs \<in> set routes"
      "hs_HTTPRoute rs = Some hr" "attached E s l hr" "listener_serves l (strip_port host)"
      "hostnames_cover (hr_Hostnames hr) (strip_port host)" by blast
  then have ne: "IntersectHostnames (hr_Hostnames hr) (ValueOf '''' (lst_Hostname l)) \<noteq> []"
      and h: "http_listener l"
    unfolding IntersectHostnames_nonempty_iff listener_serves_def by blast+
  have "binds E s l hr" using bound_iff [OF o(1) h ne, of E] o(4) ne unfolding binds_def by blast
  then obtain ir where ir: "ir \<in> set irs" "built_from E now B s l hr ir"
    using BuildInternalRoutes_complete [OF assms(1) o(2,3,1) h] by blast
  have "'''' \<notin> set (hr_Hostnames hr)" using assms(2) o(2,3) unfolding hostnames_nonempty_def by blast
  from built_from_hostname [OF ir(2) this] o ir(1) show ?table by blast
qed

section \<open>The certificates of a policy\<close>

definition ca_bytes :: "(NamespacedName \<rightharpoonup> ConfigMap) \<Rightarrow> string \<Rightarrow> TargetRef \<Rightarrow> string option" where
  "ca_bytes cms ns caRef =
     (if tr_Group caRef = '''' \<and> tr_Kind caRef = ''ConfigMap'' then
        (case cms (NamespacedName ns (tr_Name caRef)) of
           None \<Rightarrow> None
         | Some cm \<Rightarrow>
             (case cm_Data cm ''ca.crt'' of
                Some data \<Rightarrow> Some data
              | None \<Rightarrow> cm_BinaryData cm ''ca.crt''))
      else None)"

lemma ca_certs_loop_eq:
  "ca_certs_loop cms ns refs acc = acc @ List.map_filter (ca_bytes cms ns) refs"
proof (induction refs arbitrary: acc)
  case Nil
  then show ?case by (simp add: map_filter_simps)
next
  case (Cons r refs)
  have "ca_certs_loop cms ns (r # refs) acc =
      ca_certs_loop cms ns refs (case ca_bytes cms ns r of None \<Rightarrow> acc | Some d \<Rightarrow> acc @ [d])"
    by (simp add: ca_bytes_def split: option.split)
  then show ?case
    by (simp add: Cons.IH map_filter_simps del: ca_certs_loop.simps split: option.split)
qed

text \<open>The namespace in which a backend reference is looked up.\<close>

definition service_namespace :: "string \<Rightarrow> HTTPBackendRef \<Rightarrow> string" where
  "service_namespace routeNamespace ref =
     (case br_Namespace ref of None \<Rightarrow> routeNamespace | Some n \<Rightarrow> n)"

definition last_policy :: "build_inputs \<Rightarrow> string \<Rightarrow> HTTPBackendRef \<Rightarrow> BackendTLSPolicy option" where
  "last_policy B routeNamespace ref =
     (let ps = targeting (service_namespace routeNamespace ref) (br_Name ref) (bi_policies B)
      in if ps = [] then None else Some (last ps))"

lemma build_backend_policy:
  "ib_TLSConfig (build_backend B ns ref port) =
     map_option (\<lambda>p. \<lparr>tls_Hostname = btp_Hostname p,
       tls_CACerts = List.map_filter (ca_bytes (bi_configMaps B) (om_Namespace p))
         (btp_CACertificateRefs p)\<rparr>) (last_policy B ns ref)"
  "last_policy B ns ref = Some p \<Longrightarrow> ib_AppProtocol (build_backend B ns ref port) = Some ''https''"
  by (simp_all add: build_backend_def last_policy_def service_namespace_def Let_def
      policy_loop_eq policy_choice_def ca_certs_loop_eq split: if_splits)

end
