(* ===== verification/Store.thy ===== *)
theory Store
  imports RouteStatus
begin

text \<open>
  \<^verbatim>\<open>pkg/state/state.go\<close>: the last-observed Kubernetes objects, in five maps under one
  mutex. Every method takes the mutex for its whole body, so each is one atomic step on the
  record of the maps. What the five kinds of objects have in common is the interface
  \<open>object_store\<close>; the state's methods are five interpretations of it.
\<close>

section \<open>The code\<close>

record State =
  st_gateways :: "NamespacedName \<rightharpoonup> GatewayState"
  st_httpRoutes :: "NamespacedName \<rightharpoonup> HTTPRouteState"
  st_backendTLSPolicies :: "NamespacedName \<rightharpoonup> BackendTLSPolicy"
  st_services :: "NamespacedName \<rightharpoonup> Service"
  st_configMaps :: "NamespacedName \<rightharpoonup> ConfigMap"

definition NewState :: State where
  "NewState = \<lparr>st_gateways = Map.empty, st_httpRoutes = Map.empty,
     st_backendTLSPolicies = Map.empty, st_services = Map.empty, st_configMaps = Map.empty\<rparr>"

definition UpsertConfigMap :: "ConfigMap \<Rightarrow> State \<Rightarrow> State" where
  "UpsertConfigMap cm s = s\<lparr>st_configMaps :=
     (st_configMaps s)(NamespacedName (om_Namespace cm) (om_Name cm) \<mapsto> cm)\<rparr>"

definition DeleteConfigMap :: "NamespacedName \<Rightarrow> State \<Rightarrow> State" where
  "DeleteConfigMap name s = s\<lparr>st_configMaps := (st_configMaps s)(name := None)\<rparr>"

definition GetConfigMaps :: "NamespacedName list \<Rightarrow> State \<Rightarrow> (NamespacedName \<rightharpoonup> ConfigMap)" where
  "GetConfigMaps ks s = copy_map (st_configMaps s) ks Map.empty"

definition UpsertService :: "Service \<Rightarrow> State \<Rightarrow> State" where
  "UpsertService svc s = s\<lparr>st_services :=
     (st_services s)(NamespacedName (om_Namespace svc) (om_Name svc) \<mapsto> svc)\<rparr>"

definition DeleteService :: "NamespacedName \<Rightarrow> State \<Rightarrow> State" where
  "DeleteService name s = s\<lparr>st_services := (st_services s)(name := None)\<rparr>"

definition GetService :: "NamespacedName \<Rightarrow> State \<Rightarrow> Service option" where
  "GetService name s = st_services s name"

definition UpsertGateway :: "Gateway \<Rightarrow> State \<Rightarrow> State" where
  "UpsertGateway gw s = s\<lparr>st_gateways :=
     (st_gateways s)(NamespacedName (om_Namespace gw) (om_Name gw) \<mapsto> \<lparr>gs_Gateway = gw\<rparr>)\<rparr>"

definition DeleteGateway :: "NamespacedName \<Rightarrow> State \<Rightarrow> State" where
  "DeleteGateway name s = s\<lparr>st_gateways := (st_gateways s)(name := None)\<rparr>"

definition store_HTTPRoute :: "HTTPRoute \<Rightarrow> State \<Rightarrow> State" where
  "store_HTTPRoute route s = s\<lparr>st_httpRoutes :=
     (st_httpRoutes s)(NamespacedName (om_Namespace route) (om_Name route) \<mapsto>
        \<lparr>hs_HTTPRoute = Some route\<rparr>)\<rparr>"

definition UpsertHTTPRoute ::
    "regexp_engine \<Rightarrow> Time \<Rightarrow> HTTPRoute \<Rightarrow> State \<Rightarrow> Condition \<times> State" where
  "UpsertHTTPRoute E now route s =
     (let rs = \<lparr>hs_HTTPRoute = Some route\<rparr> in
      case (case Validate E rs of
              None \<Rightarrow> (ConditionTrue, RouteReasonAccepted,
                       ''Route accepted by reference implementation'')
            | Some err \<Rightarrow> (ConditionFalse, RouteReasonUnsupportedValue,
                          ''Invalid route: '' @ err)) of
        (status, reason, message) \<Rightarrow>
          (\<lparr>cond_Type = RouteConditionAccepted, cond_Status = status,
            cond_ObservedGeneration = om_Generation route, cond_LastTransitionTime = now,
            cond_Reason = reason, cond_Message = message\<rparr>,
           store_HTTPRoute route s))"

definition DeleteHTTPRoute :: "NamespacedName \<Rightarrow> State \<Rightarrow> State" where
  "DeleteHTTPRoute name s = s\<lparr>st_httpRoutes := (st_httpRoutes s)(name := None)\<rparr>"

definition UpsertBackendTLSPolicy :: "BackendTLSPolicy \<Rightarrow> State \<Rightarrow> State" where
  "UpsertBackendTLSPolicy policy s = s\<lparr>st_backendTLSPolicies :=
     (st_backendTLSPolicies s)(NamespacedName (om_Namespace policy) (om_Name policy) \<mapsto> policy)\<rparr>"

definition DeleteBackendTLSPolicy :: "NamespacedName \<Rightarrow> State \<Rightarrow> State" where
  "DeleteBackendTLSPolicy name s =
     s\<lparr>st_backendTLSPolicies := (st_backendTLSPolicies s)(name := None)\<rparr>"

definition GetGateways :: "NamespacedName list \<Rightarrow> State \<Rightarrow> GatewayState list" where
  "GetGateways ks s = range_values (st_gateways s) ks"

definition GetHTTPRoutes :: "NamespacedName list \<Rightarrow> State \<Rightarrow> HTTPRouteState list" where
  "GetHTTPRoutes ks s = range_values (st_httpRoutes s) ks"

definition GetBackendTLSPolicies :: "NamespacedName list \<Rightarrow> State \<Rightarrow> BackendTLSPolicy list" where
  "GetBackendTLSPolicies ks s = range_values (st_backendTLSPolicies s) ks"

definition GetServices :: "NamespacedName list \<Rightarrow> State \<Rightarrow> (NamespacedName \<rightharpoonup> Service)" where
  "GetServices ks s = copy_map (st_services s) ks Map.empty"

section \<open>The interface of a store of objects\<close>

datatype ('o, 'k) store_op = Put 'o | Remove 'k

fun apply_op :: "('o \<Rightarrow> 's \<Rightarrow> 's) \<Rightarrow> ('k \<Rightarrow> 's \<Rightarrow> 's) \<Rightarrow> ('o, 'k) store_op \<Rightarrow> 's \<Rightarrow> 's" where
  "apply_op upsert delete (Put obj) s = upsert obj s"
| "apply_op upsert delete (Remove k) s = delete k s"

fun run_ops ::
    "('o \<Rightarrow> 's \<Rightarrow> 's) \<Rightarrow> ('k \<Rightarrow> 's \<Rightarrow> 's) \<Rightarrow> ('o, 'k) store_op list \<Rightarrow> 's \<Rightarrow> 's" where
  "run_ops upsert delete [] s = s"
| "run_ops upsert delete (c # cs) s =
     run_ops upsert delete cs (apply_op upsert delete c s)"

fun op_key :: "('o \<Rightarrow> 'k) \<Rightarrow> ('o, 'k) store_op \<Rightarrow> 'k" where
  "op_key key (Put obj) = key obj"
| "op_key key (Remove k) = k"

fun op_value :: "('o \<Rightarrow> 'v) \<Rightarrow> ('o, 'k) store_op \<Rightarrow> 'v option" where
  "op_value wrap (Put obj) = Some (wrap obj)"
| "op_value wrap (Remove k) = None"

text \<open>The last operation on a key, if any.\<close>

definition last_op :: "('o \<Rightarrow> 'k) \<Rightarrow> 'k \<Rightarrow> ('o, 'k) store_op list \<Rightarrow> ('o, 'k) store_op option" where
  "last_op key k ops = find (\<lambda>c. op_key key c = k) (rev ops)"

locale object_store =
  fixes upsert :: "'o \<Rightarrow> 's \<Rightarrow> 's"
    and delete :: "'k \<Rightarrow> 's \<Rightarrow> 's"
    and lookup :: "'s \<Rightarrow> 'k \<Rightarrow> 'v option"
    and key :: "'o \<Rightarrow> 'k"
    and wrap :: "'o \<Rightarrow> 'v"
    and others :: "'s \<Rightarrow> 'r"
  assumes lookup_upsert: "lookup (upsert obj s) = (lookup s)(key obj \<mapsto> wrap obj)"
    and lookup_delete: "lookup (delete k s) = (lookup s)(k := None)"
    and others_upsert: "others (upsert obj s) = others s"
    and others_delete: "others (delete k s) = others s"
    and state_ext: "lookup s = lookup t \<Longrightarrow> others s = others t \<Longrightarrow> s = t"
begin

lemma lookup_apply_op:
  "lookup (apply_op upsert delete c s) = (lookup s)(op_key key c := op_value wrap c)"
  by (cases c) (simp_all add: lookup_upsert lookup_delete)

lemma others_run_ops: "others (run_ops upsert delete ops s) = others s"
proof (induction ops arbitrary: s)
  case (Cons c ops)
  then show ?case by (cases c) (simp_all add: others_upsert others_delete)
qed simp

text \<open>Last writer wins: a run of operations is read back as its last operation on the key.\<close>

lemma lookup_run_ops:
  "lookup (run_ops upsert delete ops s) k =
     (case last_op key k ops of None \<Rightarrow> lookup s k | Some c \<Rightarrow> op_value wrap c)"
proof (induction ops arbitrary: s)
  case Nil
  show ?case by (simp add: last_op_def)
next
  case (Cons c ops)
  have f: "find P (xs @ [y]) =
      (case find P xs of None \<Rightarrow> (if P y then Some y else None) | Some x \<Rightarrow> Some x)"
    for P :: "('o, 'k) store_op \<Rightarrow> bool" and xs y
    by (induction xs) auto
  show ?case
    using Cons.IH [of "apply_op upsert delete c s"]
    by (auto simp: last_op_def f lookup_apply_op split: option.split)
qed

lemma run_ops_cong:
  assumes "\<And>k. last_op key k ops = last_op key k ops'"
  shows "run_ops upsert delete ops s = run_ops upsert delete ops' s"
  by (rule state_ext) (auto simp: fun_eq_iff lookup_run_ops assms others_run_ops)

lemma upsert_idem: "upsert obj (upsert obj s) = upsert obj s"
  by (rule state_ext) (simp_all add: lookup_upsert others_upsert)

lemma delete_upsert: "delete (key obj) (upsert obj s) = delete (key obj) s"
  by (rule state_ext) (simp_all add: lookup_upsert lookup_delete others_upsert others_delete)

lemma delete_missing: "lookup s k = None \<Longrightarrow> delete k s = s"
  by (rule state_ext) (auto simp: lookup_delete others_delete fun_eq_iff)

lemma finite_run_ops:
  "finite (dom (lookup s)) \<Longrightarrow> finite (dom (lookup (run_ops upsert delete ops s)))"
proof (induction ops arbitrary: s)
  case (Cons c ops)
  then have "finite (dom (lookup (apply_op upsert delete c s)))"
    by (cases c) (simp_all add: lookup_upsert lookup_delete)
  with Cons.IH show ?case by simp
qed simp

end

interpretation gateways: object_store UpsertGateway DeleteGateway st_gateways object_key
  "\<lambda>gw. \<lparr>gs_Gateway = gw\<rparr>"
  "\<lambda>s. (st_httpRoutes s, st_backendTLSPolicies s, st_services s, st_configMaps s)"
  by unfold_locales
    (auto simp: UpsertGateway_def DeleteGateway_def object_key_def intro!: State.equality)

interpretation routes: object_store store_HTTPRoute DeleteHTTPRoute st_httpRoutes object_key
  "\<lambda>r. \<lparr>hs_HTTPRoute = Some r\<rparr>"
  "\<lambda>s. (st_gateways s, st_backendTLSPolicies s, st_services s, st_configMaps s)"
  by unfold_locales
    (auto simp: store_HTTPRoute_def DeleteHTTPRoute_def object_key_def intro!: State.equality)

interpretation policies: object_store UpsertBackendTLSPolicy DeleteBackendTLSPolicy
  st_backendTLSPolicies object_key "\<lambda>p. p"
  "\<lambda>s. (st_gateways s, st_httpRoutes s, st_services s, st_configMaps s)"
  by unfold_locales
    (auto simp: UpsertBackendTLSPolicy_def DeleteBackendTLSPolicy_def object_key_def
      intro!: State.equality)

interpretation services: object_store UpsertService DeleteService st_services object_key "\<lambda>svc. svc"
  "\<lambda>s. (st_gateways s, st_httpRoutes s, st_backendTLSPolicies s, st_configMaps s)"
  by unfold_locales
    (auto simp: UpsertService_def DeleteService_def object_key_def intro!: State.equality)

interpretation config_maps: object_store UpsertConfigMap DeleteConfigMap st_configMaps object_key
  "\<lambda>cm. cm"
  "\<lambda>s. (st_gateways s, st_httpRoutes s, st_backendTLSPolicies s, st_services s)"
  by unfold_locales
    (auto simp: UpsertConfigMap_def DeleteConfigMap_def object_key_def intro!: State.equality)

section \<open>The invariant of the state\<close>

text \<open>
  Every object is filed under its own name, route pointers are not nil, and the maps are finite
  (so that a \<open>range\<close> over them ends).
\<close>

definition filed :: "('v \<Rightarrow> NamespacedName option) \<Rightarrow> (NamespacedName \<rightharpoonup> 'v) \<Rightarrow> bool" where
  "filed name_of m \<longleftrightarrow> finite (dom m) \<and> (\<forall>k v. m k = Some v \<longrightarrow> name_of v = Some k)"

definition state_ok :: "State \<Rightarrow> bool" where
  "state_ok s \<longleftrightarrow>
     filed (\<lambda>g. Some (object_key (gs_Gateway g))) (st_gateways s) \<and>
     filed (\<lambda>r. map_option object_key (hs_HTTPRoute r)) (st_httpRoutes s) \<and>
     filed (\<lambda>p. Some (object_key p)) (st_backendTLSPolicies s) \<and>
     filed (\<lambda>v. Some (object_key v)) (st_services s) \<and>
     filed (\<lambda>c. Some (object_key c)) (st_configMaps s)"

lemma filed_empty [simp]: "filed f Map.empty"
  by (simp add: filed_def)

lemma filed_update: "filed f m \<Longrightarrow> f v = Some k \<Longrightarrow> filed f (m(k \<mapsto> v))"
  by (auto simp: filed_def)

lemma filed_delete: "filed f m \<Longrightarrow> filed f (m(k := None))"
  by (auto simp: filed_def)

lemma state_ok_NewState: "state_ok NewState"
  by (simp add: state_ok_def NewState_def)

lemma state_ok_upserts:
  "state_ok s \<Longrightarrow> state_ok (UpsertGateway gw s)"
  "state_ok s \<Longrightarrow> state_ok (store_HTTPRoute route s)"
  "state_ok s \<Longrightarrow> state_ok (UpsertBackendTLSPolicy policy s)"
  "state_ok s \<Longrightarrow> state_ok (UpsertService svc s)"
  "state_ok s \<Longrightarrow> state_ok (UpsertConfigMap cm s)"
  by (simp_all add: state_ok_def UpsertGateway_def store_HTTPRoute_def UpsertBackendTLSPolicy_def
      UpsertService_def UpsertConfigMap_def filed_update object_key_def)

lemma state_ok_deletes:
  "state_ok s \<Longrightarrow> state_ok (DeleteGateway k s)"
  "state_ok s \<Longrightarrow> state_ok (DeleteHTTPRoute k s)"
  "state_ok s \<Longrightarrow> state_ok (DeleteBackendTLSPolicy k s)"
  "state_ok s \<Longrightarrow> state_ok (DeleteService k s)"
  "state_ok s \<Longrightarrow> state_ok (DeleteConfigMap k s)"
  by (simp_all add: state_ok_def DeleteGateway_def DeleteHTTPRoute_def DeleteBackendTLSPolicy_def
      DeleteService_def DeleteConfigMap_def filed_delete)

lemmas state_ok_intros = state_ok_NewState state_ok_upserts state_ok_deletes

lemma snd_UpsertHTTPRoute [simp]: "snd (UpsertHTTPRoute E now route s) = store_HTTPRoute route s"
  by (simp add: UpsertHTTPRoute_def Let_def split: prod.split)

section \<open>The getters\<close>

lemma GetServices_copy: "range_order (st_services s) ks \<Longrightarrow> GetServices ks s = st_services s"
  by (simp add: GetServices_def copy_map_all)

lemma GetConfigMaps_copy: "range_order (st_configMaps s) ks \<Longrightarrow> GetConfigMaps ks s = st_configMaps s"
  by (simp add: GetConfigMaps_def copy_map_all)

lemma GetHTTPRoutes_set: "range_order (st_httpRoutes s) ks \<Longrightarrow> set (GetHTTPRoutes ks s) = ran (st_httpRoutes s)"
  by (simp add: GetHTTPRoutes_def range_values_ran)

lemma GetGateways_set: "range_order (st_gateways s) ks \<Longrightarrow> set (GetGateways ks s) = ran (st_gateways s)"
  by (simp add: GetGateways_def range_values_ran)

lemma GetHTTPRoutes_not_nil:
  assumes "state_ok s" "rs \<in> set (GetHTTPRoutes ks s)"
  shows "\<exists>hr. hs_HTTPRoute rs = Some hr"
proof -
  obtain k where "st_httpRoutes s k = Some rs"
    using assms(2) by (auto simp: GetHTTPRoutes_def set_range_values)
  with assms(1) show ?thesis unfolding state_ok_def filed_def by blast
qed

end
