(* ===== verification/Proxy.thy ===== *)
theory Proxy
  imports Matching
begin

text \<open>
  \<^verbatim>\<open>pkg/proxy/proxy.go\<close>: the proxy holds the routing table and answers a request from
  the best rule: a redirect, an error, a forwarded request or 404, in this order. What the
  proxy does with a request is a value: the error it writes, the URL and status it redirects
  to, or the URL it forwards to and the transport (TLS settings included) it uses. The
  rendering of a URL, the writing of the response body and the reverse proxy itself are the
  standard library's.
\<close>

section \<open>The code\<close>

record Proxy =
  px_routes :: "InternalRoute list"

definition NewProxy :: Proxy where
  "NewProxy = \<lparr>px_routes = []\<rparr>"

definition UpdateRoutes :: "InternalRoute list \<Rightarrow> Proxy \<Rightarrow> Proxy" where
  "UpdateRoutes routes p = p\<lparr>px_routes := routes\<rparr>"

record URL =
  url_Scheme :: string
  url_Host :: string
  url_Path :: string
  url_RawQuery :: string

record TLSClientConfig =
  tcc_InsecureSkipVerify :: bool
  tcc_ServerName :: string
  tcc_RootCAs :: "string list option"

datatype Transport = DefaultTransport | TLSTransport TLSClientConfig | H2CTransport

datatype Response =
    HTTPError string int
  | Redirected URL int
  | Forwarded URL Transport

definition redirect_scheme :: "Request \<Rightarrow> InternalRedirect \<Rightarrow> string" where
  "redirect_scheme r redirect =
     (let inherited = (if req_TLS r then ''https'' else ''http'');
          scheme = ValueOf '''' (ird_Scheme redirect)
      in if scheme \<noteq> '''' then scheme else inherited)"

definition redirect_host :: "Request \<Rightarrow> InternalRedirect \<Rightarrow> string" where
  "redirect_host r redirect =
     (let hostname = ValueOf '''' (ird_Hostname redirect);
          host1 =
            (if hostname \<noteq> '''' then
               (case SplitHostPort (req_Host r) of
                  Inl _ \<Rightarrow> hostname
                | Inr (h, port) \<Rightarrow> JoinHostPort hostname port)
             else req_Host r);
          port = ValueOf 0 (ird_Port redirect)
      in
      if port \<noteq> 0 then
        (let h = (case SplitHostPort host1 of Inl _ \<Rightarrow> host1 | Inr (h, _) \<Rightarrow> h)
         in JoinHostPort h (decimal (sint port)))
      else host1)"

definition redirect_path ::
    "Request \<Rightarrow> InternalRedirect \<Rightarrow> InternalMatch option \<Rightarrow> string" where
  "redirect_path r redirect matched =
     (case ird_Path redirect of
        None \<Rightarrow> req_Path r
      | Some p \<Rightarrow>
          if ipr_Type p = FullPathHTTPPathModifier then ipr_Value p
          else if ipr_Type p = PrefixMatchHTTPPathModifier then
            (case matched of
               None \<Rightarrow> req_Path r
             | Some m \<Rightarrow>
                 (case im_Path m of
                    None \<Rightarrow> req_Path r
                  | Some pm \<Rightarrow>
                      if ipm_Type pm = PathMatchPathPrefix \<and> HasPrefix (req_Path r) (ipm_Value pm)
                      then ipr_Value p @ drop (length (ipm_Value pm)) (req_Path r)
                      else req_Path r))
          else req_Path r)"

definition redirect :: "Request \<Rightarrow> InternalRedirect \<Rightarrow> InternalMatch option \<Rightarrow> Response" where
  "redirect r rd matched =
     (let statusCode0 = ValueOf 0 (ird_StatusCode rd);
          statusCode = (if statusCode0 = 0 then 302 else statusCode0)
      in Redirected
           \<lparr>url_Scheme = redirect_scheme r rd, url_Host = redirect_host r rd,
            url_Path = redirect_path r rd matched, url_RawQuery = req_RawQuery r\<rparr>
           statusCode)"

definition client_tls_config :: "InternalTLSConfig option \<Rightarrow> TLSClientConfig" where
  "client_tls_config tc =
     (case tc of
        None \<Rightarrow> \<lparr>tcc_InsecureSkipVerify = True, tcc_ServerName = '''', tcc_RootCAs = None\<rparr>
      | Some t \<Rightarrow>
          if length (tls_CACerts t) > 0 then
            \<lparr>tcc_InsecureSkipVerify = False, tcc_ServerName = tls_Hostname t,
             tcc_RootCAs = Some (tls_CACerts t)\<rparr>
          else
            \<lparr>tcc_InsecureSkipVerify = True, tcc_ServerName = tls_Hostname t,
             tcc_RootCAs = None\<rparr>)"

definition forward :: "Request \<Rightarrow> InternalBackend \<Rightarrow> Response" where
  "forward r backend =
     (let scheme = (if ValueOf '''' (ib_AppProtocol backend) = ''https'' then ''https'' else ''http'');
          target = \<lparr>url_Scheme = scheme,
                    url_Host = ib_Host backend @ '':'' @ decimal (sint (ib_Port backend)),
                    url_Path = '''', url_RawQuery = ''''\<rparr>
      in
      if scheme = ''https'' then
        Forwarded target (TLSTransport (client_tls_config (ib_TLSConfig backend)))
      else if ValueOf '''' (ib_AppProtocol backend) = ''kubernetes.io/h2c'' then
        Forwarded target H2CTransport
      else Forwarded target DefaultTransport)"

definition not_found :: "Request \<Rightarrow> Response" where
  "not_found r =
     HTTPError (''No route for host '' @ req_Host r @ '' and path '' @ req_Path r) 404"

definition ServeHTTP :: "regexp_engine \<Rightarrow> Proxy \<Rightarrow> Request \<Rightarrow> Response" where
  "ServeHTTP E p r =
     (case MatchRoute E (px_routes p) r of
        (bestRule, bestMatch) \<Rightarrow>
          (case bestRule of
             None \<Rightarrow> not_found r
           | Some rule \<Rightarrow>
               (case irule_Redirect rule of
                  Some rd \<Rightarrow> redirect r rd bestMatch
                | None \<Rightarrow>
                    (case irule_Error rule of
                       Some e \<Rightarrow> HTTPError (es_HTTPMessage e) (es_HTTPStatusCode e)
                     | None \<Rightarrow>
                         (case irule_Backend rule of
                            Some b \<Rightarrow> forward r b
                          | None \<Rightarrow> not_found r)))))"

section \<open>Dispatch\<close>

text \<open>How a rule alone answers a request.\<close>

definition answer :: "InternalRule \<Rightarrow> InternalMatch \<Rightarrow> Request \<Rightarrow> Response" where
  "answer rule m r =
     (case irule_Redirect rule of
        Some rd \<Rightarrow> redirect r rd (Some m)
      | None \<Rightarrow>
          (case irule_Error rule of
             Some e \<Rightarrow> HTTPError (es_HTTPMessage e) (es_HTTPStatusCode e)
           | None \<Rightarrow>
               (case irule_Backend rule of
                  Some b \<Rightarrow> forward r b
                | None \<Rightarrow> not_found r)))"

lemma ServeHTTP_answer:
  "ServeHTTP E p r =
    (case MatchRoute E (px_routes p) r of (Some rule, Some m) \<Rightarrow> answer rule m r | _ \<Rightarrow> not_found r)"
  using MatchRoute_shape [of E "px_routes p" r]
  by (auto simp: ServeHTTP_def answer_def split: option.split)

lemma ServeHTTP_scan:
  assumes "ranked_routes (px_routes p)"
  shows "ServeHTTP E p r =
    (case scan_best better_candidate (candidates E (px_routes p) r) None of
       None \<Rightarrow> not_found r
     | Some (rule, m) \<Rightarrow> answer rule m r)"
  by (simp add: ServeHTTP_def MatchRoute_scan [OF assms] to_best_def answer_def split: option.split)

lemma forward_cases:
  "(\<exists>u c. forward r b = Forwarded u (TLSTransport c) \<and> ValueOf '''' (ib_AppProtocol b) = ''https'') \<or>
   (\<exists>u t. forward r b = Forwarded u t \<and> ValueOf '''' (ib_AppProtocol b) \<noteq> ''https'')"
  by (auto simp: forward_def Let_def)

lemma forward_TLS:
  "forward r b = Forwarded u (TLSTransport c) \<longleftrightarrow>
     ValueOf '''' (ib_AppProtocol b) = ''https'' \<and> c = client_tls_config (ib_TLSConfig b) \<and>
     u = \<lparr>url_Scheme = ''https'', url_Host = ib_Host b @ '':'' @ decimal (sint (ib_Port b)),
          url_Path = '''', url_RawQuery = ''''\<rparr>"
  by (auto simp: forward_def Let_def)

lemma client_tls_verifies:
  "\<not> tcc_InsecureSkipVerify (client_tls_config tc) \<longleftrightarrow>
     (\<exists>t. tc = Some t \<and> tls_CACerts t \<noteq> [] \<and>
        tcc_RootCAs (client_tls_config tc) = Some (tls_CACerts t) \<and>
        tcc_ServerName (client_tls_config tc) = tls_Hostname t)"
  by (auto simp: client_tls_config_def split: option.splits)

section \<open>Redirect targets\<close>

lemma redirect_path_prefix:
  assumes "ird_Path rd = Some pr" "ipr_Type pr = PrefixMatchHTTPPathModifier"
    and "im_Path m = Some pm" "ipm_Type pm = PathMatchPathPrefix"
    and "req_Path r = ipm_Value pm @ rest"
  shows "redirect_path r rd (Some m) = ipr_Value pr @ rest"
proof -
  have "PrefixMatchHTTPPathModifier \<noteq> FullPathHTTPPathModifier"
    by (simp add: PrefixMatchHTTPPathModifier_def FullPathHTTPPathModifier_def)
  with assms show ?thesis by (simp add: redirect_path_def HasPrefix_iff)
qed

text \<open>
  On prefixes that do not end in a slash, replacing the string prefix replaces the path
  elements of the prefix and keeps the others.
\<close>

lemma replace_prefix_elements:
  assumes "prefix (path_elements p) (path_elements s)"
  shows "path_elements (v @ drop (length p) s) =
    path_elements v @ drop (length (path_elements p)) (path_elements s)"
proof -
  from assms have "s = p \<or> (\<exists>t. s = p @ CHR ''/'' # t)" by (simp add: path_elements_prefix_iff)
  then show ?thesis by (auto simp: path_elements_slash)
qed

lemma redirect_host_inherits:
  "ValueOf '''' (ird_Hostname rd) = '''' \<Longrightarrow> ValueOf 0 (ird_Port rd) = 0 \<Longrightarrow>
     redirect_host r rd = req_Host r"
  by (simp add: redirect_host_def)

lemma decimal_no_punct:
  "CHR '':'' \<notin> set (decimal i)" "CHR ''['' \<notin> set (decimal i)" "CHR '']'' \<notin> set (decimal i)"
  using decimal_nat_no_punct by (auto simp: decimal_def)

end
