(* ===== verification/Controllers.thy ===== *)
theory Controllers
  imports Build Store Proxy
begin

text \<open>
  What the reconcilers of \<^verbatim>\<open>pkg/controller\<close> share, and the two simplest of them. A
  reconciler reads objects from the API server (\<open>Cluster\<close>: the answer to each \<open>Get\<close> and to
  each status update), changes the \<open>State\<close>, and rebuilds the proxy's table
  (\<^verbatim>\<open>utils.go\<close>, \<open>updateProxy\<close>). A call is a function from the world to its
  outcome, a panic included, and the world it leaves.
\<close>

section \<open>The API server as the client sees it\<close>

datatype 'a get_result = Found 'a | NotFound string | GetFailed string

text \<open>\<open>NotFound\<close> is an error that \<open>apierrors.IsNotFound\<close> recognises; both errors carry their text.\<close>

text \<open>
  A status update answers with an error or with the stored object, which the client decodes
  into the caller's object.
\<close>

record Cluster =
  get_HTTPRoute :: "NamespacedName \<Rightarrow> HTTPRoute get_result"
  get_Gateway :: "NamespacedName \<Rightarrow> Gateway get_result"
  get_GatewayClass :: "NamespacedName \<Rightarrow> GatewayClass get_result"
  get_Service :: "NamespacedName \<Rightarrow> Service get_result"
  get_ConfigMap :: "NamespacedName \<Rightarrow> ConfigMap get_result"
  get_BackendTLSPolicy :: "NamespacedName \<Rightarrow> BackendTLSPolicy get_result"
  put_HTTPRoute_status :: "HTTPRoute \<Rightarrow> string + HTTPRoute"
  put_Gateway_status :: "Gateway \<Rightarrow> string + Gateway"
  put_GatewayClass_status :: "GatewayClass \<Rightarrow> string + GatewayClass"
  put_BackendTLSPolicy_status :: "BackendTLSPolicy \<Rightarrow> string + BackendTLSPolicy"

datatype api_write =
    WriteHTTPRoute HTTPRoute
  | WriteGateway Gateway
  | WriteGatewayClass GatewayClass
  | WriteBackendTLSPolicy BackendTLSPolicy

record World =
  w_State :: State
  w_Proxy :: Proxy
  w_Writes :: "api_write list"

text \<open>
  The surroundings of one call: the regular-expression engine, the clock, the order that the
  runtime picks at the \<open>i\<close>-th range over a map (of the keys it is given), the API server, and
  the type of the first PEM block of some bytes.
\<close>

record Env =
  env_regexp :: regexp_engine
  env_now :: Time
  env_range :: "nat \<Rightarrow> NamespacedName set \<Rightarrow> NamespacedName list"
  env_cluster :: Cluster
  env_pem_type :: "string \<Rightarrow> string option"

record Outcome =
  res_Requeue :: bool
  res_Err :: "string option"

definition ControllerName :: string where
  "ControllerName = ''github.com/gke-labs/gateway-api-reference-implementation''"

abbreviation done_ok :: Outcome where
  "done_ok \<equiv> \<lparr>res_Requeue = False, res_Err = None\<rparr>"

abbreviation failed :: "string \<Rightarrow> Outcome" where
  "failed err \<equiv> \<lparr>res_Requeue = False, res_Err = Some err\<rparr>"

type_synonym call_result = "Outcome panicking \<times> World"

section \<open>Rebuilding the proxy's table\<close>

definition snapshot_inputs :: "Env \<Rightarrow> nat \<Rightarrow> State \<Rightarrow> build_inputs" where
  "snapshot_inputs V i st =
     \<lparr>bi_services = GetServices (env_range V (i + 2) (dom (st_services st))) st,
      bi_policies = GetBackendTLSPolicies (env_range V (i + 3) (dom (st_backendTLSPolicies st))) st,
      bi_configMaps = GetConfigMaps (env_range V (i + 4) (dom (st_configMaps st))) st\<rparr>"

definition proxy_table :: "Env \<Rightarrow> nat \<Rightarrow> State \<Rightarrow> InternalRoute list panicking" where
  "proxy_table V i st =
     (let gateways = GetGateways (env_range V i (dom (st_gateways st))) st;
          routes = GetHTTPRoutes (env_range V (i + 1) (dom (st_httpRoutes st))) st
      in concat_result
           (\<lambda>gw. BuildInternalRoutes (env_regexp V) (env_now V) gw routes
                    (snapshot_inputs V i st) ControllerName)
           gateways)"

definition updateProxy :: "Env \<Rightarrow> nat \<Rightarrow> World \<Rightarrow> unit panicking \<times> World" where
  "updateProxy V i w =
     (case proxy_table V i (w_State w) of
        Inl panic \<Rightarrow> (Inl panic, w)
      | Inr proxyRoutes \<Rightarrow> (Inr (), w\<lparr>w_Proxy := UpdateRoutes proxyRoutes (w_Proxy w)\<rparr>))"

definition update_then :: "Env \<Rightarrow> nat \<Rightarrow> Outcome \<Rightarrow> World \<Rightarrow> call_result" where
  "update_then V i outcome w =
     (case updateProxy V i w of
        (Inl panic, w') \<Rightarrow> (Inl panic, w')
      | (Inr _, w') \<Rightarrow> (Inr outcome, w'))"

section \<open>Services and config maps\<close>

definition ReconcileService :: "Env \<Rightarrow> NamespacedName \<Rightarrow> World \<Rightarrow> call_result" where
  "ReconcileService V req w =
     (case get_Service (env_cluster V) req of
        NotFound _ \<Rightarrow> update_then V 0 done_ok (w\<lparr>w_State := DeleteService req (w_State w)\<rparr>)
      | GetFailed err \<Rightarrow> (Inr (failed err), w)
      | Found svc \<Rightarrow> update_then V 0 done_ok (w\<lparr>w_State := UpsertService svc (w_State w)\<rparr>))"

definition ReconcileConfigMap :: "Env \<Rightarrow> NamespacedName \<Rightarrow> World \<Rightarrow> call_result" where
  "ReconcileConfigMap V req w =
     (case get_ConfigMap (env_cluster V) req of
        NotFound _ \<Rightarrow> update_then V 0 done_ok (w\<lparr>w_State := DeleteConfigMap req (w_State w)\<rparr>)
      | GetFailed err \<Rightarrow> (Inr (failed err), w)
      | Found cm \<Rightarrow> update_then V 0 done_ok (w\<lparr>w_State := UpsertConfigMap cm (w_State w)\<rparr>))"

section \<open>Facts shared by all reconcilers\<close>

text \<open>The runtime's orders enumerate the keys they are given.\<close>

definition range_choice_ok :: "Env \<Rightarrow> bool" where
  "range_choice_ok V \<longleftrightarrow> (\<forall>i S. finite S \<longrightarrow> distinct (env_range V i S) \<and> set (env_range V i S) = S)"

lemma range_choice_order:
  "range_choice_ok V \<Longrightarrow> finite (dom m) \<Longrightarrow> range_order m (env_range V i (dom m))"
  by (simp add: range_choice_ok_def range_order_def)

lemma state_ok_finite:
  "state_ok s \<Longrightarrow> finite (dom (st_gateways s))"
  "state_ok s \<Longrightarrow> finite (dom (st_httpRoutes s))"
  "state_ok s \<Longrightarrow> finite (dom (st_backendTLSPolicies s))"
  "state_ok s \<Longrightarrow> finite (dom (st_services s))"
  "state_ok s \<Longrightarrow> finite (dom (st_configMaps s))"
  by (auto simp: state_ok_def filed_def)

lemma snapshot_inputs_exact:
  assumes "range_choice_ok V" "state_ok st"
  shows "bi_services (snapshot_inputs V i st) = st_services st"
    and "bi_configMaps (snapshot_inputs V i st) = st_configMaps st"
    and "set (bi_policies (snapshot_inputs V i st)) = ran (st_backendTLSPolicies st)"
  by (simp_all add: snapshot_inputs_def GetServices_copy GetConfigMaps_copy
      GetBackendTLSPolicies_def range_values_ran
      range_choice_order [OF assms(1)] state_ok_finite [OF assms(2)])

text \<open>The routes of the state that a table is built from pass the CRD schema.\<close>

definition routes_complete :: "State \<Rightarrow> bool" where
  "routes_complete s \<longleftrightarrow>
     (\<forall>k rs hr. st_httpRoutes s k = Some rs \<longrightarrow> hs_HTTPRoute rs = Some hr \<longrightarrow> route_complete hr)"

lemma GetHTTPRoutes_in: "rs \<in> set (GetHTTPRoutes ks s) \<Longrightarrow> \<exists>k. st_httpRoutes s k = Some rs"
  by (auto simp: GetHTTPRoutes_def set_range_values)

lemma GetHTTPRoutes_all_complete:
  assumes "state_ok s" "routes_complete s"
  shows "all_complete (GetHTTPRoutes ks s)"
  unfolding all_complete_def
proof
  fix rs assume rs: "rs \<in> set (GetHTTPRoutes ks s)"
  obtain hr where "hs_HTTPRoute rs = Some hr" using GetHTTPRoutes_not_nil [OF assms(1) rs] by blast
  with GetHTTPRoutes_in [OF rs] assms(2) show "\<exists>hr. hs_HTTPRoute rs = Some hr \<and> route_complete hr"
    unfolding routes_complete_def by blast
qed

lemma proxy_table_total:
  assumes "state_ok st" "routes_complete st"
  shows "\<exists>rs. proxy_table V i st = Inr rs"
  unfolding proxy_table_def Let_def
  by (rule concat_result_total, rule BuildInternalRoutes_total,
      rule GetHTTPRoutes_all_complete [OF assms])

lemma updateProxy_State [simp]: "w_State (snd (updateProxy V i w)) = w_State w"
  by (simp add: updateProxy_def split: sum.split)

lemma updateProxy_Writes [simp]: "w_Writes (snd (updateProxy V i w)) = w_Writes w"
  by (simp add: updateProxy_def split: sum.split)

lemma update_then_State [simp]: "w_State (snd (update_then V i out w)) = w_State w"
  using updateProxy_State [of V i w]
  by (auto simp: update_then_def simp del: updateProxy_State split: prod.split sum.split)

lemma update_then_Writes [simp]: "w_Writes (snd (update_then V i out w)) = w_Writes w"
  using updateProxy_Writes [of V i w]
  by (auto simp: update_then_def simp del: updateProxy_Writes split: prod.split sum.split)

lemma update_then_Inr:
  "update_then V i out w = (Inr out', w') \<longleftrightarrow>
     (\<exists>rs. proxy_table V i (w_State w) = Inr rs \<and> out' = out \<and>
        w' = w\<lparr>w_Proxy := UpdateRoutes rs (w_Proxy w)\<rparr>)"
  by (auto simp: update_then_def updateProxy_def split: sum.splits)

lemma update_then_total:
  assumes "state_ok (w_State w)" "routes_complete (w_State w)"
  shows "fst (update_then V i out w) = Inr out"
proof -
  obtain rs where "proxy_table V i (w_State w) = Inr rs"
    using proxy_table_total [OF assms] by blast
  then show ?thesis by (simp add: update_then_def updateProxy_def)
qed

text \<open>The proxy serves a table built from this very state.\<close>

definition proxy_current :: "Env \<Rightarrow> nat \<Rightarrow> World \<Rightarrow> bool" where
  "proxy_current V i w \<longleftrightarrow> proxy_table V i (w_State w) = Inr (px_routes (w_Proxy w))"

lemma update_then_current:
  "update_then V i out w = (Inr out', w') \<Longrightarrow> proxy_current V i w' \<and> w_State w' = w_State w"
  by (auto simp: update_then_Inr proxy_current_def UpdateRoutes_def)

end
