(* ===== verification/StatusWriter.thy ===== *)
theory StatusWriter
  imports API
begin

text \<open>
  The four reconcilers that report a status share one contract: compute the desired status,
  compare it with the reported one, write only on a difference. The comparison ignores
  transition times, so that a status once written is recognised at the next call, whatever the
  clock says then. The interface \<open>status_writer\<close> states what the operations promise and what
  follows for the write decision; each reconciler interprets it on its own functions.
\<close>

section \<open>Comparing conditions\<close>

text \<open>
  The inner loop over the reported conditions: the first one of the same type decides, and it
  must agree in status, generation, reason and, except on listeners, message.
\<close>

definition same_condition :: "Condition \<Rightarrow> Condition \<Rightarrow> bool" where
  "same_condition old new \<longleftrightarrow>
     cond_Status old = cond_Status new \<and>
     cond_ObservedGeneration old = cond_ObservedGeneration new \<and>
     cond_Reason old = cond_Reason new \<and>
     cond_Message old = cond_Message new"

definition same_listener_condition :: "Condition \<Rightarrow> Condition \<Rightarrow> bool" where
  "same_listener_condition old new \<longleftrightarrow>
     cond_Status old = cond_Status new \<and>
     cond_ObservedGeneration old = cond_ObservedGeneration new \<and>
     cond_Reason old = cond_Reason new"

fun condition_matched ::
    "(Condition \<Rightarrow> Condition \<Rightarrow> bool) \<Rightarrow> Condition list \<Rightarrow> Condition \<Rightarrow> bool" where
  "condition_matched same [] new = False"
| "condition_matched same (old # olds) new =
     (if cond_Type old = cond_Type new then same old new
      else condition_matched same olds new)"

text \<open>The outer loop over the new conditions: \<open>True\<close> when one is not matched.\<close>

fun conditions_updated ::
    "(Condition \<Rightarrow> Condition \<Rightarrow> bool) \<Rightarrow> Condition list \<Rightarrow> Condition list \<Rightarrow> bool" where
  "conditions_updated same olds [] = False"
| "conditions_updated same olds (new # news) =
     (if \<not> condition_matched same olds new then True else conditions_updated same olds news)"

text \<open>
  The loops over the entries of a status that has one entry per listener, parent, address or
  ancestor: position by position, \<open>True\<close> at the first pair that differs.
\<close>

fun changed_loop :: "('a \<Rightarrow> 'a \<Rightarrow> bool) \<Rightarrow> 'a list \<Rightarrow> 'a list \<Rightarrow> bool" where
  "changed_loop changed (old # olds) (new # news) =
     (if changed old new then True else changed_loop changed olds news)"
| "changed_loop changed _ _ = False"

text \<open>Conditions that differ in their transition times only.\<close>

definition up_to_time :: "Condition \<Rightarrow> Condition \<Rightarrow> bool" where
  "up_to_time a b \<longleftrightarrow> a\<lparr>cond_LastTransitionTime := 0\<rparr> = b\<lparr>cond_LastTransitionTime := 0\<rparr>"

lemma up_to_time_fields:
  "up_to_time a b \<longleftrightarrow> cond_Type a = cond_Type b \<and> same_condition a b"
  by (cases a; cases b) (auto simp: up_to_time_def same_condition_def)

lemma same_condition_listener: "same_condition a b \<Longrightarrow> same_listener_condition a b"
  by (simp add: same_condition_def same_listener_condition_def)

lemma conditions_updated_iff:
  "conditions_updated same olds news \<longleftrightarrow> (\<exists>new \<in> set news. \<not> condition_matched same olds new)"
  by (induction news) auto

lemma condition_matched_intro:
  "old \<in> set olds \<Longrightarrow> distinct (map cond_Type olds) \<Longrightarrow> cond_Type old = cond_Type new \<Longrightarrow>
     condition_matched same olds new = same old new"
proof (induction olds)
  case Nil
  then show ?case by simp
next
  case (Cons c olds)
  show ?case
  proof (cases "c = old")
    case True
    with Cons.prems show ?thesis by simp
  next
    case False
    with Cons.prems have "old \<in> set olds" by simp
    then have "cond_Type old \<in> set (map cond_Type olds)" by simp
    with Cons.prems(2,3) have "cond_Type c \<noteq> cond_Type new" by auto
    with Cons False show ?thesis by simp
  qed
qed

lemma condition_matched_find:
  "condition_matched same olds new \<longleftrightarrow>
     (\<exists>old. find (\<lambda>c. cond_Type c = cond_Type new) olds = Some old \<and> same old new)"
  by (induction olds) auto

text \<open>Conditions of distinct types are recognised after a change of clock.\<close>

lemma conditions_not_updated:
  assumes "list_all2 up_to_time olds news" "distinct (map cond_Type olds)"
    and "\<And>a b. same_condition a b \<Longrightarrow> same a b"
  shows "\<not> conditions_updated same olds news"
  unfolding conditions_updated_iff
proof clarify
  fix new assume "new \<in> set news" "\<not> condition_matched same olds new"
  moreover obtain old where "old \<in> set olds" "up_to_time old new"
    using assms(1) \<open>new \<in> set news\<close> by (metis in_set_conv_nth list_all2_conv_all_nth)
  ultimately show False
    using condition_matched_intro [of old olds new same] assms(2,3) up_to_time_fields by blast
qed

lemma changed_loop_map:
  "(\<And>x. x \<in> set xs \<Longrightarrow> \<not> changed (f x) (g x)) \<Longrightarrow> \<not> changed_loop changed (map f xs) (map g xs)"
  by (induction xs) auto

lemma changed_loop_refl: "(\<And>x. \<not> changed x x) \<Longrightarrow> \<not> changed_loop changed xs xs"
  by (induction xs) auto

lemma changed_loop_iff:
  "length olds = length news \<Longrightarrow>
     changed_loop changed olds news \<longleftrightarrow> (\<exists>i < length olds. changed (olds ! i) (news ! i))"
proof (induction changed olds news rule: changed_loop.induct)
  case (1 changed old olds new news)
  then show ?case by (auto simp: less_Suc_eq_0_disj)
qed auto

section \<open>The interface\<close>

definition write_status ::
    "('o \<Rightarrow> 'st) \<Rightarrow> ('st \<Rightarrow> 'o \<Rightarrow> 'o) \<Rightarrow> ('t \<Rightarrow> 'o \<Rightarrow> 'st) \<Rightarrow> ('st \<Rightarrow> 'st \<Rightarrow> bool) \<Rightarrow> 't \<Rightarrow> 'o \<Rightarrow> 'o" where
  "write_status status set_status desired updated t obj =
     (if updated (status obj) (desired t obj) then set_status (desired t obj) obj else obj)"

locale status_writer =
  fixes status :: "'o \<Rightarrow> 'st"
    and set_status :: "'st \<Rightarrow> 'o \<Rightarrow> 'o"
    and desired :: "'t \<Rightarrow> 'o \<Rightarrow> 'st"
    and updated :: "'st \<Rightarrow> 'st \<Rightarrow> bool"
  assumes status_set: "status (set_status st obj) = st"
    and desired_set: "desired t (set_status st obj) = desired t obj"
    and updated_desired: "\<not> updated (desired t obj) (desired t' obj)"
begin

lemma settled:
  "\<not> updated (status (set_status (desired t obj) obj))
      (desired t' (set_status (desired t obj) obj))"
  by (simp add: status_set desired_set updated_desired)

text \<open>At most one write: after one round the decision is not to write, at any later time.\<close>

lemma write_status_settles:
  assumes "updated (status obj) (desired t obj)"
  shows "write_status status set_status desired updated t'
      (write_status status set_status desired updated t obj) =
    write_status status set_status desired updated t obj"
  using assms settled by (simp add: write_status_def)

end

end
