(* ===== verification/RouteController.thy ===== *)
theory RouteController
  imports Controllers StatusWriter
begin

text \<open>
  \<^verbatim>\<open>pkg/controller/httproute_controller.go\<close>. The reconciler stores the pointer that
  it goes on to mutate: once \<open>UpsertHTTPRoute\<close> has put it into the state, the assignment to
  \<open>route.Status.Parents\<close> and the decoding of the server's answer are seen by every reader of
  the state. \<open>alias_HTTPRoute\<close> is that effect: the object under the key changes with the
  pointer's target.
\<close>

section \<open>The code\<close>

definition alias_HTTPRoute :: "NamespacedName \<Rightarrow> HTTPRoute \<Rightarrow> State \<Rightarrow> State" where
  "alias_HTTPRoute name route s =
     s\<lparr>st_httpRoutes := (st_httpRoutes s)(name \<mapsto> \<lparr>hs_HTTPRoute = Some route\<rparr>)\<rparr>"

definition parent_status ::
    "regexp_engine \<Rightarrow> Time \<Rightarrow> Condition \<Rightarrow> GatewayState list \<Rightarrow> HTTPRoute \<Rightarrow> ParentReference \<Rightarrow>
     RouteParentStatus panicking" where
  "parent_status E now validationCondition gateways route parentRef =
     (let rs = \<lparr>hs_HTTPRoute = Some route\<rparr> in
      bind_result
        (if cond_Status validationCondition = ConditionTrue
         then ComputeAcceptedCondition E now rs parentRef gateways
         else Inr validationCondition)
        (\<lambda>acceptedCondition.
      bind_result (ComputeResolvedRefsCondition now rs) (\<lambda>resolvedRefs.
        Inr \<lparr>rps_ParentRef = parentRef, rps_ControllerName = ControllerName,
             rps_Conditions = [acceptedCondition, resolvedRefs]\<rparr>)))"

definition new_parents ::
    "regexp_engine \<Rightarrow> Time \<Rightarrow> Condition \<Rightarrow> GatewayState list \<Rightarrow> HTTPRoute \<Rightarrow>
     RouteParentStatus list panicking" where
  "new_parents E now validationCondition gateways route =
     map_result (parent_status E now validationCondition gateways route) (hr_ParentRefs route)"

definition parent_changed :: "RouteParentStatus \<Rightarrow> RouteParentStatus \<Rightarrow> bool" where
  "parent_changed old new =
     (if rps_ParentRef old \<noteq> rps_ParentRef new \<or>
         rps_ControllerName old \<noteq> rps_ControllerName new \<or>
         length (rps_Conditions old) \<noteq> length (rps_Conditions new)
      then True
      else conditions_updated same_condition (rps_Conditions old) (rps_Conditions new))"

definition parents_updated :: "RouteParentStatus list \<Rightarrow> RouteParentStatus list \<Rightarrow> bool" where
  "parents_updated olds news =
     (if length olds \<noteq> length news then True else changed_loop parent_changed olds news)"

definition finish_HTTPRoute :: "Env \<Rightarrow> HTTPRoute \<Rightarrow> World \<Rightarrow> call_result" where
  "finish_HTTPRoute V route w =
     update_then V 1 done_ok
       (w\<lparr>w_State := snd (UpsertHTTPRoute (env_regexp V) (env_now V) route (w_State w))\<rparr>)"

definition ReconcileHTTPRoute :: "Env \<Rightarrow> NamespacedName \<Rightarrow> World \<Rightarrow> call_result" where
  "ReconcileHTTPRoute V req w =
     (case get_HTTPRoute (env_cluster V) req of
        NotFound _ \<Rightarrow> update_then V 1 done_ok (w\<lparr>w_State := DeleteHTTPRoute req (w_State w)\<rparr>)
      | GetFailed err \<Rightarrow> (Inr (failed err), w)
      | Found route \<Rightarrow>
          (case UpsertHTTPRoute (env_regexp V) (env_now V) route (w_State w) of
             (validationCondition, st1) \<Rightarrow>
               (let w1 = w\<lparr>w_State := st1\<rparr>;
                    gateways = GetGateways (env_range V 0 (dom (st_gateways st1))) st1
                in
                case new_parents (env_regexp V) (env_now V) validationCondition gateways route of
                  Inl panic \<Rightarrow> (Inl panic, w1)
                | Inr newParents \<Rightarrow>
                    if parents_updated (hr_Status_Parents route) newParents then
                      (let route1 = route\<lparr>hr_Status_Parents := newParents\<rparr>;
                           w2 = w1\<lparr>w_State := alias_HTTPRoute (object_key route) route1 st1,
                                   w_Writes := w_Writes w1 @ [WriteHTTPRoute route1]\<rparr>
                       in
                       case put_HTTPRoute_status (env_cluster V) route1 of
                         Inl err \<Rightarrow> (Inr (failed err), w2)
                       | Inr route2 \<Rightarrow>
                           finish_HTTPRoute V route2
                             (w2\<lparr>w_State :=
                                   alias_HTTPRoute (object_key route) route2 (w_State w2)\<rparr>))
                    else finish_HTTPRoute V route w1)))"

section \<open>The status that is reported\<close>

definition validation_condition :: "regexp_engine \<Rightarrow> Time \<Rightarrow> HTTPRoute \<Rightarrow> Condition" where
  "validation_condition E now route = fst (UpsertHTTPRoute E now route NewState)"

lemma fst_UpsertHTTPRoute: "fst (UpsertHTTPRoute E now route s) = validation_condition E now route"
  by (simp add: validation_condition_def UpsertHTTPRoute_def Let_def split: prod.split)

lemma UpsertHTTPRoute_pair:
  "UpsertHTTPRoute E now route s = (validation_condition E now route, store_HTTPRoute route s)"
  by (simp add: prod_eq_iff fst_UpsertHTTPRoute)

definition accepted_condition ::
    "regexp_engine \<Rightarrow> Time \<Rightarrow> GatewayState list \<Rightarrow> HTTPRoute \<Rightarrow> ParentReference \<Rightarrow> Condition" where
  "accepted_condition E now gateways route pr =
     (case accepted_outcome E route pr gateways of
        (st, rs, msg) \<Rightarrow>
          \<lparr>cond_Type = RouteConditionAccepted, cond_Status = st,
           cond_ObservedGeneration = om_Generation route, cond_LastTransitionTime = now,
           cond_Reason = rs, cond_Message = msg\<rparr>)"

lemma ComputeAcceptedCondition_accepted:
  "ComputeAcceptedCondition E now \<lparr>hs_HTTPRoute = Some route\<rparr> pr gws =
     Inr (accepted_condition E now gws route pr)"
  by (simp add: ComputeAcceptedCondition_Some accepted_condition_def split: prod.split)

lemma validation_condition_eq:
  "validation_condition E now route =
     (case validate_rules E (hr_Rules route) of
        None \<Rightarrow>
          \<lparr>cond_Type = RouteConditionAccepted, cond_Status = ConditionTrue,
           cond_ObservedGeneration = om_Generation route, cond_LastTransitionTime = now,
           cond_Reason = RouteReasonAccepted,
           cond_Message = ''Route accepted by reference implementation''\<rparr>
      | Some err \<Rightarrow>
          \<lparr>cond_Type = RouteConditionAccepted, cond_Status = ConditionFalse,
           cond_ObservedGeneration = om_Generation route, cond_LastTransitionTime = now,
           cond_Reason = RouteReasonUnsupportedValue, cond_Message = ''Invalid route: '' @ err\<rparr>)"
  by (simp add: validation_condition_def UpsertHTTPRoute_def Let_def split: option.split)

text \<open>An invalid route is reported the same way by both computations.\<close>

lemma validation_is_accepted_condition:
  "cond_Status (validation_condition E now route) \<noteq> ConditionTrue \<Longrightarrow>
     validation_condition E now route = accepted_condition E now gws route pr"
  by (auto simp: validation_condition_eq accepted_condition_def accepted_outcome_def
      split: option.splits)

definition desired_parent ::
    "regexp_engine \<Rightarrow> GatewayState list \<Rightarrow> Time \<Rightarrow> HTTPRoute \<Rightarrow> ParentReference \<Rightarrow> RouteParentStatus" where
  "desired_parent E gateways now route pr =
     \<lparr>rps_ParentRef = pr, rps_ControllerName = ControllerName,
      rps_Conditions = [accepted_condition E now gateways route pr, resolved_condition now route]\<rparr>"

definition desired_parents ::
    "regexp_engine \<Rightarrow> GatewayState list \<Rightarrow> Time \<Rightarrow> HTTPRoute \<Rightarrow> RouteParentStatus list" where
  "desired_parents E gateways now route =
     map (desired_parent E gateways now route) (hr_ParentRefs route)"

lemma parent_status_desired:
  "parent_status E now (validation_condition E now route) gws route pr =
     Inr (desired_parent E gws now route pr)"
  using validation_is_accepted_condition [of E now route gws pr]
  by (simp add: parent_status_def Let_def ComputeAcceptedCondition_accepted
      ComputeResolvedRefsCondition_Some desired_parent_def)

lemma new_parents_desired:
  "new_parents E now (validation_condition E now route) gws route =
     Inr (desired_parents E gws now route)"
  by (simp add: new_parents_def desired_parents_def parent_status_desired map_result_cong_pure)

lemma accepted_condition_type [simp]:
  "cond_Type (accepted_condition E now gws route pr) = RouteConditionAccepted"
  by (simp add: accepted_condition_def split: prod.split)

lemma resolved_condition_type [simp]:
  "cond_Type (resolved_condition now route) = RouteConditionResolvedRefs"
  by (simp add: resolved_condition_def split: option.split)

lemma accepted_condition_time:
  "up_to_time (accepted_condition E t gws route pr) (accepted_condition E t' gws route pr)"
  by (simp add: up_to_time_def accepted_condition_def split: prod.split)

lemma resolved_condition_time:
  "up_to_time (resolved_condition t route) (resolved_condition t' route)"
  by (simp add: up_to_time_def resolved_condition_def split: option.split)

lemma desired_parent_unchanged:
  "\<not> parent_changed (desired_parent E gws t route pr) (desired_parent E gws t' route pr)"
proof -
  have "\<not> conditions_updated same_condition
      [accepted_condition E t gws route pr, resolved_condition t route]
      [accepted_condition E t' gws route pr, resolved_condition t' route]"
    by (rule conditions_not_updated)
      (simp_all add: accepted_condition_time resolved_condition_time)
  then show ?thesis
    by (simp add: parent_changed_def desired_parent_def del: conditions_updated.simps)
qed

lemma desired_parents_not_updated:
  "\<not> parents_updated (desired_parents E gws t route) (desired_parents E gws t' route)"
  by (simp add: parents_updated_def desired_parents_def changed_loop_map desired_parent_unchanged)

text \<open>The desired status looks at the specification only.\<close>

lemma desired_parents_set_status [simp]:
  "desired_parents E gws t (route\<lparr>hr_Status_Parents := ps\<rparr>) = desired_parents E gws t route"
  by (simp add: desired_parents_def desired_parent_def accepted_condition_def
      resolved_condition_def split: option.split)

interpretation route_status: status_writer hr_Status_Parents
  "\<lambda>ps route. route\<lparr>hr_Status_Parents := ps\<rparr>" "desired_parents E gws" parents_updated
  for E gws
  by unfold_locales (simp_all add: desired_parents_not_updated)

section \<open>The whole call\<close>

definition listed_gateways :: "Env \<Rightarrow> World \<Rightarrow> GatewayState list" where
  "listed_gateways V w =
     GetGateways (env_range V 0 (dom (st_gateways (w_State w)))) (w_State w)"

lemma st_gateways_store [simp]: "st_gateways (store_HTTPRoute route s) = st_gateways s"
  by (simp add: store_HTTPRoute_def)

lemma st_gateways_alias [simp]: "st_gateways (alias_HTTPRoute k route s) = st_gateways s"
  by (simp add: alias_HTTPRoute_def)

lemma GetGateways_store [simp]: "GetGateways ks (store_HTTPRoute route s) = GetGateways ks s"
  by (simp add: GetGateways_def)

lemma alias_store:
  "object_key route' = k \<Longrightarrow> alias_HTTPRoute k route' s = store_HTTPRoute route' s"
  by (simp add: alias_HTTPRoute_def store_HTTPRoute_def object_key_def)

lemma store_store:
  "object_key a = object_key b \<Longrightarrow> store_HTTPRoute b (store_HTTPRoute a s) = store_HTTPRoute b s"
  by (simp add: store_HTTPRoute_def object_key_def)

lemma object_key_set_parents [simp]:
  "object_key (route\<lparr>hr_Status_Parents := ps\<rparr>) = object_key route" for route :: HTTPRoute
  by (simp add: object_key_def)

lemma finish_HTTPRoute_eq:
  "finish_HTTPRoute V route w =
     update_then V 1 done_ok (w\<lparr>w_State := store_HTTPRoute route (w_State w)\<rparr>)"
  by (simp add: finish_HTTPRoute_def)

text \<open>A call on a route that exists, with the reads and writes of the state resolved.\<close>

lemma ReconcileHTTPRoute_Found:
  fixes V :: Env and req :: NamespacedName and w :: World and route :: HTTPRoute
  assumes "get_HTTPRoute (env_cluster V) req = Found route"
    and "\<And>r r'. put_HTTPRoute_status (env_cluster V) r = Inr r' \<Longrightarrow> object_key r' = object_key r"
  defines "desired \<equiv> desired_parents (env_regexp V) (listed_gateways V w) (env_now V) route"
  defines "route1 \<equiv> route\<lparr>hr_Status_Parents := desired\<rparr>"
  defines "log \<equiv> w_Writes w @ [WriteHTTPRoute route1]"
  shows "ReconcileHTTPRoute V req w =
    (if \<not> parents_updated (hr_Status_Parents route) desired
     then update_then V 1 done_ok (w\<lparr>w_State := store_HTTPRoute route (w_State w)\<rparr>)
     else
       (case put_HTTPRoute_status (env_cluster V) route1 of
          Inl err \<Rightarrow>
            (Inr (failed err),
             w\<lparr>w_State := store_HTTPRoute route1 (w_State w), w_Writes := log\<rparr>)
        | Inr route2 \<Rightarrow>
            update_then V 1 done_ok
              (w\<lparr>w_Writes := log, w_State := store_HTTPRoute route2 (w_State w)\<rparr>)))"
proof -
  have k1: "object_key route1 = object_key route" by (simp add: route1_def)
  have k2: "object_key route2 = object_key route"
    if "put_HTTPRoute_status (env_cluster V) route1 = Inr route2" for route2
    using assms(2) [OF that] k1 by simp
  have new: "new_parents (env_regexp V) (env_now V)
      (validation_condition (env_regexp V) (env_now V) route)
      (GetGateways (env_range V 0 (dom (st_gateways (store_HTTPRoute route (w_State w)))))
        (store_HTTPRoute route (w_State w))) route = Inr desired"
    by (simp add: new_parents_desired desired_def listed_gateways_def)
  have a1: "alias_HTTPRoute (object_key route) route1 (store_HTTPRoute route (w_State w)) =
      store_HTTPRoute route1 (w_State w)"
    by (simp add: alias_store k1 store_store)
  have a2: "store_HTTPRoute route2
      (alias_HTTPRoute (object_key route) route2 (store_HTTPRoute route1 (w_State w))) =
      store_HTTPRoute route2 (w_State w)"
    if "put_HTTPRoute_status (env_cluster V) route1 = Inr route2" for route2
    using k2 [OF that] by (simp add: alias_store store_store k1)
  show ?thesis
    unfolding ReconcileHTTPRoute_def assms(1) UpsertHTTPRoute_pair get_result.case prod.case
      Let_def new sum.case finish_HTTPRoute_eq
    by (simp add: route1_def [symmetric] log_def a1 a2 store_store split: sum.split)
qed

lemma store_HTTPRoute_lookup:
  "st_httpRoutes (store_HTTPRoute route s) =
     (st_httpRoutes s)(object_key route \<mapsto> \<lparr>hs_HTTPRoute = Some route\<rparr>)"
  by (rule routes.lookup_upsert)

lemma state_ok_alias:
  "state_ok s \<Longrightarrow> object_key route = k \<Longrightarrow> state_ok (alias_HTTPRoute k route s)"
  by (simp add: alias_store state_ok_intros)

end
