(* ===== verification/GatewayController.thy ===== *)
theory GatewayController
  imports Controllers StatusWriter
begin

text \<open>
  \<^verbatim>\<open>pkg/controller/gateway_controller.go\<close>: the reconcilers of gateway classes and
  of gateways, and the map function that turns a changed route into requests for gateways. A
  gateway is reconciled only when its class is ours and the \<open>gari-proxy\<close> service has an
  address; it enters the state after its status has been written.
\<close>

section \<open>The code: gateway classes\<close>

definition class_conditions :: "GatewayClass \<Rightarrow> Condition list" where
  "class_conditions gc =
     [\<lparr>cond_Type = ''Accepted'', cond_Status = ConditionTrue,
       cond_ObservedGeneration = om_Generation gc, cond_LastTransitionTime = 0,
       cond_Reason = ''Accepted'',
       cond_Message = ''GatewayClass accepted by reference implementation''\<rparr>]"

definition class_updated :: "Condition list \<Rightarrow> Condition list \<Rightarrow> bool" where
  "class_updated olds news =
     (if length olds \<noteq> length news then True else conditions_updated same_condition olds news)"

definition stamp :: "Time \<Rightarrow> Condition list \<Rightarrow> Condition list" where
  "stamp now cs = map (\<lambda>c. c\<lparr>cond_LastTransitionTime := now\<rparr>) cs"

definition ReconcileGatewayClass :: "Env \<Rightarrow> NamespacedName \<Rightarrow> World \<Rightarrow> call_result" where
  "ReconcileGatewayClass V req w =
     (case get_GatewayClass (env_cluster V) req of
        NotFound _ \<Rightarrow> (Inr done_ok, w)
      | GetFailed err \<Rightarrow> (Inr (failed err), w)
      | Found gc \<Rightarrow>
          if gc_ControllerName gc \<noteq> ControllerName then (Inr done_ok, w)
          else
            (let newConditions = class_conditions gc in
             if class_updated (gc_Status_Conditions gc) newConditions then
               (let gc1 = gc\<lparr>gc_Status_Conditions := stamp (env_now V) newConditions\<rparr>;
                    w1 = w\<lparr>w_Writes := w_Writes w @ [WriteGatewayClass gc1]\<rparr>
                in
                case put_GatewayClass_status (env_cluster V) gc1 of
                  Inl err \<Rightarrow> (Inr (failed err), w1)
                | Inr _ \<Rightarrow> (Inr done_ok, w1))
             else (Inr done_ok, w)))"

section \<open>The code: gateways\<close>

definition gateway_conditions :: "Gateway \<Rightarrow> Condition list" where
  "gateway_conditions gw =
     [\<lparr>cond_Type = ''Programmed'', cond_Status = ConditionTrue,
       cond_ObservedGeneration = om_Generation gw, cond_LastTransitionTime = 0,
       cond_Reason = ''Programmed'',
       cond_Message = ''Gateway programmed by reference implementation''\<rparr>,
      \<lparr>cond_Type = ''Accepted'', cond_Status = ConditionTrue,
       cond_ObservedGeneration = om_Generation gw, cond_LastTransitionTime = 0,
       cond_Reason = ''Accepted'',
       cond_Message = ''Gateway accepted by reference implementation''\<rparr>]"

definition gateway_addresses :: "string \<Rightarrow> GatewayStatusAddress list" where
  "gateway_addresses ip = [\<lparr>gsa_Type = Ptr ''IPAddress'', gsa_Value = ip\<rparr>]"

fun attached_parent_loop ::
    "Gateway \<Rightarrow> Listener \<Rightarrow> HTTPRouteState \<Rightarrow> ParentReference list \<Rightarrow> bool" where
  "attached_parent_loop gw l route [] = False"
| "attached_parent_loop gw l route (parentRef # prs) =
     (if pr_Name parentRef = om_Name gw then
        (if ValueOf '''' (pr_SectionName parentRef) = '''' \<or>
            ValueOf '''' (pr_SectionName parentRef) = lst_Name l then
           (if IsAccepted route ControllerName then True
            else attached_parent_loop gw l route prs)
         else attached_parent_loop gw l route prs)
      else attached_parent_loop gw l route prs)"

fun attached_routes_loop ::
    "Gateway \<Rightarrow> Listener \<Rightarrow> HTTPRouteState list \<Rightarrow> nat \<Rightarrow> nat panicking" where
  "attached_routes_loop gw l [] attachedRoutes = Inr attachedRoutes"
| "attached_routes_loop gw l (route # routes) attachedRoutes =
     bind_result (deref (hs_HTTPRoute route)) (\<lambda>hr.
       attached_routes_loop gw l routes
         (if attached_parent_loop gw l route (hr_ParentRefs hr)
          then attachedRoutes + 1 else attachedRoutes))"

definition listener_conditions :: "Time \<Rightarrow> Gateway \<Rightarrow> Condition list" where
  "listener_conditions now gw =
     [\<lparr>cond_Type = ''Programmed'', cond_Status = ConditionTrue,
       cond_ObservedGeneration = om_Generation gw, cond_LastTransitionTime = now,
       cond_Reason = ''Programmed'', cond_Message = ''Listener programmed''\<rparr>,
      \<lparr>cond_Type = ''Accepted'', cond_Status = ConditionTrue,
       cond_ObservedGeneration = om_Generation gw, cond_LastTransitionTime = now,
       cond_Reason = ''Accepted'', cond_Message = ''Listener accepted''\<rparr>,
      \<lparr>cond_Type = ''ResolvedRefs'', cond_Status = ConditionTrue,
       cond_ObservedGeneration = om_Generation gw, cond_LastTransitionTime = now,
       cond_Reason = ''ResolvedRefs'', cond_Message = ''All references resolved''\<rparr>]"

definition listener_status ::
    "Time \<Rightarrow> Gateway \<Rightarrow> HTTPRouteState list \<Rightarrow> Listener \<Rightarrow> ListenerStatus panicking" where
  "listener_status now gw routes l =
     bind_result (attached_routes_loop gw l routes 0) (\<lambda>attachedRoutes.
       Inr \<lparr>lsts_Name = lst_Name l,
            lsts_SupportedKinds =
              [\<lparr>rgk_Group = Ptr ''gateway.networking.k8s.io'', rgk_Kind = ''HTTPRoute''\<rparr>],
            lsts_AttachedRoutes = of_nat attachedRoutes,
            lsts_Conditions = listener_conditions now gw\<rparr>)"

definition address_changed :: "GatewayStatusAddress \<Rightarrow> GatewayStatusAddress \<Rightarrow> bool" where
  "address_changed old new \<longleftrightarrow>
     ValueOf '''' (gsa_Type old) \<noteq> ValueOf '''' (gsa_Type new) \<or> gsa_Value old \<noteq> gsa_Value new"

definition listener_changed :: "ListenerStatus \<Rightarrow> ListenerStatus \<Rightarrow> bool" where
  "listener_changed old new =
     (if lsts_Name old \<noteq> lsts_Name new \<or>
         lsts_AttachedRoutes old \<noteq> lsts_AttachedRoutes new \<or>
         length (lsts_Conditions old) \<noteq> length (lsts_Conditions new)
      then True
      else conditions_updated same_listener_condition (lsts_Conditions old) (lsts_Conditions new))"

type_synonym gateway_status =
  "Condition list \<times> GatewayStatusAddress list \<times> ListenerStatus list"

fun gateway_updated :: "gateway_status \<Rightarrow> gateway_status \<Rightarrow> bool" where
  "gateway_updated (oldConditions, oldAddresses, oldListeners)
       (newConditions, newAddresses, newListeners) =
     (if length oldConditions \<noteq> length newConditions \<or>
         length oldAddresses \<noteq> length newAddresses \<or>
         length oldListeners \<noteq> length newListeners
      then True
      else if conditions_updated same_condition oldConditions newConditions then True
      else if changed_loop address_changed oldAddresses newAddresses then True
      else changed_loop listener_changed oldListeners newListeners)"

definition gateway_status_of :: "Gateway \<Rightarrow> gateway_status" where
  "gateway_status_of gw =
     (gw_Status_Conditions gw, gw_Status_Addresses gw, gw_Status_Listeners gw)"

definition set_gateway_status :: "gateway_status \<Rightarrow> Gateway \<Rightarrow> Gateway" where
  "set_gateway_status st gw =
     gw\<lparr>gw_Status_Conditions := fst st, gw_Status_Addresses := fst (snd st),
        gw_Status_Listeners := snd (snd st)\<rparr>"

definition first_ip :: "string list \<Rightarrow> string" where
  "first_ip ips = (if length ips > 0 then hd ips else '''')"

definition finish_Gateway :: "Env \<Rightarrow> Gateway \<Rightarrow> World \<Rightarrow> call_result" where
  "finish_Gateway V gw w =
     update_then V 1 done_ok (w\<lparr>w_State := UpsertGateway gw (w_State w)\<rparr>)"

definition report_Gateway :: "Env \<Rightarrow> Gateway \<Rightarrow> string \<Rightarrow> World \<Rightarrow> call_result" where
  "report_Gateway V gw ip w =
     (let newConditions = gateway_conditions gw;
          newAddresses = gateway_addresses ip;
          routes = GetHTTPRoutes (env_range V 0 (dom (st_httpRoutes (w_State w)))) (w_State w)
      in
      case map_result (listener_status (env_now V) gw routes) (gw_Listeners gw) of
        Inl panic \<Rightarrow> (Inl panic, w)
      | Inr newListenerStatuses \<Rightarrow>
          if gateway_updated (gateway_status_of gw)
               (newConditions, newAddresses, newListenerStatuses) then
            (let gw1 = set_gateway_status
                         (stamp (env_now V) newConditions, newAddresses, newListenerStatuses) gw;
                 w1 = w\<lparr>w_Writes := w_Writes w @ [WriteGateway gw1]\<rparr>
             in
             case put_Gateway_status (env_cluster V) gw1 of
               Inl err \<Rightarrow> (Inr (failed err), w1)
             | Inr gw2 \<Rightarrow> finish_Gateway V gw2 w1)
          else finish_Gateway V gw w)"

definition ReconcileGateway :: "Env \<Rightarrow> NamespacedName \<Rightarrow> World \<Rightarrow> call_result" where
  "ReconcileGateway V req w =
     (case get_Gateway (env_cluster V) req of
        NotFound _ \<Rightarrow> update_then V 1 done_ok (w\<lparr>w_State := DeleteGateway req (w_State w)\<rparr>)
      | GetFailed err \<Rightarrow> (Inr (failed err), w)
      | Found gw \<Rightarrow>
          (case get_GatewayClass (env_cluster V) (NamespacedName '''' (gw_GatewayClassName gw)) of
             NotFound _ \<Rightarrow> (Inr done_ok, w)
           | GetFailed err \<Rightarrow> (Inr (failed err), w)
           | Found gc \<Rightarrow>
               if gc_ControllerName gc \<noteq> ControllerName then (Inr done_ok, w)
               else
                 (case get_Service (env_cluster V) (NamespacedName ''default'' ''gari-proxy'') of
                    NotFound err \<Rightarrow> (Inr (failed err), w)
                  | GetFailed err \<Rightarrow> (Inr (failed err), w)
                  | Found svc \<Rightarrow>
                      (let ip = first_ip (svc_Ingress_IPs svc) in
                       if ip = '''' then (Inr \<lparr>res_Requeue = True, res_Err = None\<rparr>, w)
                       else report_Gateway V gw ip w))))"

section \<open>The code: requests for gateways when a route changes\<close>

fun gateway_requests :: "string \<Rightarrow> ParentReference list \<Rightarrow> NamespacedName list" where
  "gateway_requests ns [] = []"
| "gateway_requests ns (parentRef # prs) =
     (if ValueOf '''' (pr_Group parentRef) = '''' \<or>
         ValueOf '''' (pr_Group parentRef) = ''gateway.networking.k8s.io'' then
        (if ValueOf '''' (pr_Kind parentRef) = '''' \<or>
            ValueOf '''' (pr_Kind parentRef) = ''Gateway'' then
           NamespacedName ns (pr_Name parentRef) # gateway_requests ns prs
         else gateway_requests ns prs)
      else gateway_requests ns prs)"

definition gateways_for_route :: "HTTPRoute \<Rightarrow> NamespacedName list" where
  "gateways_for_route route = gateway_requests (om_Namespace route) (hr_ParentRefs route)"

section \<open>Stamped conditions\<close>

lemma stamp_types [simp]: "map cond_Type (stamp t cs) = map cond_Type cs"
  by (simp add: stamp_def)

lemma length_stamp [simp]: "length (stamp t cs) = length cs"
  by (simp add: stamp_def)

lemma stamp_stamp [simp]: "stamp t (stamp t' cs) = stamp t cs"
  by (simp add: stamp_def)

lemma stamp_up_to_time: "list_all2 up_to_time (stamp t cs) (stamp t' cs)"
  by (simp add: stamp_def list_all2_conv_all_nth up_to_time_def)

text \<open>The comparison does not read the transition time of the new conditions.\<close>

lemma condition_matched_stamp [simp]:
  "condition_matched same_condition olds (c\<lparr>cond_LastTransitionTime := t\<rparr>) =
     condition_matched same_condition olds c"
  by (induction olds) (simp_all add: same_condition_def)

lemma conditions_updated_stamp [simp]:
  "conditions_updated same_condition olds (stamp t news) =
     conditions_updated same_condition olds news"
  by (induction news) (simp_all add: stamp_def)

lemma class_updated_stamp [simp]: "class_updated olds (stamp t news) = class_updated olds news"
  by (simp add: class_updated_def)

lemma gateway_updated_stamp [simp]:
  "gateway_updated st (stamp t cs, as, ls) = gateway_updated st (cs, as, ls)"
  by (cases st) simp

section \<open>The status of a gateway class\<close>

definition desired_class :: "Time \<Rightarrow> GatewayClass \<Rightarrow> Condition list" where
  "desired_class t gc = stamp t (class_conditions gc)"

lemma class_conditions_status [simp]:
  "class_conditions (gc\<lparr>gc_Status_Conditions := cs\<rparr>) = class_conditions gc"
  by (simp add: class_conditions_def)

lemma desired_class_settled: "\<not> class_updated (desired_class t gc) (desired_class t' gc)"
proof -
  have "\<not> conditions_updated same_condition (stamp t (class_conditions gc))
      (stamp t' (class_conditions gc))"
    by (rule conditions_not_updated [OF stamp_up_to_time])
      (simp_all only: stamp_types, simp_all add: class_conditions_def)
  then show ?thesis by (simp add: class_updated_def desired_class_def)
qed

interpretation class_status: status_writer gc_Status_Conditions
  "\<lambda>cs gc. gc\<lparr>gc_Status_Conditions := cs\<rparr>" desired_class class_updated
  by unfold_locales (simp_all add: desired_class_settled, simp add: desired_class_def)

section \<open>The status of a gateway\<close>

text \<open>
  A route counts for a listener when one of its references names the gateway and the listener
  (or no listener), and some parent has accepted it.
\<close>

definition counts_for :: "Gateway \<Rightarrow> Listener \<Rightarrow> HTTPRouteState \<Rightarrow> bool" where
  "counts_for gw l rs \<longleftrightarrow>
     IsAccepted rs ControllerName \<and>
     (\<exists>hr. hs_HTTPRoute rs = Some hr \<and>
        (\<exists>pr \<in> set (hr_ParentRefs hr). pr_Name pr = om_Name gw \<and> section_selects pr l))"

lemma attached_parent_loop_iff:
  "attached_parent_loop gw l rs prs \<longleftrightarrow>
     IsAccepted rs ControllerName \<and>
     (\<exists>pr \<in> set prs. pr_Name pr = om_Name gw \<and> section_selects pr l)"
  by (induction prs) (auto simp: section_selects_def)

lemma attached_routes_loop_count:
  assumes "\<forall>rs \<in> set routes. hs_HTTPRoute rs \<noteq> None"
  shows "attached_routes_loop gw l routes n = Inr (n + length (filter (counts_for gw l) routes))"
  using assms
proof (induction routes arbitrary: n)
  case Nil
  then show ?case by simp
next
  case (Cons rs routes)
  then obtain hr where "hs_HTTPRoute rs = Some hr" by auto
  then have "counts_for gw l rs = attached_parent_loop gw l rs (hr_ParentRefs hr)"
    by (simp add: counts_for_def attached_parent_loop_iff)
  with Cons \<open>hs_HTTPRoute rs = Some hr\<close> show ?case by simp
qed

definition desired_listener ::
    "HTTPRouteState list \<Rightarrow> Time \<Rightarrow> Gateway \<Rightarrow> Listener \<Rightarrow> ListenerStatus" where
  "desired_listener routes t gw l =
     \<lparr>lsts_Name = lst_Name l,
      lsts_SupportedKinds =
        [\<lparr>rgk_Group = Ptr ''gateway.networking.k8s.io'', rgk_Kind = ''HTTPRoute''\<rparr>],
      lsts_AttachedRoutes = of_nat (length (filter (counts_for gw l) routes)),
      lsts_Conditions = listener_conditions t gw\<rparr>"

definition desired_gateway ::
    "HTTPRouteState list \<Rightarrow> string \<Rightarrow> Time \<Rightarrow> Gateway \<Rightarrow> gateway_status" where
  "desired_gateway routes ip t gw =
     (stamp t (gateway_conditions gw), gateway_addresses ip,
      map (desired_listener routes t gw) (gw_Listeners gw))"

lemma listener_statuses_desired:
  assumes "\<forall>rs \<in> set routes. hs_HTTPRoute rs \<noteq> None"
  shows "map_result (listener_status t gw routes) ls = Inr (map (desired_listener routes t gw) ls)"
  by (rule map_result_cong_pure)
    (simp add: listener_status_def desired_listener_def attached_routes_loop_count [OF assms])

lemma listener_conditions_settled:
  "\<not> conditions_updated same_listener_condition (listener_conditions t gw)
       (listener_conditions t' gw)"
  by (rule conditions_not_updated)
    (simp_all add: listener_conditions_def up_to_time_def same_condition_listener)

lemma desired_listener_settled:
  "\<not> listener_changed (desired_listener routes t gw l) (desired_listener routes t' gw l)"
proof -
  have "length (listener_conditions t gw) = length (listener_conditions t' gw)"
    by (simp add: listener_conditions_def)
  with listener_conditions_settled show ?thesis
    by (simp add: listener_changed_def desired_listener_def)
qed

lemma gateway_conditions_settled:
  "\<not> conditions_updated same_condition (stamp t (gateway_conditions gw)) (gateway_conditions gw)"
proof -
  have "\<not> conditions_updated same_condition (stamp t (gateway_conditions gw))
      (stamp t (gateway_conditions gw))"
    by (rule conditions_not_updated [OF stamp_up_to_time])
      (simp_all only: stamp_types, simp_all add: gateway_conditions_def)
  then show ?thesis by simp
qed

lemma desired_gateway_settled:
  "\<not> gateway_updated (desired_gateway routes ip t gw) (desired_gateway routes ip t' gw)"
proof -
  have "\<not> changed_loop listener_changed
      (map (desired_listener routes t gw) (gw_Listeners gw))
      (map (desired_listener routes t' gw) (gw_Listeners gw))"
    by (rule changed_loop_map) (rule desired_listener_settled)
  moreover have "\<not> changed_loop address_changed (gateway_addresses ip) (gateway_addresses ip)"
    by (rule changed_loop_refl) (simp add: address_changed_def)
  ultimately show ?thesis
    by (simp add: desired_gateway_def gateway_conditions_settled)
qed

lemma gateway_status_set [simp]: "gateway_status_of (set_gateway_status st gw) = st"
  by (simp add: gateway_status_of_def set_gateway_status_def)

lemma gateway_conditions_set_status [simp]:
  "gateway_conditions (set_gateway_status st gw) = gateway_conditions gw"
  by (simp add: gateway_conditions_def set_gateway_status_def)

lemma desired_gateway_set_status [simp]:
  "desired_gateway routes ip t (set_gateway_status st gw) = desired_gateway routes ip t gw"
proof -
  have "counts_for (set_gateway_status st gw) l = counts_for gw l" for l
    by (rule ext) (simp add: counts_for_def set_gateway_status_def)
  then have "desired_listener routes t (set_gateway_status st gw) l =
      desired_listener routes t gw l" for l
    by (simp add: desired_listener_def listener_conditions_def) (simp add: set_gateway_status_def)
  then show ?thesis by (simp add: desired_gateway_def) (simp add: set_gateway_status_def)
qed

interpretation gateway_status: status_writer gateway_status_of set_gateway_status
  "desired_gateway routes ip" gateway_updated
  for routes ip
  by unfold_locales (simp_all add: desired_gateway_settled)

section \<open>The whole call\<close>

definition listed_routes :: "Env \<Rightarrow> World \<Rightarrow> HTTPRouteState list" where
  "listed_routes V w =
     GetHTTPRoutes (env_range V 0 (dom (st_httpRoutes (w_State w)))) (w_State w)"

lemma listed_routes_not_nil:
  "state_ok (w_State w) \<Longrightarrow> \<forall>rs \<in> set (listed_routes V w). hs_HTTPRoute rs \<noteq> None"
  by (auto simp: listed_routes_def dest: GetHTTPRoutes_not_nil)

lemma report_Gateway_eq:
  fixes V :: Env and gw :: Gateway and ip :: string and w :: World
  assumes "state_ok (w_State w)"
  defines "desired \<equiv> desired_gateway (listed_routes V w) ip (env_now V) gw"
  defines "gw1 \<equiv> set_gateway_status desired gw"
  defines "log \<equiv> w_Writes w @ [WriteGateway gw1]"
  shows "report_Gateway V gw ip w =
    (if \<not> gateway_updated (gateway_status_of gw) desired
     then update_then V 1 done_ok (w\<lparr>w_State := UpsertGateway gw (w_State w)\<rparr>)
     else
       (case put_Gateway_status (env_cluster V) gw1 of
          Inl err \<Rightarrow> (Inr (failed err), w\<lparr>w_Writes := log\<rparr>)
        | Inr gw2 \<Rightarrow>
            update_then V 1 done_ok
              (w\<lparr>w_Writes := log, w_State := UpsertGateway gw2 (w_State w)\<rparr>)))"
proof -
  have new: "map_result (listener_status (env_now V) gw
        (GetHTTPRoutes (env_range V 0 (dom (st_httpRoutes (w_State w)))) (w_State w)))
        (gw_Listeners gw) =
      Inr (map (desired_listener (listed_routes V w) (env_now V) gw) (gw_Listeners gw))"
    using listener_statuses_desired [OF listed_routes_not_nil [OF assms(1)]]
    by (simp add: listed_routes_def)
  show ?thesis
    unfolding report_Gateway_def Let_def new sum.case finish_Gateway_def
    by (simp add: log_def gw1_def desired_def desired_gateway_def split: sum.split)
qed

text \<open>The path of a call that reaches the report: our class, and an address.\<close>

definition ours :: "Env \<Rightarrow> Gateway \<Rightarrow> bool" where
  "ours V gw \<longleftrightarrow>
     (\<exists>gc. get_GatewayClass (env_cluster V) (NamespacedName '''' (gw_GatewayClassName gw)) = Found gc \<and>
        gc_ControllerName gc = ControllerName)"

lemma ReconcileGateway_reports:
  assumes "get_Gateway (env_cluster V) req = Found gw" "ours V gw"
    and "get_Service (env_cluster V) (NamespacedName ''default'' ''gari-proxy'') = Found svc"
    and "first_ip (svc_Ingress_IPs svc) \<noteq> ''''"
  shows "ReconcileGateway V req w = report_Gateway V gw (first_ip (svc_Ingress_IPs svc)) w"
  using assms by (auto simp: ReconcileGateway_def ours_def)

lemma ReconcileGateway_ignores:
  assumes "get_Gateway (env_cluster V) req = Found gw"
    and "\<not> ours V gw"
  shows "snd (ReconcileGateway V req w) = w"
  using assms by (auto simp: ReconcileGateway_def ours_def split: get_result.split)

lemma gateway_requests_set:
  "set (gateway_requests ns prs) =
     NamespacedName ns ` pr_Name ` {pr \<in> set prs.
       ValueOf '''' (pr_Group pr) \<in> {'''', ''gateway.networking.k8s.io''} \<and>
       ValueOf '''' (pr_Kind pr) \<in> {'''', ''Gateway''}}"
  by (induction prs) auto

end
