(* ===== verification/PolicyController.thy ===== *)
theory PolicyController
  imports Controllers StatusWriter
begin

text \<open>
  \<^verbatim>\<open>pkg/controller/backendtlspolicy_controller.go\<close>: the reconciler of backend TLS
  policies. It checks the CA certificates that the policy refers to, finds the gateways whose
  accepted routes use the service that the policy targets, reports one ancestor for each of
  them, and stores the policy, accepted or not. Only the first target reference is read here,
  without a test that there is one.
\<close>

section \<open>The code\<close>

definition ca_data :: "ConfigMap \<Rightarrow> string" where
  "ca_data cm =
     (case cm_Data cm ''ca.crt'' of
        Some d \<Rightarrow> d
      | None \<Rightarrow> (case cm_BinaryData cm ''ca.crt'' of Some d \<Rightarrow> d | None \<Rightarrow> ''''))"

text \<open>The loop over the CA references: \<open>caCerts\<close> and \<open>unresolvedRefs\<close>, both appended to.\<close>

fun ca_loop ::
    "Env \<Rightarrow> string \<Rightarrow> TargetRef list \<Rightarrow> string list \<Rightarrow> string list \<Rightarrow> string list \<times> string list" where
  "ca_loop V ns [] caCerts unresolvedRefs = (caCerts, unresolvedRefs)"
| "ca_loop V ns (caRef # refs) caCerts unresolvedRefs =
     (if tr_Group caRef = '''' \<and> tr_Kind caRef = ''ConfigMap'' then
        (case get_ConfigMap (env_cluster V) (NamespacedName ns (tr_Name caRef)) of
           NotFound _ \<Rightarrow> ca_loop V ns refs caCerts (unresolvedRefs @ [tr_Name caRef])
         | GetFailed _ \<Rightarrow> ca_loop V ns refs caCerts (unresolvedRefs @ [tr_Name caRef])
         | Found cm \<Rightarrow>
             (let data = ca_data cm in
              if length data = 0 then
                ca_loop V ns refs caCerts (unresolvedRefs @ [tr_Name caRef])
              else if env_pem_type V data \<noteq> Some ''CERTIFICATE'' then
                ca_loop V ns refs caCerts (unresolvedRefs @ [tr_Name caRef])
              else ca_loop V ns refs (caCerts @ [data]) unresolvedRefs))
      else ca_loop V ns refs caCerts (unresolvedRefs @ [tr_Name caRef]))"

definition policy_conditions :: "Time \<Rightarrow> BackendTLSPolicy \<Rightarrow> string list \<Rightarrow> Condition list" where
  "policy_conditions now policy unresolvedRefs =
     (let unresolved = length unresolvedRefs > 0;
          message = ''Unresolved or invalid CA certificate references: '' @
                    format_strings unresolvedRefs
      in
      [\<lparr>cond_Type = ''Accepted'',
        cond_Status = (if unresolved then ConditionFalse else ConditionTrue),
        cond_ObservedGeneration = om_Generation policy, cond_LastTransitionTime = now,
        cond_Reason = (if unresolved then ''NoValidCACertificate'' else ''Accepted''),
        cond_Message = (if unresolved then message else ''Policy accepted'')\<rparr>,
       \<lparr>cond_Type = ''ResolvedRefs'',
        cond_Status = (if unresolved then ConditionFalse else ConditionTrue),
        cond_ObservedGeneration = om_Generation policy, cond_LastTransitionTime = now,
        cond_Reason = (if unresolved then ''InvalidCACertificateRef'' else ''ResolvedRefs''),
        cond_Message = (if unresolved then message else ''All references resolved'')\<rparr>])"

fun refs_use_service :: "NamespacedName \<Rightarrow> string \<Rightarrow> HTTPBackendRef list \<Rightarrow> bool" where
  "refs_use_service target routeNamespace [] = False"
| "refs_use_service target routeNamespace (backendRef # bs) =
     (if ValueOf '''' (br_Kind backendRef) = ''Service'' \<or> ValueOf '''' (br_Kind backendRef) = '''' then
        (let ns = (case br_Namespace backendRef of None \<Rightarrow> routeNamespace | Some n \<Rightarrow> n) in
         if NamespacedName ns (br_Name backendRef) = target then True
         else refs_use_service target routeNamespace bs)
      else refs_use_service target routeNamespace bs)"

fun rules_use_service :: "NamespacedName \<Rightarrow> string \<Rightarrow> HTTPRouteRule list \<Rightarrow> bool" where
  "rules_use_service target routeNamespace [] = False"
| "rules_use_service target routeNamespace (rule # rules) =
     (if refs_use_service target routeNamespace (rr_BackendRefs rule) then True
      else rules_use_service target routeNamespace rules)"

fun routes_use_service :: "NamespacedName \<Rightarrow> Gateway \<Rightarrow> HTTPRouteState list \<Rightarrow> bool panicking" where
  "routes_use_service target gw [] = Inr False"
| "routes_use_service target gw (route # routes) =
     (if MatchesGateway route gw ControllerName then
        bind_result (deref (hs_HTTPRoute route)) (\<lambda>hr.
          if rules_use_service target (om_Namespace hr) (hr_Rules hr) then Inr True
          else routes_use_service target gw routes)
      else routes_use_service target gw routes)"

definition ancestor_status ::
    "Time \<Rightarrow> BackendTLSPolicy \<Rightarrow> string list \<Rightarrow> Gateway \<Rightarrow> PolicyAncestorStatus" where
  "ancestor_status now policy unresolvedRefs gw =
     \<lparr>pas_AncestorRef =
        \<lparr>pr_Group = Ptr ''gateway.networking.k8s.io'', pr_Kind = Ptr ''Gateway'',
         pr_Namespace = Ptr (om_Namespace gw), pr_Name = om_Name gw,
         pr_SectionName = None, pr_Port = None\<rparr>,
      pas_ControllerName = ControllerName,
      pas_Conditions = policy_conditions now policy unresolvedRefs\<rparr>"

fun ancestors_loop ::
    "Time \<Rightarrow> BackendTLSPolicy \<Rightarrow> string list \<Rightarrow> NamespacedName \<Rightarrow> HTTPRouteState list \<Rightarrow>
     GatewayState list \<Rightarrow> PolicyAncestorStatus list \<Rightarrow> PolicyAncestorStatus list panicking" where
  "ancestors_loop now policy unresolvedRefs target routes [] ancestors = Inr ancestors"
| "ancestors_loop now policy unresolvedRefs target routes (gw # gws) ancestors =
     bind_result (routes_use_service target (gs_Gateway gw) routes) (\<lambda>usesService.
       ancestors_loop now policy unresolvedRefs target routes gws
         (if usesService
          then ancestors @ [ancestor_status now policy unresolvedRefs (gs_Gateway gw)]
          else ancestors))"

definition ancestor_changed :: "PolicyAncestorStatus \<Rightarrow> PolicyAncestorStatus \<Rightarrow> bool" where
  "ancestor_changed old new =
     (if pas_AncestorRef old \<noteq> pas_AncestorRef new \<or>
         pas_ControllerName old \<noteq> pas_ControllerName new \<or>
         length (pas_Conditions old) \<noteq> length (pas_Conditions new)
      then True
      else conditions_updated same_condition (pas_Conditions old) (pas_Conditions new))"

definition ancestors_updated ::
    "PolicyAncestorStatus list \<Rightarrow> PolicyAncestorStatus list \<Rightarrow> bool" where
  "ancestors_updated olds news =
     (if length olds \<noteq> length news then True else changed_loop ancestor_changed olds news)"

definition finish_BackendTLSPolicy :: "Env \<Rightarrow> BackendTLSPolicy \<Rightarrow> World \<Rightarrow> call_result" where
  "finish_BackendTLSPolicy V policy w =
     update_then V 2 done_ok (w\<lparr>w_State := UpsertBackendTLSPolicy policy (w_State w)\<rparr>)"

definition ReconcileBackendTLSPolicy :: "Env \<Rightarrow> NamespacedName \<Rightarrow> World \<Rightarrow> call_result" where
  "ReconcileBackendTLSPolicy V req w =
     (case get_BackendTLSPolicy (env_cluster V) req of
        NotFound _ \<Rightarrow>
          update_then V 2 done_ok (w\<lparr>w_State := DeleteBackendTLSPolicy req (w_State w)\<rparr>)
      | GetFailed err \<Rightarrow> (Inr (failed err), w)
      | Found policy \<Rightarrow>
          (let st = w_State w;
               gateways = GetGateways (env_range V 0 (dom (st_gateways st))) st;
               routes = GetHTTPRoutes (env_range V 1 (dom (st_httpRoutes st))) st
           in
           case btp_TargetRefs policy of
             [] \<Rightarrow> (Inl IndexOutOfRange, w)
           | targetRef # _ \<Rightarrow>
               (let targetedServiceName = NamespacedName (om_Namespace policy) (tr_Name targetRef);
                    unresolvedRefs =
                      snd (ca_loop V (om_Namespace policy) (btp_CACertificateRefs policy) [] [])
                in
                case ancestors_loop (env_now V) policy unresolvedRefs targetedServiceName routes
                       gateways [] of
                  Inl panic \<Rightarrow> (Inl panic, w)
                | Inr ancestors \<Rightarrow>
                    if ancestors_updated (btp_Status_Ancestors policy) ancestors then
                      (let policy1 = policy\<lparr>btp_Status_Ancestors := ancestors\<rparr>;
                           w1 = w\<lparr>w_Writes := w_Writes w @ [WriteBackendTLSPolicy policy1]\<rparr>
                       in
                       case put_BackendTLSPolicy_status (env_cluster V) policy1 of
                         Inl err \<Rightarrow> (Inr (failed err), w1)
                       | Inr policy2 \<Rightarrow> finish_BackendTLSPolicy V policy2 w1)
                    else finish_BackendTLSPolicy V policy w)))"

section \<open>The code: requests for policies when a config map changes\<close>

fun references_config_map :: "string \<Rightarrow> TargetRef list \<Rightarrow> bool" where
  "references_config_map name [] = False"
| "references_config_map name (caRef # refs) =
     (if tr_Group caRef = '''' \<and> tr_Kind caRef = ''ConfigMap'' \<and> tr_Name caRef = name then True
      else references_config_map name refs)"

fun policy_requests :: "string \<Rightarrow> BackendTLSPolicy list \<Rightarrow> NamespacedName list" where
  "policy_requests name [] = []"
| "policy_requests name (policy # ps) =
     (if references_config_map name (btp_CACertificateRefs policy)
      then NamespacedName (om_Namespace policy) (om_Name policy) # policy_requests name ps
      else policy_requests name ps)"

text \<open>\<open>listed\<close> is what the client's \<open>List\<close> answers for the namespace of the config map.\<close>

definition policies_for_config_map ::
    "(string \<Rightarrow> string + BackendTLSPolicy list) \<Rightarrow> ConfigMap \<Rightarrow> NamespacedName list" where
  "policies_for_config_map listed cm =
     (case listed (om_Namespace cm) of
        Inl err \<Rightarrow> []
      | Inr items \<Rightarrow> policy_requests (om_Name cm) items)"

section \<open>The CA certificates\<close>

definition usable_ca :: "Env \<Rightarrow> string \<Rightarrow> TargetRef \<Rightarrow> string option" where
  "usable_ca V ns caRef =
     (if tr_Group caRef = '''' \<and> tr_Kind caRef = ''ConfigMap'' then
        (case get_ConfigMap (env_cluster V) (NamespacedName ns (tr_Name caRef)) of
           Found cm \<Rightarrow>
             if ca_data cm \<noteq> '''' \<and> env_pem_type V (ca_data cm) = Some ''CERTIFICATE''
             then Some (ca_data cm) else None
         | _ \<Rightarrow> None)
      else None)"

definition unresolved_refs :: "Env \<Rightarrow> BackendTLSPolicy \<Rightarrow> string list" where
  "unresolved_refs V policy =
     map tr_Name (filter (\<lambda>r. usable_ca V (om_Namespace policy) r = None)
       (btp_CACertificateRefs policy))"

lemma ca_loop_step:
  "ca_loop V ns (caRef # refs) cas un =
     (case usable_ca V ns caRef of
        None \<Rightarrow> ca_loop V ns refs cas (un @ [tr_Name caRef])
      | Some data \<Rightarrow> ca_loop V ns refs (cas @ [data]) un)"
  by (simp add: usable_ca_def Let_def split: get_result.split)

lemma ca_loop_eq:
  "ca_loop V ns refs cas un =
     (cas @ List.map_filter (usable_ca V ns) refs,
      un @ map tr_Name (filter (\<lambda>r. usable_ca V ns r = None) refs))"
proof (induction refs arbitrary: cas un)
  case Nil
  then show ?case by (simp add: map_filter_simps)
next
  case (Cons r refs)
  then show ?case
    by (cases "usable_ca V ns r") (simp_all only: ca_loop_step, simp_all add: map_filter_simps)
qed

lemma ca_loop_unresolved:
  "snd (ca_loop V (om_Namespace policy) (btp_CACertificateRefs policy) [] []) =
     unresolved_refs V policy"
  by (simp add: ca_loop_eq unresolved_refs_def)

section \<open>The gateways that use a service\<close>

definition backend_namespace :: "string \<Rightarrow> HTTPBackendRef \<Rightarrow> string" where
  "backend_namespace routeNamespace b =
     (case br_Namespace b of None \<Rightarrow> routeNamespace | Some n \<Rightarrow> n)"

definition ref_names_service :: "NamespacedName \<Rightarrow> string \<Rightarrow> HTTPBackendRef \<Rightarrow> bool" where
  "ref_names_service target routeNamespace b \<longleftrightarrow>
     ValueOf '''' (br_Kind b) \<in> {''Service'', ''''} \<and>
     NamespacedName (backend_namespace routeNamespace b) (br_Name b) = target"

definition uses_service :: "NamespacedName \<Rightarrow> HTTPRouteState list \<Rightarrow> Gateway \<Rightarrow> bool" where
  "uses_service target routes gw \<longleftrightarrow>
     (\<exists>rs \<in> set routes. \<exists>hr. hs_HTTPRoute rs = Some hr \<and> MatchesGateway rs gw ControllerName \<and>
        (\<exists>rule \<in> set (hr_Rules hr). \<exists>b \<in> set (rr_BackendRefs rule).
           ref_names_service target (om_Namespace hr) b))"

lemma refs_use_service_iff:
  "refs_use_service target ns bs \<longleftrightarrow> (\<exists>b \<in> set bs. ref_names_service target ns b)"
  by (induction bs) (auto simp: ref_names_service_def backend_namespace_def Let_def)

lemma rules_use_service_iff:
  "rules_use_service target ns rules \<longleftrightarrow>
     (\<exists>rule \<in> set rules. \<exists>b \<in> set (rr_BackendRefs rule). ref_names_service target ns b)"
  by (induction rules) (auto simp: refs_use_service_iff)

text \<open>A nil route matches no gateway: the dereference after the test cannot fail.\<close>

lemma MatchesGateway_not_nil: "MatchesGateway rs gw cn \<Longrightarrow> \<exists>hr. hs_HTTPRoute rs = Some hr"
  by (auto simp: MatchesGateway_def split: option.splits)

lemma routes_use_service_eq:
  "routes_use_service target gw routes = Inr (uses_service target routes gw)"
proof (induction routes)
  case Nil
  then show ?case by (simp add: uses_service_def)
next
  case (Cons rs routes)
  show ?case
  proof (cases "MatchesGateway rs gw ControllerName")
    case True
    then obtain hr where "hs_HTTPRoute rs = Some hr" using MatchesGateway_not_nil by blast
    with Cons True show ?thesis by (simp add: uses_service_def rules_use_service_iff)
  next
    case False
    with Cons show ?thesis by (simp add: uses_service_def)
  qed
qed

section \<open>The status of a policy\<close>

definition desired_ancestors ::
    "GatewayState list \<Rightarrow> HTTPRouteState list \<Rightarrow> NamespacedName \<Rightarrow> string list \<Rightarrow> Time \<Rightarrow>
     BackendTLSPolicy \<Rightarrow> PolicyAncestorStatus list" where
  "desired_ancestors gws routes target unresolvedRefs now policy =
     map (ancestor_status now policy unresolvedRefs)
       (filter (uses_service target routes) (map gs_Gateway gws))"

lemma ancestors_loop_eq:
  "ancestors_loop now policy un target routes gws acc =
     Inr (acc @ desired_ancestors gws routes target un now policy)"
  by (induction gws arbitrary: acc) (simp_all add: routes_use_service_eq desired_ancestors_def)

lemma policy_conditions_settled:
  "\<not> conditions_updated same_condition (policy_conditions t policy un) (policy_conditions t' policy un)"
  by (rule conditions_not_updated) (simp_all add: policy_conditions_def Let_def up_to_time_def)

lemma ancestor_status_settled:
  "\<not> ancestor_changed (ancestor_status t policy un gw) (ancestor_status t' policy un gw)"
proof -
  have "length (policy_conditions t policy un) = length (policy_conditions t' policy un)"
    by (simp add: policy_conditions_def Let_def)
  with policy_conditions_settled show ?thesis
    by (simp add: ancestor_changed_def ancestor_status_def)
qed

lemma desired_ancestors_settled:
  "\<not> ancestors_updated (desired_ancestors gws routes target un t policy)
       (desired_ancestors gws routes target un t' policy)"
  by (simp add: ancestors_updated_def desired_ancestors_def changed_loop_map
      ancestor_status_settled)

lemma desired_ancestors_set_status [simp]:
  "desired_ancestors gws routes target un t (policy\<lparr>btp_Status_Ancestors := as\<rparr>) =
     desired_ancestors gws routes target un t policy"
  by (simp add: desired_ancestors_def ancestor_status_def policy_conditions_def)

interpretation policy_status: status_writer btp_Status_Ancestors
  "\<lambda>as policy. policy\<lparr>btp_Status_Ancestors := as\<rparr>" "desired_ancestors gws routes target un"
  ancestors_updated for gws routes target un
  by unfold_locales (simp_all add: desired_ancestors_settled)

text \<open>Two lists that name different gateways somewhere are different statuses.\<close>

lemma ancestors_updated_order:
  assumes "i < length as" "i < length bs"
    and "(om_Namespace (as ! i), om_Name (as ! i)) \<noteq> (om_Namespace (bs ! i), om_Name (bs ! i))"
  shows "ancestors_updated (map (ancestor_status t policy un) as)
      (map (ancestor_status t' policy un) bs)"
proof (cases "length as = length bs")
  case True
  moreover have "ancestor_changed (ancestor_status t policy un (as ! i))
      (ancestor_status t' policy un (bs ! i))"
    using assms(3) by (auto simp: ancestor_changed_def ancestor_status_def Ptr_def)
  ultimately show ?thesis
    using assms(1) by (auto simp: ancestors_updated_def changed_loop_iff)
qed (simp add: ancestors_updated_def)

section \<open>The whole call\<close>

definition reported_ancestors :: "Env \<Rightarrow> World \<Rightarrow> TargetRef \<Rightarrow> BackendTLSPolicy \<Rightarrow>
     PolicyAncestorStatus list" where
  "reported_ancestors V w targetRef policy =
     desired_ancestors
       (GetGateways (env_range V 0 (dom (st_gateways (w_State w)))) (w_State w))
       (GetHTTPRoutes (env_range V 1 (dom (st_httpRoutes (w_State w)))) (w_State w))
       (NamespacedName (om_Namespace policy) (tr_Name targetRef))
       (unresolved_refs V policy) (env_now V) policy"

lemma ReconcileBackendTLSPolicy_Found:
  fixes V :: Env and req :: NamespacedName and w :: World and policy :: BackendTLSPolicy
  assumes "get_BackendTLSPolicy (env_cluster V) req = Found policy"
    and "btp_TargetRefs policy = targetRef # refs"
  defines "desired \<equiv> reported_ancestors V w targetRef policy"
  defines "policy1 \<equiv> policy\<lparr>btp_Status_Ancestors := desired\<rparr>"
  defines "log \<equiv> w_Writes w @ [WriteBackendTLSPolicy policy1]"
  shows "ReconcileBackendTLSPolicy V req w =
    (if \<not> ancestors_updated (btp_Status_Ancestors policy) desired
     then update_then V 2 done_ok (w\<lparr>w_State := UpsertBackendTLSPolicy policy (w_State w)\<rparr>)
     else
       (case put_BackendTLSPolicy_status (env_cluster V) policy1 of
          Inl err \<Rightarrow> (Inr (failed err), w\<lparr>w_Writes := log\<rparr>)
        | Inr policy2 \<Rightarrow>
            update_then V 2 done_ok
              (w\<lparr>w_Writes := log, w_State := UpsertBackendTLSPolicy policy2 (w_State w)\<rparr>)))"
  unfolding ReconcileBackendTLSPolicy_def assms(1,2) get_result.case list.case Let_def
    ancestors_loop_eq sum.case finish_BackendTLSPolicy_def ca_loop_unresolved append_Nil
  by (simp add: log_def policy1_def desired_def reported_ancestors_def split: sum.split)

lemma ReconcileBackendTLSPolicy_no_target:
  assumes "get_BackendTLSPolicy (env_cluster V) req = Found policy" "btp_TargetRefs policy = []"
  shows "ReconcileBackendTLSPolicy V req w = (Inl IndexOutOfRange, w)"
  by (simp add: ReconcileBackendTLSPolicy_def assms Let_def)

lemma references_config_map_iff:
  "references_config_map name refs \<longleftrightarrow>
     (\<exists>r \<in> set refs. tr_Group r = '''' \<and> tr_Kind r = ''ConfigMap'' \<and> tr_Name r = name)"
  by (induction refs) auto

lemma policy_requests_eq:
  "policy_requests name ps =
     map object_key (filter (\<lambda>p. references_config_map name (btp_CACertificateRefs p)) ps)"
  by (induction ps) (simp_all add: object_key_def)

end
