(* ===== verification/Examples.thy ===== *)
theory Examples
  imports RouteController GatewayController PolicyController
begin

text \<open>
  A small cluster on which the properties are evaluated: one gateway with one HTTP listener,
  one route for \<open>*.example.com\<close> with a prefix rule and a catch-all rule, one TLS policy with
  its config map, an API server that answers with these objects and echoes status updates, and
  the range order that enumerates keys in ascending order.
\<close>

definition ex_listener :: Listener where
  "ex_listener = \<lparr>lst_Name = ''http'', lst_Hostname = None, lst_Protocol = ''HTTP''\<rparr>"

definition ex_gateway :: Gateway where
  "ex_gateway = \<lparr>om_Name = ''gw'', om_Namespace = ''default'', om_Generation = 1,
     gw_GatewayClassName = ''gari'', gw_Listeners = [ex_listener], gw_Status_Addresses = [],
     gw_Status_Conditions = [], gw_Status_Listeners = []\<rparr>"

definition ex_class :: GatewayClass where
  "ex_class = \<lparr>om_Name = ''gari'', om_Namespace = '''', om_Generation = 1,
     gc_ControllerName = ControllerName, gc_Status_Conditions = []\<rparr>"

definition ex_ref :: ParentReference where
  "ex_ref = \<lparr>pr_Group = None, pr_Kind = None, pr_Namespace = None, pr_Name = ''gw'',
     pr_SectionName = None, pr_Port = None\<rparr>"

definition ex_match :: HTTPRouteMatch where
  "ex_match = \<lparr>rm_Path = Some \<lparr>pm_Type = Some ''PathPrefix'', pm_Value = Some ''/api''\<rparr>,
     rm_Headers = []\<rparr>"

definition ex_backend :: "string \<Rightarrow> int32 option \<Rightarrow> HTTPBackendRef" where
  "ex_backend name port = \<lparr>br_Kind = None, br_Name = name, br_Namespace = None, br_Port = port\<rparr>"

definition ex_rule :: HTTPRouteRule where
  "ex_rule = \<lparr>rr_Matches = [ex_match], rr_Filters = [],
     rr_BackendRefs = [ex_backend ''none'' None, ex_backend ''api'' (Some 80)]\<rparr>"

definition ex_plain_rule :: HTTPRouteRule where
  "ex_plain_rule = \<lparr>rr_Matches = [], rr_Filters = [],
     rr_BackendRefs = [ex_backend ''web'' (Some 8080)]\<rparr>"

definition ex_route :: HTTPRoute where
  "ex_route = \<lparr>om_Name = ''route'', om_Namespace = ''default'', om_Generation = 7,
     hr_ParentRefs = [ex_ref], hr_Hostnames = [''*.example.com''],
     hr_Rules = [ex_rule, ex_plain_rule], hr_Status_Parents = []\<rparr>"

text \<open>A route one of whose backends is no service.\<close>

definition ex_bad_route :: HTTPRoute where
  "ex_bad_route = ex_route\<lparr>hr_Rules :=
     [ex_rule, ex_plain_rule\<lparr>rr_BackendRefs :=
        [(ex_backend ''lambda'' None)\<lparr>br_Kind := Some ''Function''\<rparr>]\<rparr>]\<rparr>"

definition ex_config_map :: ConfigMap where
  "ex_config_map = \<lparr>om_Name = ''ca'', om_Namespace = ''default'', om_Generation = 1,
     cm_Data = [''ca.crt'' \<mapsto> ''PEM''], cm_BinaryData = Map.empty\<rparr>"

definition ex_policy :: BackendTLSPolicy where
  "ex_policy = \<lparr>om_Name = ''tls'', om_Namespace = ''default'', om_Generation = 3,
     btp_TargetRefs = [\<lparr>tr_Group = '''', tr_Kind = ''Service'', tr_Name = ''api''\<rparr>],
     btp_CACertificateRefs = [\<lparr>tr_Group = '''', tr_Kind = ''ConfigMap'', tr_Name = ''ca''\<rparr>],
     btp_Hostname = ''api.internal'', btp_Status_Ancestors = []\<rparr>"

definition ex_service :: Service where
  "ex_service = \<lparr>om_Name = ''gari-proxy'', om_Namespace = ''default'', om_Generation = 1,
     svc_Ports = [], svc_Ingress_IPs = [''10.0.0.1'']\<rparr>"

definition ex_inputs :: build_inputs where
  "ex_inputs = \<lparr>bi_services = Map.empty, bi_policies = [], bi_configMaps = Map.empty\<rparr>"

definition ex_request :: "string \<Rightarrow> string \<Rightarrow> Request" where
  "ex_request host path = \<lparr>req_Host = host, req_Path = path, req_RawQuery = '''',
     req_Header = Map.empty, req_TLS = False\<rparr>"

definition answers :: "('a ObjectMeta_scheme) list \<Rightarrow> NamespacedName \<Rightarrow> 'a ObjectMeta_scheme get_result" where
  "answers objs k =
     (case find (\<lambda>o1. object_key o1 = k) objs of None \<Rightarrow> NotFound ''not found'' | Some o1 \<Rightarrow> Found o1)"

definition ex_cluster :: Cluster where
  "ex_cluster =
     \<lparr>get_HTTPRoute = answers [ex_route], get_Gateway = answers [ex_gateway],
      get_GatewayClass = answers [ex_class], get_Service = answers [ex_service],
      get_ConfigMap = answers [ex_config_map], get_BackendTLSPolicy = answers [ex_policy],
      put_HTTPRoute_status = Inr, put_Gateway_status = Inr, put_GatewayClass_status = Inr,
      put_BackendTLSPolicy_status = Inr\<rparr>"

definition ex_env :: Env where
  "ex_env =
     \<lparr>env_regexp = literal_engine, env_now = 100,
      env_range = (\<lambda>_ ks. sorted_list_of_set ks), env_cluster = ex_cluster,
      env_pem_type = (\<lambda>data. if data = ''PEM'' then Some ''CERTIFICATE'' else None)\<rparr>"

definition ex_world :: World where
  "ex_world = \<lparr>w_State = NewState, w_Proxy = NewProxy, w_Writes = []\<rparr>"

text \<open>A routing table: two prefix rules on one host, a rule without matches on every host.\<close>

definition ex_prefix :: "string \<Rightarrow> InternalMatch" where
  "ex_prefix v = \<lparr>im_Path = Some \<lparr>ipm_Type = PathMatchPathPrefix, ipm_Value = v\<rparr>, im_Headers = []\<rparr>"

definition ex_irule :: "InternalMatch list \<Rightarrow> string \<Rightarrow> InternalRule" where
  "ex_irule ms host =
     \<lparr>irule_Matches = ms,
      irule_Backend = Some \<lparr>ib_Host = host, ib_Port = 80, ib_AppProtocol = None, ib_TLSConfig = None\<rparr>,
      irule_Redirect = None, irule_Error = None\<rparr>"

definition ex_table :: "InternalRoute list" where
  "ex_table =
     [\<lparr>ir_Hostnames = [''*''], ir_Rules = [ex_irule [] ''web'']\<rparr>,
      \<lparr>ir_Hostnames = [''*.example.com''],
       ir_Rules = [ex_irule [ex_prefix ''/''] ''home'', ex_irule [ex_prefix ''/api''] ''api'']\<rparr>]"

text \<open>The same cluster, its status updates rejected.\<close>

definition ex_conflict_env :: Env where
  "ex_conflict_env = ex_env\<lparr>env_cluster := ex_cluster\<lparr>put_HTTPRoute_status := (\<lambda>_. Inl ''conflict'')\<rparr>\<rparr>"

lemmas ex_objects =
  ex_listener_def ex_gateway_def ex_ref_def ex_match_def ex_backend_def ex_rule_def
  ex_plain_rule_def ex_route_def ex_inputs_def ex_request_def

lemmas ex_surroundings = ex_env_def ex_cluster_def ex_world_def answers_def object_key_def

lemma ex_route_parts:
  "hr_Rules ex_route = [ex_rule, ex_plain_rule]" "om_Namespace ex_route = ''default''"
  "rr_BackendRefs ex_rule = [ex_backend ''none'' None, ex_backend ''api'' (Some 80)]"
  "rr_Filters ex_rule = []" "br_Port (ex_backend n p) = p"
  by (simp_all add: ex_route_def ex_rule_def ex_backend_def)

lemma ex_range_ok: "range_choice_ok ex_env"
  by (simp add: range_choice_ok_def ex_env_def)

lemma ex_route_complete: "route_complete ex_route"
  by (simp add: route_complete_def filters_complete_def ex_objects)

lemma ex_world_ok: "state_ok (w_State ex_world)" "routes_complete (w_State ex_world)"
  using state_ok_NewState by (simp_all add: ex_world_def routes_complete_def) (simp add: NewState_def)

lemma ex_route_found: "get_HTTPRoute (env_cluster ex_env) (NamespacedName ''default'' ''route'') = Found ex_route"
  by (simp add: ex_surroundings ex_route_def)

lemma ex_table_ranked: "ranked_routes ex_table" "ranked_routes (rev ex_table)"
  by (simp_all add: ranked_routes_def ex_table_def ex_irule_def ex_prefix_def ranked_def
      getPathMatchType_def)

lemma ex_table_best:
  "MatchRoute literal_engine ex_table (ex_request ''a.example.com'' ''/api/x'') =
     (Some (ex_irule [ex_prefix ''/api''] ''api''), Some (ex_prefix ''/api''))"
  "MatchRoute literal_engine (rev ex_table) (ex_request ''a.example.com'' ''/api/x'') =
     (Some (ex_irule [ex_prefix ''/api''] ''api''), Some (ex_prefix ''/api''))"
  by code_simp+

text \<open>The tables of the gateway with the good route, and with the bad one.\<close>

definition ex_built :: "HTTPRoute \<Rightarrow> InternalRoute list" where
  "ex_built hr =
     (case BuildInternalRoutes literal_engine 0 \<lparr>gs_Gateway = ex_gateway\<rparr>
             [\<lparr>hs_HTTPRoute = Some hr\<rparr>] ex_inputs ControllerName of
        Inr irs \<Rightarrow> irs | Inl _ \<Rightarrow> [])"

lemma ex_built_eq:
  assumes "route_complete hr"
  shows "BuildInternalRoutes literal_engine 0 \<lparr>gs_Gateway = ex_gateway\<rparr>
    [\<lparr>hs_HTTPRoute = Some hr\<rparr>] ex_inputs ControllerName = Inr (ex_built hr)"
proof -
  obtain irs where "BuildInternalRoutes literal_engine 0 \<lparr>gs_Gateway = ex_gateway\<rparr>
      [\<lparr>hs_HTTPRoute = Some hr\<rparr>] ex_inputs ControllerName = Inr irs"
    using BuildInternalRoutes_total [of "[\<lparr>hs_HTTPRoute = Some hr\<rparr>]"] assms
    by (fastforce simp: all_complete_def)
  then show ?thesis by (simp add: ex_built_def)
qed

lemma ex_bad_route_complete: "route_complete ex_bad_route"
  by (simp add: route_complete_def filters_complete_def ex_bad_route_def ex_objects)

lemma ex_attached: "attached literal_engine \<lparr>gs_Gateway = ex_gateway\<rparr> ex_listener ex_route"
  by code_simp

lemma ex_covers:
  "strip_port ''a.example.com:8080'' = ''a.example.com''"
  "hostnames_cover (hr_Hostnames ex_route) ''a.example.com''"
  "listener_serves ex_listener ''a.example.com''"
  by code_simp+

lemma ex_binds: "binds literal_engine \<lparr>gs_Gateway = ex_gateway\<rparr> ex_listener ex_route"
  by code_simp

lemma ex_bad_binds: "binds literal_engine \<lparr>gs_Gateway = ex_gateway\<rparr> ex_listener ex_bad_route"
  by code_simp

lemma ex_built_member:
  assumes "route_complete hr" "binds literal_engine \<lparr>gs_Gateway = ex_gateway\<rparr> ex_listener hr"
  shows "\<exists>ir. ir \<in> set (ex_built hr) \<and>
    built_from literal_engine 0 ex_inputs \<lparr>gs_Gateway = ex_gateway\<rparr> ex_listener hr ir"
  using BuildInternalRoutes_complete [OF ex_built_eq [OF assms(1)] _ _ _ _ assms(2),
      of "\<lparr>hs_HTTPRoute = Some hr\<rparr>"]
  by (auto simp: ex_gateway_def http_listener_def ex_listener_def api_consts)

end
