(* ===== verification/ProxyProperties.thy ===== *)
theory ProxyProperties
  imports Examples
begin

text \<open>
  The properties of \<^verbatim>\<open>pkg/proxy\<close>: which rule answers a request, where a redirect points,
  and when the connection to a backend is verified.
\<close>

lemma ranked_known_path: "ranked m \<Longrightarrow> known_path_type m"
  by (auto simp: ranked_def known_path_type_def)

text \<open>
  C6: when all path matches of the proxy's table are \<open>Exact\<close> or \<open>PathPrefix\<close> (\<open>ranked_routes\<close>; the
  schema also admits \<open>RegularExpression\<close>, for which the ranking breaks down), a request is answered
  by the most specific candidate of the table, and with 404 when there is none. The winner's redirect comes before its error, its error before its
  backend, and no less specific candidate is tried when the winner has none of them.
\<close>

theorem ServeHTTP_answers_most_specific:
  assumes "ranked_routes (px_routes p)"
  shows "candidates E (px_routes p) r = [] \<and> ServeHTTP E p r = not_found r \<or>
    (\<exists>rule m. (rule, m) \<in> set (candidates E (px_routes p) r) \<and>
      (\<forall>c \<in> set (candidates E (px_routes p) r). match_rank (snd c) \<le> match_rank m) \<and>
      ServeHTTP E p r =
        (case (irule_Redirect rule, irule_Error rule, irule_Backend rule) of
           (Some rd, _, _) \<Rightarrow> redirect r rd (Some m)
         | (None, Some e, _) \<Rightarrow> HTTPError (es_HTTPMessage e) (es_HTTPStatusCode e)
         | (None, None, Some b) \<Rightarrow> forward r b
         | (None, None, None) \<Rightarrow> not_found r))"
proof (cases "scan_best better_candidate (candidates E (px_routes p) r) None")
  case None
  then show ?thesis
    using scan_best_None_iff [of better_candidate] by (simp add: ServeHTTP_scan [OF assms])
next
  case (Some c)
  obtain rule m where c: "c = (rule, m)" by fastforce
  have ok: "\<forall>c \<in> set (candidates E (px_routes p) r). ranked (snd c)"
    using candidates_ranked [OF assms] by blast
  from cand_pref.scan_best_maximal [OF Some ok] c
  have max: "(rule, m) \<in> set (candidates E (px_routes p) r)"
      "\<forall>c \<in> set (candidates E (px_routes p) r). \<not> better_candidate c (rule, m)" by auto
  have top: "\<forall>c \<in> set (candidates E (px_routes p) r). match_rank (snd c) \<le> match_rank m"
  proof
    fix d assume d: "d \<in> set (candidates E (px_routes p) r)"
    with ok max have "known_path_type (snd d)" "known_path_type m" "\<not> better_match (snd d) m"
      using ranked_known_path by (auto simp: better_candidate_def)
    then show "match_rank (snd d) \<le> match_rank m" by (simp add: better_match_rank not_less)
  qed
  have "ServeHTTP E p r = answer rule m r"
    using Some c by (simp add: ServeHTTP_scan [OF assms])
  also have "\<dots> = (case (irule_Redirect rule, irule_Error rule, irule_Backend rule) of
           (Some rd, _, _) \<Rightarrow> redirect r rd (Some m)
         | (None, Some e, _) \<Rightarrow> HTTPError (es_HTTPMessage e) (es_HTTPStatusCode e)
         | (None, None, Some b) \<Rightarrow> forward r b
         | (None, None, None) \<Rightarrow> not_found r)"
    by (simp add: answer_def split: option.split)
  finally show ?thesis using max(1) top by blast
qed

theorem ServeHTTP_answers_most_specific_witness:
  "\<exists>rule m. (rule, m) \<in> set (candidates literal_engine ex_table (ex_request ''a.example.com'' ''/api/x'')) \<and>
     list_all (\<lambda>c. match_rank (snd c) \<le> match_rank m)
       (candidates literal_engine ex_table (ex_request ''a.example.com'' ''/api/x''))"
proof -
  let ?p = "\<lparr>px_routes = ex_table\<rparr>" and ?r = "ex_request ''a.example.com'' ''/api/x''"
  have "candidates literal_engine ex_table ?r \<noteq> []"
    using ex_table_best(1) by (auto simp: MatchRoute_scan [OF ex_table_ranked(1)] to_best_def)
  moreover have p: "px_routes ?p = ex_table" by simp
  then have "ranked_routes (px_routes ?p)" by (simp only: ex_table_ranked)
  ultimately show ?thesis
    using ServeHTTP_answers_most_specific [of ?p literal_engine ?r] unfolding p list_all_iff by blast
qed

section \<open>Redirects\<close>

lemma decimal_8443: "decimal 8443 = ''8443''"
  by (simp add: decimal_def decimal_nat.simps char_of_def bit_Suc_0_iff)

text \<open>
  C21: when the matched prefix does not end in a slash, \<open>ReplacePrefixMatch\<close> works by path element:
  the elements of the prefix are replaced by those of the new one and the rest of the path is
  kept. (For a prefix that ends in a slash see \<open>redirect_root_prefix_glues\<close>.)
\<close>

theorem redirect_prefix_elementwise:
  assumes "ird_Path rd = Some pr" "ipr_Type pr = PrefixMatchHTTPPathModifier"
    and "im_Path m = Some pm" "ipm_Type pm = PathMatchPathPrefix"
    and "last (''x'' @ ipm_Value pm) \<noteq> CHR ''/''"
    and "Matches E m (req_Path r) header"
  shows "path_elements (redirect_path r rd (Some m)) =
    path_elements (ipr_Value pr) @
    drop (length (path_elements (ipm_Value pm))) (path_elements (req_Path r))"
proof -
  have ne: "ipm_Value pm = [] \<or> last (ipm_Value pm) \<noteq> CHR ''/''"
    using assms(5) by (auto split: if_splits)
  have "hasPathPrefix (req_Path r) (ipm_Value pm)"
    using assms(3,4,6) by (auto simp: Matches_iff path_ok_def)
  then have pre: "prefix (path_elements (ipm_Value pm)) (path_elements (req_Path r))"
    using hasPathPrefix_elements [OF ne] by simp
  then obtain rest where "req_Path r = ipm_Value pm @ rest"
    by (auto simp: path_elements_prefix_iff)
  then have "redirect_path r rd (Some m) = ipr_Value pr @ drop (length (ipm_Value pm)) (req_Path r)"
    using redirect_path_prefix [OF assms(1-4)] by simp
  then show ?thesis using replace_prefix_elements [OF pre] by simp
qed

definition ex_redirect :: "string \<Rightarrow> InternalRedirect" where
  "ex_redirect v = \<lparr>ird_Scheme = None, ird_Hostname = None,
     ird_Path = Some \<lparr>ipr_Type = PrefixMatchHTTPPathModifier, ipr_Value = v\<rparr>,
     ird_Port = Some 8443, ird_StatusCode = None\<rparr>"

theorem redirect_prefix_elementwise_witness:
  "path_elements (redirect_path (ex_request ''a'' ''/old/x/y'') (ex_redirect ''/new'')
     (Some (ex_prefix ''/old''))) = ['''', ''new'', ''x'', ''y'']"
proof -
  have "Matches literal_engine (ex_prefix ''/old'') (req_Path (ex_request ''a'' ''/old/x/y'')) Map.empty"
    by code_simp
  from redirect_prefix_elementwise [OF _ _ _ _ _ this, of "ex_redirect ''/new''"
      "\<lparr>ipr_Type = PrefixMatchHTTPPathModifier, ipr_Value = ''/new''\<rparr>"
      "\<lparr>ipm_Type = PathMatchPathPrefix, ipm_Value = ''/old''\<rparr>"]
  show ?thesis by (simp add: ex_redirect_def ex_prefix_def ex_request_def)
qed

text \<open>
  With the prefix \<open>/\<close> (the API's default match) the slash between the new prefix and the
  rest of the path is lost: \<open>/foo\<close> with the prefix \<open>/\<close> replaced by \<open>/bar\<close> becomes \<open>/barfoo\<close>.
\<close>

theorem redirect_root_prefix_glues:
  assumes "ird_Path rd = Some pr" "ipr_Type pr = PrefixMatchHTTPPathModifier"
    and "im_Path m = Some pm" "ipm_Type pm = PathMatchPathPrefix" "ipm_Value pm = ''/''"
    and "req_Path r = CHR ''/'' # rest"
  shows "redirect_path r rd (Some m) = ipr_Value pr @ rest"
  using redirect_path_prefix [OF assms(1-4), of r rest] assms(5,6) by simp

theorem redirect_root_prefix_glues_witness:
  "redirect_path (ex_request ''a'' ''/foo'') (ex_redirect ''/bar'') (Some (ex_prefix ''/'')) = ''/barfoo''"
  using redirect_root_prefix_glues [of "ex_redirect ''/bar''"
      "\<lparr>ipr_Type = PrefixMatchHTTPPathModifier, ipr_Value = ''/bar''\<rparr>" "ex_prefix ''/''"
      "\<lparr>ipm_Type = PathMatchPathPrefix, ipm_Value = ''/''\<rparr>" "ex_request ''a'' ''/foo''" "''foo''"]
  by (simp add: ex_redirect_def ex_prefix_def ex_request_def)

text \<open>
  C22: a redirect with a non-zero port goes to that port, on the filter's hostname or, without one,
  on the host of the request (its own port removed), provided that the hostname used has no
  brackets and the filter's hostname no colon: the \<open>Host\<close> it produces splits into these two. (For
  an IPv6 literal in brackets see \<open>redirect_ipv6_double_brackets\<close>.)
\<close>

theorem redirect_host_and_port:
  assumes "ird_Port rd = Some port" "port \<noteq> 0"
    and "CHR '':'' \<notin> set (ValueOf '''' (ird_Hostname rd))"
    and "CHR ''['' \<notin> set (ValueOf '''' (ird_Hostname rd))"
    and "CHR '']'' \<notin> set (ValueOf '''' (ird_Hostname rd))"
    and "CHR ''['' \<notin> set (strip_port (req_Host r))" "CHR '']'' \<notin> set (strip_port (req_Host r))"
  shows "SplitHostPort (redirect_host r rd) =
    Inr (if ValueOf '''' (ird_Hostname rd) = '''' then strip_port (req_Host r)
         else ValueOf '''' (ird_Hostname rd), decimal (sint port))"
proof -
  let ?n = "ValueOf '''' (ird_Hostname rd)"
  have split: "SplitHostPort (JoinHostPort h (decimal (sint port))) = Inr (h, decimal (sint port))"
    if "CHR ''['' \<notin> set h" "CHR '']'' \<notin> set h" for h
    using that decimal_no_punct by (intro SplitHostPort_JoinHostPort) auto
  show ?thesis
  proof (cases "?n = ''''")
    case True
    have "redirect_host r rd = JoinHostPort (strip_port (req_Host r)) (decimal (sint port))"
      using True assms(1,2)
      by (simp add: redirect_host_def Let_def strip_port_def split: sum.split)
    with True split assms(6,7) show ?thesis by simp
  next
    case False
    have rejoin: "SplitHostPort (JoinHostPort ?n q) = Inr (?n, q)"
      if "SplitHostPort (req_Host r) = Inr (h, q)" for h q
      using SplitHostPort_port [OF that] assms(4,5) by (intro SplitHostPort_JoinHostPort) auto
    have "redirect_host r rd = JoinHostPort ?n (decimal (sint port))"
      using False assms(1,2) rejoin SplitHostPort_no_colon [OF assms(3)]
      by (auto simp: redirect_host_def Let_def split: sum.split)
    with False split assms(4,5) show ?thesis by simp
  qed
qed

theorem redirect_host_and_port_witness:
  "SplitHostPort (redirect_host (ex_request ''a.example.com:8080'' ''/'') (ex_redirect ''/'')) =
     Inr (''a.example.com'', ''8443'')"
proof -
  have s: "strip_port (req_Host (ex_request ''a.example.com:8080'' ''/'')) = ''a.example.com''"
    by (simp add: ex_request_def ex_covers(1))
  have "ird_Port (ex_redirect ''/'') = Some 8443" "ird_Hostname (ex_redirect ''/'') = None"
    by (simp_all add: ex_redirect_def)
  with redirect_host_and_port [of "ex_redirect ''/''" 8443 "ex_request ''a.example.com:8080'' ''/''"]
  show ?thesis by (simp add: s decimal_8443)
qed

text \<open>
  An IPv6 literal without a port in the \<open>Host\<close> header keeps its brackets when the port of
  the redirect is joined to it, and gets a second pair: \<open>[::1]\<close> becomes \<open>[[::1]]:8443\<close>.
\<close>

theorem redirect_ipv6_double_brackets:
  "redirect_host (ex_request ''[::1]'' ''/'') (ex_redirect ''/'') = ''[[::1]]:8443''"
  by (simp add: redirect_host_def Let_def SplitHostPort_def JoinHostPort_def decimal_8443
      ex_request_def ex_redirect_def)

section \<open>Connections to backends\<close>

text \<open>
  C20: the certificate of a backend is verified exactly when a TLS policy targets its service and
  the last such policy (in the order of the Go map) has a CA certificate reference that
  resolves to data. In every other case, a policy none of whose references resolves and an
  \<open>appProtocol\<close> of \<open>https\<close> without policy included, any certificate is accepted.
\<close>

theorem backend_verified_iff:
  "(\<exists>u c. forward r (build_backend B ns ref port) = Forwarded u (TLSTransport c) \<and>
      tcc_InsecureSkipVerify c = False) \<longleftrightarrow>
   (\<exists>p. last_policy B ns ref = Some p \<and>
      (\<exists>ca \<in> set (btp_CACertificateRefs p).
         ca_bytes (bi_configMaps B) (om_Namespace p) ca \<noteq> None))"
proof (cases "last_policy B ns ref")
  case None
  then show ?thesis
    by (auto simp: forward_TLS client_tls_config_def build_backend_policy(1))
next
  case (Some p)
  have "List.map_filter f xs \<noteq> [] \<longleftrightarrow> (\<exists>x \<in> set xs. f x \<noteq> None)" for f :: "TargetRef \<Rightarrow> string option" and xs
    by (induction xs) (auto simp: map_filter_simps split: option.split)
  with Some show ?thesis
    by (simp add: forward_TLS client_tls_config_def build_backend_policy)
qed

text \<open>
  A policy whose CA certificates cannot be found fails open: the backend is reached over
  TLS under the policy's server name, with verification switched off.
\<close>

theorem unresolved_policy_fails_open:
  assumes "last_policy B ns ref = Some p"
    and "\<forall>ca \<in> set (btp_CACertificateRefs p). ca_bytes (bi_configMaps B) (om_Namespace p) ca = None"
  shows "\<exists>u. url_Scheme u = ''https'' \<and> forward r (build_backend B ns ref port) =
    Forwarded u (TLSTransport \<lparr>tcc_InsecureSkipVerify = True, tcc_ServerName = btp_Hostname p,
                               tcc_RootCAs = None\<rparr>)"
proof -
  have "List.map_filter (ca_bytes (bi_configMaps B) (om_Namespace p)) (btp_CACertificateRefs p) = []"
    using assms(2) by (induction "btp_CACertificateRefs p") (auto simp: List.map_filter_def)
  with assms(1) show ?thesis
    by (simp add: forward_TLS client_tls_config_def build_backend_policy)
qed

theorem unresolved_policy_fails_open_witness:
  "\<exists>u. url_Scheme u = ''https'' \<and>
     forward (ex_request ''a'' ''/'') (build_backend (ex_inputs\<lparr>bi_policies := [ex_policy]\<rparr>)
       ''default'' (ex_backend ''api'' (Some 80)) 80) =
     Forwarded u (TLSTransport \<lparr>tcc_InsecureSkipVerify = True, tcc_ServerName = ''api.internal'',
                                tcc_RootCAs = None\<rparr>)"
proof -
  let ?B = "ex_inputs\<lparr>bi_policies := [ex_policy]\<rparr>"
  have "last_policy ?B ''default'' (ex_backend ''api'' (Some 80)) = Some ex_policy"
    by (simp add: last_policy_def service_namespace_def targeting_def policy_targets_def
        ex_backend_def ex_policy_def ex_inputs_def)
  moreover have "\<forall>ca \<in> set (btp_CACertificateRefs ex_policy).
      ca_bytes (bi_configMaps ?B) (om_Namespace ex_policy) ca = None"
    by (simp add: ca_bytes_def ex_inputs_def)
  ultimately show ?thesis
    using unresolved_policy_fails_open [of ?B "''default''" "ex_backend ''api'' (Some 80)" ex_policy
        "ex_request ''a'' ''/''" 80] by (simp add: ex_policy_def)
qed

end
