(* ===== verification/Manager.thy ===== *)
theory Manager
  imports RouteController GatewayController PolicyController
begin

text \<open>
  How the six reconcilers are registered with the controller manager
  (\<^verbatim>\<open>SetupWithManager\<close> of each file of \<^verbatim>\<open>pkg/controller\<close>), and the requests that
  the registrations make of a change: an event runs the handlers registered for the kind of its
  object, on the old object and on the new one.
\<close>

section \<open>The code\<close>

datatype kind =
  KindHTTPRoute | KindGatewayClass | KindGateway | KindService | KindBackendTLSPolicy | KindConfigMap

datatype api_object =
    HTTPRouteObject HTTPRoute
  | GatewayClassObject GatewayClass
  | GatewayObject Gateway
  | ServiceObject Service
  | BackendTLSPolicyObject BackendTLSPolicy
  | ConfigMapObject ConfigMap

fun kind_of :: "api_object \<Rightarrow> kind" where
  "kind_of (HTTPRouteObject _) = KindHTTPRoute"
| "kind_of (GatewayClassObject _) = KindGatewayClass"
| "kind_of (GatewayObject _) = KindGateway"
| "kind_of (ServiceObject _) = KindService"
| "kind_of (BackendTLSPolicyObject _) = KindBackendTLSPolicy"
| "kind_of (ConfigMapObject _) = KindConfigMap"

fun key_of :: "api_object \<Rightarrow> NamespacedName" where
  "key_of (HTTPRouteObject x) = object_key x"
| "key_of (GatewayClassObject x) = object_key x"
| "key_of (GatewayObject x) = object_key x"
| "key_of (ServiceObject x) = object_key x"
| "key_of (BackendTLSPolicyObject x) = object_key x"
| "key_of (ConfigMapObject x) = object_key x"

text \<open>The answer of the client's \<open>List\<close> of the policies of a namespace.\<close>

type_synonym lister = "string \<Rightarrow> string + BackendTLSPolicy list"

text \<open>
  What a reconciler registers: the kind it is \<open>For\<close>, the kinds it \<open>Watches\<close> with their map
  functions, and the \<open>Reconcile\<close> that completes it.
\<close>

type_synonym map_func = "lister \<Rightarrow> api_object \<Rightarrow> NamespacedName list panicking"

record registration =
  reg_For :: kind
  reg_Watches :: "(kind \<times> map_func) list"
  reg_Reconcile :: "Env \<Rightarrow> NamespacedName \<Rightarrow> World \<Rightarrow> call_result"

definition setup_HTTPRoute :: registration where
  "setup_HTTPRoute =
     \<lparr>reg_For = KindHTTPRoute, reg_Watches = [], reg_Reconcile = ReconcileHTTPRoute\<rparr>"

definition setup_GatewayClass :: registration where
  "setup_GatewayClass =
     \<lparr>reg_For = KindGatewayClass, reg_Watches = [], reg_Reconcile = ReconcileGatewayClass\<rparr>"

definition route_map_func :: map_func where
  "route_map_func listed obj =
     (case obj of HTTPRouteObject route \<Rightarrow> Inr (gateways_for_route route)
      | _ \<Rightarrow> Inl FailedTypeAssertion)"

definition setup_Gateway :: registration where
  "setup_Gateway =
     \<lparr>reg_For = KindGateway, reg_Watches = [(KindHTTPRoute, route_map_func)],
      reg_Reconcile = ReconcileGateway\<rparr>"

definition setup_Service :: registration where
  "setup_Service =
     \<lparr>reg_For = KindService, reg_Watches = [], reg_Reconcile = ReconcileService\<rparr>"

definition config_map_map_func :: map_func where
  "config_map_map_func listed obj =
     (case obj of ConfigMapObject cm \<Rightarrow> Inr (policies_for_config_map listed cm)
      | _ \<Rightarrow> Inl FailedTypeAssertion)"

definition setup_BackendTLSPolicy :: registration where
  "setup_BackendTLSPolicy =
     \<lparr>reg_For = KindBackendTLSPolicy, reg_Watches = [(KindConfigMap, config_map_map_func)],
      reg_Reconcile = ReconcileBackendTLSPolicy\<rparr>"

definition setup_ConfigMap :: registration where
  "setup_ConfigMap =
     \<lparr>reg_For = KindConfigMap, reg_Watches = [(KindBackendTLSPolicy, \<lambda>listed obj. Inr [])],
      reg_Reconcile = ReconcileConfigMap\<rparr>"

datatype reconciler =
    HTTPRouteReconciler
  | GatewayClassReconciler
  | GatewayReconciler
  | ServiceReconciler
  | BackendTLSPolicyReconciler
  | ConfigMapReconciler

fun SetupWithManager :: "reconciler \<Rightarrow> registration" where
  "SetupWithManager HTTPRouteReconciler = setup_HTTPRoute"
| "SetupWithManager GatewayClassReconciler = setup_GatewayClass"
| "SetupWithManager GatewayReconciler = setup_Gateway"
| "SetupWithManager ServiceReconciler = setup_Service"
| "SetupWithManager BackendTLSPolicyReconciler = setup_BackendTLSPolicy"
| "SetupWithManager ConfigMapReconciler = setup_ConfigMap"

lemmas setup_defs =
  setup_HTTPRoute_def setup_GatewayClass_def setup_Gateway_def setup_Service_def
  setup_BackendTLSPolicy_def setup_ConfigMap_def

definition kind_for :: "reconciler \<Rightarrow> kind" where
  "kind_for c = reg_For (SetupWithManager c)"

section \<open>Events and requests\<close>

text \<open>The requests that the handlers of one controller make for an object of an event.\<close>

definition handlers_ask :: "lister \<Rightarrow> registration \<Rightarrow> api_object \<Rightarrow> NamespacedName list panicking" where
  "handlers_ask listed reg obj =
     bind_result
       (concat_result (\<lambda>(k, f). f listed obj) (filter (\<lambda>(k, f). k = kind_of obj) (reg_Watches reg)))
       (\<lambda>watched. Inr ((if kind_of obj = reg_For reg then [key_of obj] else []) @ watched))"

definition all_reconcilers :: "reconciler list" where
  "all_reconcilers =
     [HTTPRouteReconciler, GatewayClassReconciler, GatewayReconciler, ServiceReconciler,
      BackendTLSPolicyReconciler, ConfigMapReconciler]"

type_synonym request = "reconciler \<times> NamespacedName"

definition dispatch :: "lister \<Rightarrow> api_object list \<Rightarrow> request list panicking" where
  "dispatch listed objs =
     concat_result (\<lambda>obj.
       concat_result (\<lambda>c.
         bind_result (handlers_ask listed (SetupWithManager c) obj) (\<lambda>ks. Inr (map (Pair c) ks)))
       all_reconcilers) objs"

type_synonym objects = "kind \<times> NamespacedName \<rightharpoonup> api_object"
type_synonym object_change = "(api_object, kind \<times> NamespacedName) store_op"

abbreviation obj_id :: "api_object \<Rightarrow> kind \<times> NamespacedName" where
  "obj_id obj \<equiv> (kind_of obj, key_of obj)"

definition change_objects :: "object_change \<Rightarrow> objects \<Rightarrow> objects" where
  "change_objects c objs = objs(op_key obj_id c := op_value (\<lambda>x. x) c)"

text \<open>The objects that the event of a change carries: the new one and the old one.\<close>

definition event_objects :: "object_change \<Rightarrow> objects \<Rightarrow> api_object list" where
  "event_objects c objs =
     (case c of Put obj \<Rightarrow> [obj] | Remove _ \<Rightarrow> []) @
     (case objs (op_key obj_id c) of None \<Rightarrow> [] | Some old \<Rightarrow> [old])"

text \<open>
  The client reads the cache, or fails; a status update that succeeds answers with the object,
  its metadata and specification unchanged.
\<close>

fun reads :: "('a \<Rightarrow> api_object) \<Rightarrow> api_object option \<Rightarrow> 'a get_result \<Rightarrow> bool" where
  "reads wrap cached (Found x) \<longleftrightarrow> cached = Some (wrap x)"
| "reads wrap cached (NotFound _) \<longleftrightarrow> cached = None"
| "reads wrap cached (GetFailed _) \<longleftrightarrow> True"

definition route_spec :: "HTTPRoute \<Rightarrow> HTTPRoute" where
  "route_spec r = r\<lparr>hr_Status_Parents := []\<rparr>"

definition gateway_spec :: "Gateway \<Rightarrow> Gateway" where
  "gateway_spec gw = set_gateway_status ([], [], []) gw"

definition policy_spec :: "BackendTLSPolicy \<Rightarrow> BackendTLSPolicy" where
  "policy_spec p = p\<lparr>btp_Status_Ancestors := []\<rparr>"

definition client_reads :: "objects \<Rightarrow> Cluster \<Rightarrow> bool" where
  "client_reads objs C \<longleftrightarrow>
     (\<forall>k. reads HTTPRouteObject (objs (KindHTTPRoute, k)) (get_HTTPRoute C k) \<and>
          reads GatewayObject (objs (KindGateway, k)) (get_Gateway C k) \<and>
          reads GatewayClassObject (objs (KindGatewayClass, k)) (get_GatewayClass C k) \<and>
          reads ServiceObject (objs (KindService, k)) (get_Service C k) \<and>
          reads ConfigMapObject (objs (KindConfigMap, k)) (get_ConfigMap C k) \<and>
          reads BackendTLSPolicyObject (objs (KindBackendTLSPolicy, k)) (get_BackendTLSPolicy C k))"

definition keeps_specs :: "Cluster \<Rightarrow> bool" where
  "keeps_specs C \<longleftrightarrow>
     (\<forall>x y. put_HTTPRoute_status C x = Inr y \<longrightarrow> route_spec y = route_spec x) \<and>
     (\<forall>x y. put_Gateway_status C x = Inr y \<longrightarrow> gateway_spec y = gateway_spec x) \<and>
     (\<forall>x y. put_BackendTLSPolicy_status C x = Inr y \<longrightarrow> policy_spec y = policy_spec x)"

definition surroundings_ok :: "regexp_engine \<Rightarrow> objects \<Rightarrow> Env \<Rightarrow> bool" where
  "surroundings_ok E objs V \<longleftrightarrow>
     env_regexp V = E \<and> range_choice_ok V \<and> client_reads objs (env_cluster V) \<and>
     keeps_specs (env_cluster V)"

section \<open>Requests\<close>

lemma kind_for_simps [simp]:
  "kind_for HTTPRouteReconciler = KindHTTPRoute" "kind_for GatewayClassReconciler = KindGatewayClass"
  "kind_for GatewayReconciler = KindGateway" "kind_for ServiceReconciler = KindService"
  "kind_for BackendTLSPolicyReconciler = KindBackendTLSPolicy"
  "kind_for ConfigMapReconciler = KindConfigMap"
  by (simp_all add: kind_for_def setup_defs)

lemma kind_for_inj: "kind_for c = kind_for d \<longleftrightarrow> c = d"
  by (cases c; cases d) simp_all

lemma set_all_reconcilers: "set all_reconcilers = UNIV"
proof -
  have "c \<in> set all_reconcilers" for c by (cases c) (simp_all add: all_reconcilers_def)
  then show ?thesis by blast
qed

text \<open>What each controller asks for, with the map functions resolved.\<close>

definition also_asked :: "lister \<Rightarrow> reconciler \<Rightarrow> api_object \<Rightarrow> NamespacedName list" where
  "also_asked listed c obj =
     (case (c, obj) of
        (GatewayReconciler, HTTPRouteObject route) \<Rightarrow> gateways_for_route route
      | (BackendTLSPolicyReconciler, ConfigMapObject cm) \<Rightarrow> policies_for_config_map listed cm
      | _ \<Rightarrow> [])"

lemma handlers_ask_eq:
  "handlers_ask listed (SetupWithManager c) obj =
     Inr ((if kind_of obj = kind_for c then [key_of obj] else []) @ also_asked listed c obj)"
  by (cases c; cases obj)
    (simp_all add: handlers_ask_def also_asked_def setup_defs route_map_func_def config_map_map_func_def)

lemma dispatch_eq:
  "dispatch listed objs =
     Inr (concat (map (\<lambda>obj. concat (map (\<lambda>c. map (Pair c)
       ((if kind_of obj = kind_for c then [key_of obj] else []) @ also_asked listed c obj))
       all_reconcilers)) objs))"
  unfolding dispatch_def
  by (intro concat_result_cong_pure) (simp only: handlers_ask_eq bind_result_simps)

lemma dispatch_iff:
  "dispatch listed objs = Inr reqs \<Longrightarrow>
     (c, k) \<in> set reqs \<longleftrightarrow>
     (\<exists>obj \<in> set objs. kind_of obj = kind_for c \<and> key_of obj = k \<or> k \<in> set (also_asked listed c obj))"
  by (auto simp: dispatch_eq set_all_reconcilers image_iff split: if_splits) blast+

end
