(* ===== verification/StoreProperties.thy ===== *)
theory StoreProperties
  imports Manager
begin

text \<open>
  The state as one store: upserts and deletes of objects of all kinds, mixed, against the last
  operation on a name of a kind.
\<close>

text \<open>The operation of the state for a change of one object; classes are not stored.\<close>

fun state_op :: "regexp_engine \<Rightarrow> Time \<Rightarrow> object_change \<Rightarrow> State \<Rightarrow> State" where
  "state_op E now (Put (HTTPRouteObject route)) st = snd (UpsertHTTPRoute E now route st)"
| "state_op E now (Put (GatewayObject gw)) st = UpsertGateway gw st"
| "state_op E now (Put (BackendTLSPolicyObject p)) st = UpsertBackendTLSPolicy p st"
| "state_op E now (Put (ServiceObject svc)) st = UpsertService svc st"
| "state_op E now (Put (ConfigMapObject cm)) st = UpsertConfigMap cm st"
| "state_op E now (Put (GatewayClassObject gc)) st = st"
| "state_op E now (Remove (KindHTTPRoute, k)) st = DeleteHTTPRoute k st"
| "state_op E now (Remove (KindGateway, k)) st = DeleteGateway k st"
| "state_op E now (Remove (KindBackendTLSPolicy, k)) st = DeleteBackendTLSPolicy k st"
| "state_op E now (Remove (KindService, k)) st = DeleteService k st"
| "state_op E now (Remove (KindConfigMap, k)) st = DeleteConfigMap k st"
| "state_op E now (Remove (KindGatewayClass, k)) st = st"

definition last_written :: "object_change list \<Rightarrow> kind \<Rightarrow> NamespacedName \<Rightarrow> api_object option" where
  "last_written ops kd k = Option.bind (last_op obj_id (kd, k) ops) (op_value (\<lambda>x. x))"

lemma last_written_Nil: "last_written [] kd k = None"
  by (simp add: last_written_def last_op_def)

lemma last_written_snoc:
  "last_written (ops @ [c]) kd k =
     (if op_key obj_id c = (kd, k) then op_value (\<lambda>x. x) c else last_written ops kd k)"
  by (simp add: last_written_def last_op_def)

text \<open>
  C23: the state is last-writer-wins for every kind of object: after any sequence of upserts and
  deletes of routes, gateways, policies, services and config maps, mixed in any order, from the
  empty state, each of the five maps holds under a key the object of the last upsert of its kind
  under that key, and nothing when the last operation of its kind on the key was a delete or
  there was none. In particular no operation touches another map or another key, and the route
  pointers are never nil.
\<close>

theorem state_last_write_wins:
  defines "run \<equiv> \<lambda>E now ops. fold (state_op E now) ops NewState"
  shows "map_option (\<lambda>rs. map_option HTTPRouteObject (hs_HTTPRoute rs)) (st_httpRoutes (run E now ops) k) =
      map_option Some (last_written ops KindHTTPRoute k) \<and>
    map_option (\<lambda>gs. GatewayObject (gs_Gateway gs)) (st_gateways (run E now ops) k) =
      last_written ops KindGateway k \<and>
    map_option BackendTLSPolicyObject (st_backendTLSPolicies (run E now ops) k) =
      last_written ops KindBackendTLSPolicy k \<and>
    map_option ServiceObject (GetService k (run E now ops)) = last_written ops KindService k \<and>
    map_option ConfigMapObject (st_configMaps (run E now ops) k) = last_written ops KindConfigMap k"
proof (induction ops rule: rev_induct)
  case Nil
  show ?case by (simp add: run_def NewState_def GetService_def last_written_Nil)
next
  case (snoc c ops)
  have step: "run E now (ops @ [c]) = state_op E now c (run E now ops)" by (simp add: run_def)
  show ?case
  proof (cases c)
    case (Put obj)
    with snoc.IH show ?thesis
      unfolding step last_written_snoc GetService_def
      by (cases obj) (simp_all add: UpsertGateway_def store_HTTPRoute_def UpsertBackendTLSPolicy_def
          UpsertService_def UpsertConfigMap_def object_key_def)
  next
    case (Remove id)
    obtain kd j where id: "id = (kd, j)" by (cases id)
    from snoc.IH show ?thesis
      unfolding step last_written_snoc GetService_def
      unfolding Remove id
      by (cases kd) (simp_all add: DeleteGateway_def DeleteHTTPRoute_def DeleteBackendTLSPolicy_def
          DeleteService_def DeleteConfigMap_def)
  qed
qed

end
