(* ===== verification/Concurrency.thy ===== *)
theory Concurrency
  imports Controllers
begin

text \<open>
  \<open>updateProxy\<close> (\<^verbatim>\<open>pkg/controller/utils.go\<close>) as the reconcilers run it side by side: each
  getter holds the state's mutex for its own duration only, so a call is five locked reads
  followed by one locked \<open>UpdateRoutes\<close>, and anything may happen in between. A point of the call
  is what it has read so far. The orders in which maps are ranged over are chosen at each read.
\<close>

section \<open>The steps\<close>

datatype update_pc =
    AtGateways
  | AtRoutes "GatewayState list"
  | AtServices "GatewayState list" "HTTPRouteState list"
  | AtPolicies "GatewayState list" "HTTPRouteState list" "NamespacedName \<rightharpoonup> Service"
  | AtConfigMaps "GatewayState list" "HTTPRouteState list" "NamespacedName \<rightharpoonup> Service"
      "BackendTLSPolicy list"
  | AtPublish "GatewayState list" "HTTPRouteState list" build_inputs

definition table_of ::
    "regexp_engine \<Rightarrow> Time \<Rightarrow> GatewayState list \<Rightarrow> HTTPRouteState list \<Rightarrow> build_inputs \<Rightarrow>
     InternalRoute list panicking" where
  "table_of E now gateways routes B =
     concat_result (\<lambda>gw. BuildInternalRoutes E now gw routes B ControllerName) gateways"

inductive update_read :: "State \<Rightarrow> update_pc \<Rightarrow> update_pc \<Rightarrow> bool" for st where
  read_gateways:
    "range_order (st_gateways st) ks \<Longrightarrow>
     update_read st AtGateways (AtRoutes (GetGateways ks st))"
| read_routes:
    "range_order (st_httpRoutes st) ks \<Longrightarrow>
     update_read st (AtRoutes gws) (AtServices gws (GetHTTPRoutes ks st))"
| read_services:
    "range_order (st_services st) ks \<Longrightarrow>
     update_read st (AtServices gws rs) (AtPolicies gws rs (GetServices ks st))"
| read_policies:
    "range_order (st_backendTLSPolicies st) ks \<Longrightarrow>
     update_read st (AtPolicies gws rs svcs)
       (AtConfigMaps gws rs svcs (GetBackendTLSPolicies ks st))"
| read_config_maps:
    "range_order (st_configMaps st) ks \<Longrightarrow>
     update_read st (AtConfigMaps gws rs svcs ps)
       (AtPublish gws rs \<lparr>bi_services = svcs, bi_policies = ps, bi_configMaps = GetConfigMaps ks st\<rparr>)"

inductive_cases update_read_cases: "update_read st pc pc'"

section \<open>Fresh snapshots\<close>

text \<open>What a call has read is what the state holds now.\<close>

definition fresh_gateways :: "State \<Rightarrow> GatewayState list \<Rightarrow> bool" where
  "fresh_gateways st gws \<longleftrightarrow> (\<exists>ks. range_order (st_gateways st) ks \<and> gws = GetGateways ks st)"

definition fresh_routes :: "State \<Rightarrow> HTTPRouteState list \<Rightarrow> bool" where
  "fresh_routes st rs \<longleftrightarrow> (\<exists>ks. range_order (st_httpRoutes st) ks \<and> rs = GetHTTPRoutes ks st)"

definition fresh_policies :: "State \<Rightarrow> BackendTLSPolicy list \<Rightarrow> bool" where
  "fresh_policies st ps \<longleftrightarrow>
     (\<exists>ks. range_order (st_backendTLSPolicies st) ks \<and> ps = GetBackendTLSPolicies ks st)"

fun fresh :: "State \<Rightarrow> update_pc \<Rightarrow> bool" where
  "fresh st AtGateways = True"
| "fresh st (AtRoutes gws) = fresh_gateways st gws"
| "fresh st (AtServices gws rs) = (fresh_gateways st gws \<and> fresh_routes st rs)"
| "fresh st (AtPolicies gws rs svcs) =
     (fresh_gateways st gws \<and> fresh_routes st rs \<and> svcs = st_services st)"
| "fresh st (AtConfigMaps gws rs svcs ps) =
     (fresh_gateways st gws \<and> fresh_routes st rs \<and> svcs = st_services st \<and> fresh_policies st ps)"
| "fresh st (AtPublish gws rs B) =
     (fresh_gateways st gws \<and> fresh_routes st rs \<and> bi_services B = st_services st \<and>
      fresh_policies st (bi_policies B) \<and> bi_configMaps B = st_configMaps st)"

lemma update_read_fresh: "update_read st pc pc' \<Longrightarrow> fresh st pc \<Longrightarrow> fresh st pc'"
  by (induction rule: update_read.induct)
    (auto simp: fresh_gateways_def fresh_routes_def fresh_policies_def
      GetServices_copy GetConfigMaps_copy)

text \<open>The proxy serves a table built from the state in the world.\<close>

definition serves_state :: "regexp_engine \<Rightarrow> World \<Rightarrow> bool" where
  "serves_state E w \<longleftrightarrow> (\<exists>V i. range_choice_ok V \<and> env_regexp V = E \<and> proxy_current V i w)"

text \<open>
  A choice of orders that has given one for each of the five maps: the reads of a call that was
  not disturbed are those of the sequential \<open>updateProxy\<close>.
\<close>

definition orders :: "(nat \<Rightarrow> NamespacedName list) \<Rightarrow> nat \<Rightarrow> NamespacedName set \<Rightarrow> NamespacedName list" where
  "orders ks i S = (if set (ks i) = S \<and> distinct (ks i) then ks i else sorted_list_of_set S)"

lemma orders_ok: "finite S \<Longrightarrow> distinct (orders ks i S) \<and> set (orders ks i S) = S"
  by (simp add: orders_def)

lemma orders_range: "range_order m (ks i) \<Longrightarrow> orders ks i (dom m) = ks i"
  by (simp add: orders_def range_order_def)

lemma fresh_table:
  assumes "fresh st (AtPublish gws rs B)" "table_of E now gws rs B = Inr table" "state_ok st"
  shows "\<exists>V i. range_choice_ok V \<and> env_regexp V = E \<and> proxy_table V i st = Inr table"
proof -
  obtain kg kr kp where g: "range_order (st_gateways st) kg" "gws = GetGateways kg st"
    and r: "range_order (st_httpRoutes st) kr" "rs = GetHTTPRoutes kr st"
    and p: "range_order (st_backendTLSPolicies st) kp" "bi_policies B = GetBackendTLSPolicies kp st"
    and maps: "bi_services B = st_services st" "bi_configMaps B = st_configMaps st"
    using assms(1) by (auto simp: fresh_gateways_def fresh_routes_def fresh_policies_def)
  obtain kv kc where v: "range_order (st_services st) kv" and c: "range_order (st_configMaps st) kc"
    using range_order_exists [OF state_ok_finite(4) [OF assms(3)]]
      range_order_exists [OF state_ok_finite(5) [OF assms(3)]] by blast
  let ?ks = "\<lambda>i. [kg, kr, kv, kp, kc] ! i"
  let ?V = "\<lparr>env_regexp = E, env_now = now, env_range = orders ?ks, env_cluster = undefined,
    env_pem_type = Map.empty\<rparr>"
  have each: "orders ?ks 0 (dom (st_gateways st)) = kg"
    "orders ?ks (Suc 0) (dom (st_httpRoutes st)) = kr" "orders ?ks (Suc (Suc 0)) (dom (st_services st)) = kv"
    "orders ?ks 3 (dom (st_backendTLSPolicies st)) = kp" "orders ?ks 4 (dom (st_configMaps st)) = kc"
    using g(1) r(1) p(1) v c by (simp_all add: orders_range)
  have "snapshot_inputs ?V 0 st = B"
    using maps p(2) by (cases B) (simp add: snapshot_inputs_def each GetServices_copy [OF v] GetConfigMaps_copy [OF c])
  then have "proxy_table ?V 0 st = Inr table"
    using assms(2) g(2) r(2) by (simp add: proxy_table_def table_of_def Let_def each)
  moreover have "range_choice_ok ?V" by (simp add: range_choice_ok_def orders_ok)
  ultimately show ?thesis by (intro exI [of _ ?V] exI [of _ "0 :: nat"]) simp
qed

lemma publish_serves:
  assumes "fresh (w_State w) (AtPublish gws rs B)" "table_of E now gws rs B = Inr table"
    and "state_ok (w_State w)"
  shows "serves_state E (w\<lparr>w_Proxy := UpdateRoutes table (w_Proxy w)\<rparr>)"
  using fresh_table [OF assms] by (simp add: serves_state_def proxy_current_def UpdateRoutes_def)

section \<open>An update that runs\<close>

text \<open>The routes of a snapshot pass the CRD schema when those of the state did at the read.\<close>

fun pc_complete :: "update_pc \<Rightarrow> bool" where
  "pc_complete (AtServices gws rs) = all_complete rs"
| "pc_complete (AtPolicies gws rs svcs) = all_complete rs"
| "pc_complete (AtConfigMaps gws rs svcs ps) = all_complete rs"
| "pc_complete (AtPublish gws rs B) = all_complete rs"
| "pc_complete pc = True"

lemma update_read_complete:
  "update_read st pc pc' \<Longrightarrow> state_ok st \<Longrightarrow> routes_complete st \<Longrightarrow> pc_complete pc \<Longrightarrow> pc_complete pc'"
  by (induction rule: update_read.induct) (simp_all add: GetHTTPRoutes_all_complete)

lemma complete_table:
  assumes "all_complete rs"
  obtains table where "table_of E now gws rs B = Inr table"
  using that concat_result_total [of gws "\<lambda>gw. BuildInternalRoutes E now gw rs B ControllerName"]
    BuildInternalRoutes_total [OF assms] unfolding table_of_def by blast

text \<open>From every point the remaining reads can be taken.\<close>

lemma reads_finish:
  assumes "state_ok st"
  shows "\<exists>gws rs B. (update_read st)\<^sup>*\<^sup>* pc (AtPublish gws rs B)"
proof -
  note orders = range_order_exists [OF state_ok_finite(1) [OF assms]]
    range_order_exists [OF state_ok_finite(2) [OF assms]]
    range_order_exists [OF state_ok_finite(3) [OF assms]]
    range_order_exists [OF state_ok_finite(4) [OF assms]]
    range_order_exists [OF state_ok_finite(5) [OF assms]]
  note step = converse_rtranclp_into_rtranclp [of "update_read st"]
  have 5: "\<exists>gws rs B. (update_read st)\<^sup>*\<^sup>* (AtPublish g r b) (AtPublish gws rs B)" for g r b by blast
  have 4: "\<exists>gws rs B. (update_read st)\<^sup>*\<^sup>* (AtConfigMaps g r v p) (AtPublish gws rs B)" for g r v p
    using 5 step [OF read_config_maps] orders by metis
  have 3: "\<exists>gws rs B. (update_read st)\<^sup>*\<^sup>* (AtPolicies g r v) (AtPublish gws rs B)" for g r v
    using 4 step [OF read_policies] orders by metis
  have 2: "\<exists>gws rs B. (update_read st)\<^sup>*\<^sup>* (AtServices g r) (AtPublish gws rs B)" for g r
    using 3 step [OF read_services] orders by metis
  have 1: "\<exists>gws rs B. (update_read st)\<^sup>*\<^sup>* (AtRoutes g) (AtPublish gws rs B)" for g
    using 2 step [OF read_routes] orders by metis
  have 0: "\<exists>gws rs B. (update_read st)\<^sup>*\<^sup>* AtGateways (AtPublish gws rs B)"
    using 1 step [OF read_gateways] orders by metis
  show ?thesis by (cases pc) (use 0 1 2 3 4 5 in auto)
qed

lemma reads_fresh: "(update_read st)\<^sup>*\<^sup>* pc pc' \<Longrightarrow> fresh st pc \<Longrightarrow> fresh st pc'"
  by (induction rule: rtranclp_induct) (auto intro: update_read_fresh)

lemma reads_complete:
  "(update_read st)\<^sup>*\<^sup>* pc pc' \<Longrightarrow> state_ok st \<Longrightarrow> routes_complete st \<Longrightarrow> pc_complete pc \<Longrightarrow> pc_complete pc'"
  by (induction rule: rtranclp_induct) (auto intro: update_read_complete)

text \<open>
  The sequential \<open>updateProxy\<close> of the reconcilers is the run of the steps with nothing in
  between.
\<close>

lemma updateProxy_reads:
  assumes "range_choice_ok V" "state_ok (w_State w)" "updateProxy V k w = (Inr (), w')"
  obtains gws rs B table where "(update_read (w_State w))\<^sup>*\<^sup>* AtGateways (AtPublish gws rs B)"
    "table_of (env_regexp V) (env_now V) gws rs B = Inr table"
    "w' = w\<lparr>w_Proxy := UpdateRoutes table (w_Proxy w)\<rparr>"
proof -
  let ?st = "w_State w"
  note order = range_choice_order [OF assms(1)] and fin = state_ok_finite [OF assms(2)]
  let ?gws = "GetGateways (env_range V k (dom (st_gateways ?st))) ?st"
  let ?rs = "GetHTTPRoutes (env_range V (k + 1) (dom (st_httpRoutes ?st))) ?st"
  let ?B = "snapshot_inputs V k ?st"
  have "(update_read ?st)\<^sup>*\<^sup>* AtGateways (AtPublish ?gws ?rs ?B)"
    unfolding snapshot_inputs_def
    by (rule converse_rtranclp_into_rtranclp, rule read_gateways [OF order [OF fin(1)]],
        rule converse_rtranclp_into_rtranclp, rule read_routes [OF order [OF fin(2)]],
        rule converse_rtranclp_into_rtranclp, rule read_services [OF order [OF fin(4)]],
        rule converse_rtranclp_into_rtranclp, rule read_policies [OF order [OF fin(3)]],
        rule r_into_rtranclp, rule read_config_maps [OF order [OF fin(5)]])
  moreover obtain table where t: "proxy_table V k ?st = Inr table"
    and w': "w' = w\<lparr>w_Proxy := UpdateRoutes table (w_Proxy w)\<rparr>"
    using assms(3) by (auto simp: updateProxy_def split: sum.splits)
  moreover from t have "table_of (env_regexp V) (env_now V) ?gws ?rs ?B = Inr table"
    by (simp add: table_of_def proxy_table_def Let_def)
  ultimately show thesis using that w' by blast
qed

end
