(* ===== verification/Steps.thy ===== *)
theory Steps
  imports Manager Concurrency
begin

text \<open>
  The reconcilers step by step. The six controllers run side by side, each with one worker; a
  step is one call of the client, one operation on the state (which holds its mutex for that
  operation), one assignment to an object that the state shares, or one reading of the clock.
  What a call is left with after a step is a \<open>front\<close>, up to its return or its call of
  \<open>updateProxy\<close>, after which every reconciler returns nil. Taken without interruption the steps
  are the reconcilers as functions (\<open>call_alone_reconcile\<close>).
\<close>

section \<open>Calls as steps\<close>

datatype front =
    Reply Outcome
  | Crash go_panic
  | UpdateProxy
  | Step "Env \<Rightarrow> World \<Rightarrow> World" "Env \<Rightarrow> World \<Rightarrow> front"

text \<open>
  The kinds of steps: a \<open>Get\<close> of the client, a status update, a reading of the clock, a read and
  a write of the state.
\<close>

definition fetch :: "(Cluster \<Rightarrow> 'a) \<Rightarrow> ('a \<Rightarrow> front) \<Rightarrow> front" where
  "fetch get k = Step (\<lambda>V w. w) (\<lambda>V w. k (get (env_cluster V)))"

definition put_status :: "api_write \<Rightarrow> (Cluster \<Rightarrow> 'a) \<Rightarrow> ('a \<Rightarrow> front) \<Rightarrow> front" where
  "put_status written put k =
     Step (\<lambda>V w. w\<lparr>w_Writes := w_Writes w @ [written]\<rparr>) (\<lambda>V w. k (put (env_cluster V)))"

definition clock :: "(Time \<Rightarrow> front) \<Rightarrow> front" where
  "clock k = Step (\<lambda>V w. w) (\<lambda>V w. k (env_now V))"

definition look :: "(Env \<Rightarrow> State \<Rightarrow> 'a) \<Rightarrow> ('a \<Rightarrow> front) \<Rightarrow> front" where
  "look get k = Step (\<lambda>V w. w) (\<lambda>V w. k (get V (w_State w)))"

definition change :: "(Env \<Rightarrow> State \<Rightarrow> 'a \<times> State) \<Rightarrow> ('a \<Rightarrow> front) \<Rightarrow> front" where
  "change f k =
     Step (\<lambda>V w. w\<lparr>w_State := snd (f V (w_State w))\<rparr>) (\<lambda>V w. k (fst (f V (w_State w))))"

lemmas step_defs = fetch_def put_status_def clock_def look_def change_def

definition store_then :: "(State \<Rightarrow> State) \<Rightarrow> front \<Rightarrow> front" where
  "store_then f p = change (\<lambda>V st. ((), f st)) (\<lambda>_. p)"

section \<open>The reconcilers\<close>

definition Service_steps :: "NamespacedName \<Rightarrow> front" where
  "Service_steps req =
     fetch (\<lambda>C. get_Service C req) (\<lambda>r.
       case r of
         NotFound _ \<Rightarrow> store_then (DeleteService req) UpdateProxy
       | GetFailed err \<Rightarrow> Reply (failed err)
       | Found svc \<Rightarrow> store_then (UpsertService svc) UpdateProxy)"

definition ConfigMap_steps :: "NamespacedName \<Rightarrow> front" where
  "ConfigMap_steps req =
     fetch (\<lambda>C. get_ConfigMap C req) (\<lambda>r.
       case r of
         NotFound _ \<Rightarrow> store_then (DeleteConfigMap req) UpdateProxy
       | GetFailed err \<Rightarrow> Reply (failed err)
       | Found cm \<Rightarrow> store_then (UpsertConfigMap cm) UpdateProxy)"

definition GatewayClass_steps :: "NamespacedName \<Rightarrow> front" where
  "GatewayClass_steps req =
     fetch (\<lambda>C. get_GatewayClass C req) (\<lambda>r.
       case r of
         NotFound _ \<Rightarrow> Reply done_ok
       | GetFailed err \<Rightarrow> Reply (failed err)
       | Found gc \<Rightarrow>
           if gc_ControllerName gc \<noteq> ControllerName then Reply done_ok
           else if class_updated (gc_Status_Conditions gc) (class_conditions gc) then
             clock (\<lambda>now.
               let gc1 = gc\<lparr>gc_Status_Conditions := stamp now (class_conditions gc)\<rparr> in
               put_status (WriteGatewayClass gc1) (\<lambda>C. put_GatewayClass_status C gc1) (\<lambda>answer.
                 case answer of Inl err \<Rightarrow> Reply (failed err) | Inr _ \<Rightarrow> Reply done_ok))
           else Reply done_ok)"

definition report_Gateway_steps :: "Gateway \<Rightarrow> string \<Rightarrow> front" where
  "report_Gateway_steps gw ip =
     look (\<lambda>V st. GetHTTPRoutes (env_range V 0 (dom (st_httpRoutes st))) st) (\<lambda>routes.
     clock (\<lambda>now.
       case map_result (listener_status now gw routes) (gw_Listeners gw) of
         Inl panic \<Rightarrow> Crash panic
       | Inr newListenerStatuses \<Rightarrow>
           (let newConditions = gateway_conditions gw;
                newAddresses = gateway_addresses ip
            in
            if gateway_updated (gateway_status_of gw)
                 (newConditions, newAddresses, newListenerStatuses) then
              (let gw1 = set_gateway_status
                     (stamp now newConditions, newAddresses, newListenerStatuses) gw
               in put_status (WriteGateway gw1) (\<lambda>C. put_Gateway_status C gw1) (\<lambda>answer.
                 case answer of
                   Inl err \<Rightarrow> Reply (failed err)
                 | Inr gw2 \<Rightarrow> store_then (UpsertGateway gw2) UpdateProxy))
            else store_then (UpsertGateway gw) UpdateProxy)))"

definition address_steps :: "Gateway \<Rightarrow> front" where
  "address_steps gw =
     fetch (\<lambda>C. get_Service C (NamespacedName ''default'' ''gari-proxy'')) (\<lambda>r.
       case r of
         NotFound err \<Rightarrow> Reply (failed err)
       | GetFailed err \<Rightarrow> Reply (failed err)
       | Found svc \<Rightarrow>
           (let ip = first_ip (svc_Ingress_IPs svc) in
            if ip = '''' then Reply \<lparr>res_Requeue = True, res_Err = None\<rparr>
            else report_Gateway_steps gw ip))"

definition class_steps :: "Gateway \<Rightarrow> front" where
  "class_steps gw =
     fetch (\<lambda>C. get_GatewayClass C (NamespacedName '''' (gw_GatewayClassName gw))) (\<lambda>r.
       case r of
         NotFound _ \<Rightarrow> Reply done_ok
       | GetFailed err \<Rightarrow> Reply (failed err)
       | Found gc \<Rightarrow>
           if gc_ControllerName gc \<noteq> ControllerName then Reply done_ok else address_steps gw)"

definition Gateway_steps :: "NamespacedName \<Rightarrow> front" where
  "Gateway_steps req =
     fetch (\<lambda>C. get_Gateway C req) (\<lambda>r.
       case r of
         NotFound _ \<Rightarrow> store_then (DeleteGateway req) UpdateProxy
       | GetFailed err \<Rightarrow> Reply (failed err)
       | Found gw \<Rightarrow> class_steps gw)"

definition finish_HTTPRoute_steps :: "HTTPRoute \<Rightarrow> front" where
  "finish_HTTPRoute_steps route =
     change (\<lambda>V st. UpsertHTTPRoute (env_regexp V) (env_now V) route st) (\<lambda>_. UpdateProxy)"

definition report_HTTPRoute_steps :: "HTTPRoute \<Rightarrow> RouteParentStatus list \<Rightarrow> front" where
  "report_HTTPRoute_steps route newParents =
     (if parents_updated (hr_Status_Parents route) newParents then
        (let route1 = route\<lparr>hr_Status_Parents := newParents\<rparr> in
         store_then (alias_HTTPRoute (object_key route) route1)
           (put_status (WriteHTTPRoute route1) (\<lambda>C. put_HTTPRoute_status C route1) (\<lambda>answer.
             case answer of
               Inl err \<Rightarrow> Reply (failed err)
             | Inr route2 \<Rightarrow>
                 store_then (alias_HTTPRoute (object_key route) route2)
                   (finish_HTTPRoute_steps route2))))
      else finish_HTTPRoute_steps route)"

definition HTTPRoute_steps :: "NamespacedName \<Rightarrow> front" where
  "HTTPRoute_steps req =
     fetch (\<lambda>C. get_HTTPRoute C req) (\<lambda>r.
       case r of
         NotFound _ \<Rightarrow> store_then (DeleteHTTPRoute req) UpdateProxy
       | GetFailed err \<Rightarrow> Reply (failed err)
       | Found route \<Rightarrow>
           change (\<lambda>V st. UpsertHTTPRoute (env_regexp V) (env_now V) route st) (\<lambda>validationCondition.
           look (\<lambda>V st. (env_regexp V, GetGateways (env_range V 0 (dom (st_gateways st))) st))
             (\<lambda>(E, gateways).
           clock (\<lambda>now.
             case new_parents E now validationCondition gateways route of
               Inl panic \<Rightarrow> Crash panic
             | Inr newParents \<Rightarrow> report_HTTPRoute_steps route newParents))))"

text \<open>The certificates are fetched one after the other.\<close>

fun ca_steps ::
    "string \<Rightarrow> TargetRef list \<Rightarrow> string list \<Rightarrow> string list \<Rightarrow> (string list \<Rightarrow> front) \<Rightarrow> front" where
  "ca_steps ns [] caCerts unresolvedRefs k = k unresolvedRefs"
| "ca_steps ns (caRef # refs) caCerts unresolvedRefs k =
     look (\<lambda>V st. ca_loop V ns [caRef] caCerts unresolvedRefs) (\<lambda>(caCerts', unresolvedRefs').
       ca_steps ns refs caCerts' unresolvedRefs' k)"

definition report_BackendTLSPolicy_steps ::
    "BackendTLSPolicy \<Rightarrow> GatewayState list \<Rightarrow> HTTPRouteState list \<Rightarrow> NamespacedName \<Rightarrow>
     string list \<Rightarrow> front" where
  "report_BackendTLSPolicy_steps policy gateways routes target unresolvedRefs =
     clock (\<lambda>now.
       case ancestors_loop now policy unresolvedRefs target routes gateways [] of
         Inl panic \<Rightarrow> Crash panic
       | Inr ancestors \<Rightarrow>
           if ancestors_updated (btp_Status_Ancestors policy) ancestors then
             (let policy1 = policy\<lparr>btp_Status_Ancestors := ancestors\<rparr> in
              put_status (WriteBackendTLSPolicy policy1) (\<lambda>C. put_BackendTLSPolicy_status C policy1)
                (\<lambda>answer.
                  case answer of
                    Inl err \<Rightarrow> Reply (failed err)
                  | Inr policy2 \<Rightarrow> store_then (UpsertBackendTLSPolicy policy2) UpdateProxy))
           else store_then (UpsertBackendTLSPolicy policy) UpdateProxy)"

definition BackendTLSPolicy_steps :: "NamespacedName \<Rightarrow> front" where
  "BackendTLSPolicy_steps req =
     fetch (\<lambda>C. get_BackendTLSPolicy C req) (\<lambda>r.
       case r of
         NotFound _ \<Rightarrow> store_then (DeleteBackendTLSPolicy req) UpdateProxy
       | GetFailed err \<Rightarrow> Reply (failed err)
       | Found policy \<Rightarrow>
           look (\<lambda>V st. GetGateways (env_range V 0 (dom (st_gateways st))) st) (\<lambda>gateways.
           look (\<lambda>V st. GetHTTPRoutes (env_range V 1 (dom (st_httpRoutes st))) st) (\<lambda>routes.
             case btp_TargetRefs policy of
               [] \<Rightarrow> Crash IndexOutOfRange
             | targetRef # _ \<Rightarrow>
                 ca_steps (om_Namespace policy) (btp_CACertificateRefs policy) [] []
                   (report_BackendTLSPolicy_steps policy gateways routes
                      (NamespacedName (om_Namespace policy) (tr_Name targetRef))))))"

fun reconcile_steps :: "reconciler \<Rightarrow> NamespacedName \<Rightarrow> front" where
  "reconcile_steps HTTPRouteReconciler req = HTTPRoute_steps req"
| "reconcile_steps GatewayClassReconciler req = GatewayClass_steps req"
| "reconcile_steps GatewayReconciler req = Gateway_steps req"
| "reconcile_steps ServiceReconciler req = Service_steps req"
| "reconcile_steps BackendTLSPolicyReconciler req = BackendTLSPolicy_steps req"
| "reconcile_steps ConfigMapReconciler req = ConfigMap_steps req"

section \<open>A call that is not interrupted\<close>

primrec call_alone :: "Env \<Rightarrow> nat \<Rightarrow> front \<Rightarrow> World \<Rightarrow> call_result" where
  "call_alone V i (Reply out) = (\<lambda>w. (Inr out, w))"
| "call_alone V i (Crash panic) = (\<lambda>w. (Inl panic, w))"
| "call_alone V i UpdateProxy = update_then V i done_ok"
| "call_alone V i (Step effect rest) = (\<lambda>w. call_alone V i (rest V w) (effect V w))"

lemma call_alone_steps [simp]:
  "call_alone V i (fetch get k) w = call_alone V i (k (get (env_cluster V))) w"
  "call_alone V i (put_status written put k) w =
     call_alone V i (k (put (env_cluster V))) (w\<lparr>w_Writes := w_Writes w @ [written]\<rparr>)"
  "call_alone V i (clock c) w = call_alone V i (c (env_now V)) w"
  "call_alone V i (look g l) w = call_alone V i (l (g V (w_State w))) w"
  "call_alone V i (change f m) w =
     call_alone V i (m (fst (f V (w_State w)))) (w\<lparr>w_State := snd (f V (w_State w))\<rparr>)"
  "call_alone V i (store_then h p) w = call_alone V i p (w\<lparr>w_State := h (w_State w)\<rparr>)"
  by (simp_all add: step_defs store_then_def)

lemma ca_loop_one:
  "ca_loop V ns (r # refs) cas un =
     (case ca_loop V ns [r] cas un of (cas', un') \<Rightarrow> ca_loop V ns refs cas' un')"
  by (simp add: Let_def split: get_result.split)

lemma call_alone_ca_steps:
  "call_alone V i (ca_steps ns refs cas un k) w = call_alone V i (k (snd (ca_loop V ns refs cas un))) w"
proof (induction refs arbitrary: cas un)
  case (Cons r refs)
  then show ?case
    by (simp only: ca_steps.simps call_alone_steps ca_loop_one [of V ns r refs] split: prod.split) simp
qed simp

text \<open>The index of the first range over a map that \<open>updateProxy\<close> makes in each reconciler.\<close>

definition first_range :: "reconciler \<Rightarrow> nat" where
  "first_range c = (case c of BackendTLSPolicyReconciler \<Rightarrow> 2 | HTTPRouteReconciler \<Rightarrow> 1
     | GatewayReconciler \<Rightarrow> 1 | _ \<Rightarrow> 0)"

lemma call_alone_HTTPRoute: "call_alone V 1 (HTTPRoute_steps req) w = ReconcileHTTPRoute V req w"
  by (simp add: HTTPRoute_steps_def report_HTTPRoute_steps_def ReconcileHTTPRoute_def finish_HTTPRoute_steps_def
      finish_HTTPRoute_def UpsertHTTPRoute_pair Let_def split: get_result.split sum.split)

lemma call_alone_GatewayClass: "call_alone V 0 (GatewayClass_steps req) w = ReconcileGatewayClass V req w"
  by (simp add: GatewayClass_steps_def ReconcileGatewayClass_def Let_def split: get_result.split sum.split)

lemma call_alone_report_Gateway:
  "call_alone V 1 (report_Gateway_steps gw ip) w = report_Gateway V gw ip w"
  by (simp add: report_Gateway_steps_def report_Gateway_def finish_Gateway_def Let_def split: sum.split)

lemma call_alone_Gateway: "call_alone V 1 (Gateway_steps req) w = ReconcileGateway V req w"
  by (simp add: Gateway_steps_def class_steps_def address_steps_def ReconcileGateway_def call_alone_report_Gateway [simplified] Let_def
      split: get_result.split)

lemma call_alone_Service:
  "call_alone V 0 (Service_steps req) w = ReconcileService V req w"
  "call_alone V 0 (ConfigMap_steps req) w = ReconcileConfigMap V req w"
  by (simp_all add: Service_steps_def ReconcileService_def ConfigMap_steps_def ReconcileConfigMap_def
      split: get_result.split)

lemma call_alone_BackendTLSPolicy:
  "call_alone V 2 (BackendTLSPolicy_steps req) w = ReconcileBackendTLSPolicy V req w"
  by (simp add: BackendTLSPolicy_steps_def ReconcileBackendTLSPolicy_def call_alone_ca_steps
      report_BackendTLSPolicy_steps_def finish_BackendTLSPolicy_def Let_def
      split: get_result.split sum.split list.split)

lemma call_alone_reconcile:
  "call_alone V (first_range c) (reconcile_steps c req) w = reg_Reconcile (SetupWithManager c) V req w"
  by (cases c) (simp_all add: first_range_def setup_defs call_alone_HTTPRoute call_alone_GatewayClass
      call_alone_Gateway call_alone_Service call_alone_BackendTLSPolicy del: One_nat_def)

section \<open>What is published\<close>

definition retried :: "Outcome \<Rightarrow> bool" where
  "retried out \<longleftrightarrow> res_Requeue out \<or> res_Err out \<noteq> None"

lemma retried_simps [simp]: "\<not> retried done_ok" "retried (failed err)"
  "retried \<lparr>res_Requeue = True, res_Err = e\<rparr>"
  by (simp_all add: retried_def)

text \<open>
  A call \<open>owes\<close> an update when it can only end with a call of \<open>updateProxy\<close> or with a retry. A
  step that changes the state leaves a call that owes one; in all controllers but that of routes
  \<open>updateProxy\<close> is then the very next thing.
\<close>

primrec owes :: "front \<Rightarrow> bool" where
  "owes (Reply out) \<longleftrightarrow> retried out"
| "owes (Crash panic) \<longleftrightarrow> True"
| "owes UpdateProxy \<longleftrightarrow> True"
| "owes (Step effect rest) \<longleftrightarrow> (\<forall>V w. owes (rest V w))"

definition indebted :: "reconciler \<Rightarrow> front \<Rightarrow> bool" where
  "indebted c p \<longleftrightarrow> (if c = HTTPRouteReconciler then owes p else p = UpdateProxy)"

primrec pays :: "reconciler \<Rightarrow> front \<Rightarrow> bool" where
  "pays c (Reply out) \<longleftrightarrow> True"
| "pays c (Crash panic) \<longleftrightarrow> True"
| "pays c UpdateProxy \<longleftrightarrow> True"
| "pays c (Step effect rest) \<longleftrightarrow>
     (\<forall>V w. (w_State (effect V w) \<noteq> w_State w \<longrightarrow> indebted c (rest V w)) \<and> pays c (rest V w))"

lemma pays_steps [simp]:
  "pays c (fetch get f) \<longleftrightarrow> (\<forall>V :: Env. pays c (f (get (env_cluster V))))"
  "pays c (put_status written put f) \<longleftrightarrow> (\<forall>V :: Env. pays c (f (put (env_cluster V))))"
  "pays c (clock g) \<longleftrightarrow> (\<forall>V :: Env. pays c (g (env_now V)))"
  "pays c (look l m) \<longleftrightarrow> (\<forall>(V :: Env) (w :: World). pays c (m (l V (w_State w))))"
  by (simp_all add: step_defs)

lemma owes_steps [simp]:
  "owes (fetch get f) \<longleftrightarrow> (\<forall>V :: Env. owes (f (get (env_cluster V))))"
  "owes (put_status written put f) \<longleftrightarrow> (\<forall>V :: Env. owes (f (put (env_cluster V))))"
  "owes (clock g) \<longleftrightarrow> (\<forall>V :: Env. owes (g (env_now V)))"
  "owes (look l m) \<longleftrightarrow> (\<forall>(V :: Env) (w :: World). owes (m (l V (w_State w))))"
  "owes (change h n) \<longleftrightarrow> (\<forall>(V :: Env) (w :: World). owes (n (fst (h V (w_State w)))))"
  "owes (store_then s p) \<longleftrightarrow> owes p"
  by (simp_all add: step_defs store_then_def)

lemma pays_store_then: "indebted c p \<Longrightarrow> pays c p \<Longrightarrow> pays c (store_then f p)"
  by (simp add: store_then_def change_def)

lemma pays_change:
  "(\<And>x. indebted c (g x)) \<Longrightarrow> (\<And>x. pays c (g x)) \<Longrightarrow> pays c (change f g)"
  by (simp add: change_def)

lemma indebted_update [simp]: "indebted c UpdateProxy"
  by (simp add: indebted_def)

lemma pays_ca_steps: "(\<And>un. pays c (f un)) \<Longrightarrow> pays c (ca_steps ns refs cas un f)"
  by (induction refs arbitrary: cas un) (auto split: prod.split)

lemma report_HTTPRoute_owes: "owes (report_HTTPRoute_steps route ps)"
  "pays HTTPRouteReconciler (report_HTTPRoute_steps route ps)"
  by (auto simp: report_HTTPRoute_steps_def finish_HTTPRoute_steps_def Let_def indebted_def
      intro!: pays_store_then pays_change split: sum.split)

lemma HTTPRoute_steps_owe: "owes (HTTPRoute_steps req)"
  by (auto simp: HTTPRoute_steps_def report_HTTPRoute_owes split: get_result.split sum.split)

lemma pays_each: "pays c (reconcile_steps c req)"
proof (cases c)
  case HTTPRouteReconciler
  then show ?thesis
    by (auto simp: HTTPRoute_steps_def report_HTTPRoute_owes indebted_def
        intro!: pays_store_then pays_change split: get_result.split sum.split)
qed (auto simp: GatewayClass_steps_def Gateway_steps_def class_steps_def address_steps_def
    report_Gateway_steps_def Service_steps_def ConfigMap_steps_def BackendTLSPolicy_steps_def
    report_BackendTLSPolicy_steps_def Let_def
    intro!: pays_store_then pays_ca_steps split: get_result.split sum.split list.split)

section \<open>A call runs on\<close>

text \<open>Where an uninterrupted call gets to on its own.\<close>

primrec front_end :: "Env \<Rightarrow> front \<Rightarrow> World \<Rightarrow> World \<times> front" where
  "front_end V (Reply out) = (\<lambda>w. (w, Reply out))"
| "front_end V (Crash panic) = (\<lambda>w. (w, Crash panic))"
| "front_end V UpdateProxy = (\<lambda>w. (w, UpdateProxy))"
| "front_end V (Step effect rest) = (\<lambda>w. front_end V (rest V w) (effect V w))"

lemma front_induct [case_names Reply Crash UpdateProxy Step]:
  assumes "\<And>out. P (Reply out)" "\<And>panic. P (Crash panic)" "P UpdateProxy"
    and "\<And>effect rest. (\<And>V w. P (rest V w)) \<Longrightarrow> P (Step effect rest)"
  shows "P p"
proof (induction p)
  case (Step effect rest)
  then show ?case by (intro assms(4)) (use rangeI in blast)
qed (rule assms(1-3))+

lemma front_end_no_step: "snd (front_end V p w) \<noteq> Step effect rest"
  by (induction p arbitrary: w rule: front_induct) simp_all

lemma call_alone_front_end:
  "call_alone V i p w = call_alone V i (snd (front_end V p w)) (fst (front_end V p w))"
  by (induction p arbitrary: w rule: front_induct) simp_all

end
