(* ===== verification/RunningSystem.thy ===== *)
theory RunningSystem
  imports Steps
begin

text \<open>
  The system that the registrations make of the six reconcilers: objects change in the client's
  cache, each change puts requests into the queues, and the controllers serve them side by side,
  each with its one worker (the default of controller-runtime), step by step.

  The queues and the cache belong to controller-runtime. What the program relies on is the
  documented contract, which \<open>system_step\<close> states: the client reads the cache; an event runs the
  registered handlers; a request is taken from the queue when its call starts, so that a change
  during the call asks for another one, and it is put back when the call fails or asks for that.
\<close>

section \<open>The system\<close>

datatype worker = Free | Handling NamespacedName front | Updating NamespacedName update_pc

record Running =
  run_Objects :: objects
  run_Queue :: "request set"
  run_World :: World
  run_Workers :: "reconciler \<Rightarrow> worker"

definition set_worker :: "reconciler \<Rightarrow> worker \<Rightarrow> Running \<Rightarrow> Running" where
  "set_worker c wk s = s\<lparr>run_Workers := (run_Workers s)(c := wk)\<rparr>"

definition updating :: "Running \<Rightarrow> reconciler \<Rightarrow> bool" where
  "updating s c \<longleftrightarrow> (\<exists>req pc. run_Workers s c = Updating req pc)"

text \<open>
  \<open>admit\<close> limits the changes of the cluster. With \<open>alone\<close> no call enters \<open>updateProxy\<close> while
  another is inside; the program is the system without that limit.
\<close>

inductive system_step ::
    "regexp_engine \<Rightarrow> (objects \<Rightarrow> object_change \<Rightarrow> bool) \<Rightarrow> bool \<Rightarrow> Running \<Rightarrow> Running \<Rightarrow> bool"
  for E admit alone where
  observe:
    "admit (run_Objects s) c \<Longrightarrow> dispatch listed (event_objects c (run_Objects s)) = Inr reqs \<Longrightarrow>
     system_step E admit alone s
       (s\<lparr>run_Objects := change_objects c (run_Objects s), run_Queue := run_Queue s \<union> set reqs\<rparr>)"
| take:
    "run_Workers s c = Free \<Longrightarrow> (c, req) \<in> run_Queue s \<Longrightarrow>
     system_step E admit alone s
       (set_worker c (Handling req (reconcile_steps c req))
          (s\<lparr>run_Queue := run_Queue s - {(c, req)}\<rparr>))"
| handle:
    "run_Workers s c = Handling req (Step effect rest) \<Longrightarrow> surroundings_ok E (run_Objects s) V \<Longrightarrow>
     system_step E admit alone s
       (set_worker c (Handling req (rest V (run_World s)))
          (s\<lparr>run_World := effect V (run_World s)\<rparr>))"
| enter:
    "run_Workers s c = Handling req UpdateProxy \<Longrightarrow> \<not> alone \<or> (\<forall>d. \<not> updating s d) \<Longrightarrow>
     system_step E admit alone s (set_worker c (Updating req AtGateways) s)"
| read_state:
    "run_Workers s c = Updating req pc \<Longrightarrow> update_read (w_State (run_World s)) pc pc' \<Longrightarrow>
     system_step E admit alone s (set_worker c (Updating req pc') s)"
| publish:
    "run_Workers s c = Updating req (AtPublish gws rs B) \<Longrightarrow> table_of E now gws rs B = Inr table \<Longrightarrow>
     system_step E admit alone s
       (set_worker c (Handling req (Reply done_ok))
          (s\<lparr>run_World := (run_World s)\<lparr>w_Proxy := UpdateRoutes table (w_Proxy (run_World s))\<rparr>\<rparr>))"
| return:
    "run_Workers s c = Handling req (Reply out) \<Longrightarrow>
     system_step E admit alone s
       (set_worker c Free
          (s\<lparr>run_Queue := (if retried out then insert (c, req) (run_Queue s) else run_Queue s)\<rparr>))"

definition started :: Running where
  "started =
     \<lparr>run_Objects = Map.empty, run_Queue = {},
      run_World = \<lparr>w_State = NewState, w_Proxy = NewProxy, w_Writes = []\<rparr>,
      run_Workers = (\<lambda>_. Free)\<rparr>"

definition runs_to ::
    "regexp_engine \<Rightarrow> (objects \<Rightarrow> object_change \<Rightarrow> bool) \<Rightarrow> bool \<Rightarrow> Running \<Rightarrow> bool" where
  "runs_to E admit alone s \<longleftrightarrow> (system_step E admit alone)\<^sup>*\<^sup>* started s"

text \<open>Nothing is waiting and nobody is at work.\<close>

definition at_rest :: "Running \<Rightarrow> bool" where
  "at_rest s \<longleftrightarrow> run_Queue s = {} \<and> (\<forall>c. run_Workers s c = Free)"

inductive_cases system_step_cases: "system_step E admit alone s t"

lemma set_worker_simps [simp]:
  "run_Objects (set_worker c wk s) = run_Objects s" "run_Queue (set_worker c wk s) = run_Queue s"
  "run_World (set_worker c wk s) = run_World s"
  "run_Workers (set_worker c wk s) = (run_Workers s)(c := wk)"
  "set_worker c wk' (set_worker c wk s) = set_worker c wk' s"
  by (simp_all add: set_worker_def)

end
