(* ===== verification/StateProperties.thy ===== *)
theory StateProperties
  imports Examples
begin

text \<open>
  The properties of package \<^verbatim>\<open>pkg/state\<close>: hostname intersection, request matching and
  precedence, route status, the construction of the routing table, and the store.
\<close>

section \<open>Hostnames\<close>

text \<open>
  C10: the intersection of two hostname patterns is exact. \<open>Intersect\<close> answers \<open>ok\<close> precisely
  when some host is covered by both patterns, the pattern it returns then covers exactly the
  hosts covered by both, and it is one of the two.
\<close>

theorem Intersect_exact:
  "(snd (Intersect h1 h2) \<longleftrightarrow> (\<exists>host. hostname_covers h1 host \<and> hostname_covers h2 host)) \<and>
   (\<forall>host. snd (Intersect h1 h2) \<and> hostname_covers (fst (Intersect h1 h2)) host \<longleftrightarrow>
      hostname_covers h1 host \<and> hostname_covers h2 host) \<and>
   fst (Intersect h1 h2) \<in> (if snd (Intersect h1 h2) then {h1, h2} else {''''})"
proof -
  have "snd (Intersect h1 h2) \<longleftrightarrow> (\<exists>host. hostname_covers h1 host \<and> hostname_covers h2 host)"
    using Intersect_covers [of h1 h2] hostname_covers_self [of "fst (Intersect h1 h2)"] by blast
  moreover have "fst (Intersect h1 h2) \<in> (if snd (Intersect h1 h2) then {h1, h2} else {''''})"
    by (auto simp: Intersect_def Let_def)
  ultimately show ?thesis using Intersect_covers by blast
qed

text \<open>
  C11: the hostnames under which a route is served on a listener cover exactly the hosts that
  both the route's hostnames (no hostname means any) and the listener's hostname cover; the
  list is empty, and the listener skipped, exactly when there is no such host.
\<close>

theorem IntersectHostnames_exact:
  "(\<forall>host. (\<exists>h \<in> set (IntersectHostnames rhs lh). hostname_covers h host) \<longleftrightarrow>
      hostnames_cover rhs host \<and> hostname_covers lh host) \<and>
   (IntersectHostnames rhs lh = [] \<longleftrightarrow>
      \<not> (\<exists>host. hostnames_cover rhs host \<and> hostname_covers lh host))"
  using IntersectHostnames_covers [of rhs lh] IntersectHostnames_nonempty_iff [of rhs lh] by blast

text \<open>
  The port of the \<open>Host\<close> header plays no part in hostname matching, for names and for IPv6
  literals: the route matches \<open>JoinHostPort h p\<close> exactly when its hostnames cover \<open>h\<close>.
\<close>

theorem MatchHostname_ignores_port:
  assumes "'''' \<notin> set (ir_Hostnames ir)" "CHR ''['' \<notin> set h" "CHR '']'' \<notin> set h"
    and "CHR '':'' \<notin> set p" "CHR ''['' \<notin> set p" "CHR '']'' \<notin> set p"
  shows "MatchHostname ir (JoinHostPort h p) \<longleftrightarrow> hostnames_cover (ir_Hostnames ir) h"
  using strip_port_JoinHostPort [OF assms(2-6)] by (simp add: MatchHostname_covers [OF assms(1)])

theorem MatchHostname_ignores_port_witness:
  "MatchHostname \<lparr>ir_Hostnames = [''*.example.com''], ir_Rules = []\<rparr> ''a.example.com:8080'' \<and>
   \<not> MatchHostname \<lparr>ir_Hostnames = [''*.example.com''], ir_Rules = []\<rparr> ''[fe80::1]:80''"
  using MatchHostname_ignores_port
      [of "\<lparr>ir_Hostnames = [''*.example.com''], ir_Rules = []\<rparr>" "''a.example.com''" "''8080''"]
    MatchHostname_ignores_port
      [of "\<lparr>ir_Hostnames = [''*.example.com''], ir_Rules = []\<rparr>" "''fe80::1''" "''80''"]
  by (simp add: JoinHostPort_def hostnames_cover_def hostname_covers_def HasPrefix_def
      HasSuffix_def)

section \<open>Requests\<close>

text \<open>
  C12: prefix matching is by path element. Unless it ends in a slash, a prefix matches the paths
  whose elements begin with its elements (\<open>/foo\<close> matches \<open>/foo/bar\<close>, not \<open>/foobar\<close>); a prefix
  that ends in a slash matches by characters, and \<open>/\<close> matches every path.
\<close>

theorem hasPathPrefix_elementwise:
  "hasPathPrefix path p \<longleftrightarrow>
     (if p = ''/'' then True
      else if p \<noteq> [] \<and> last p = CHR ''/'' then HasPrefix path p
      else prefix (path_elements p) (path_elements path))"
proof (cases "p \<noteq> [] \<and> last p = CHR ''/''")
  case True
  then show ?thesis by (auto simp: hasPathPrefix_iff HasPrefix_iff)
next
  case False
  then show ?thesis using hasPathPrefix_elements [of p path] by auto
qed

text \<open>
  A trailing slash of a prefix is significant: the prefix \<open>p/\<close> does not match the path \<open>p\<close>,
  although the Gateway API ignores it; the prefix \<open>p\<close> matches \<open>p/\<close>.
\<close>

theorem hasPathPrefix_trailing_slash:
  assumes "p \<noteq> []"
  shows "\<not> hasPathPrefix p (p @ ''/'') \<and> hasPathPrefix (p @ ''/'') p"
  using assms by (auto simp: hasPathPrefix_iff HasPrefix_iff)

theorem hasPathPrefix_trailing_slash_witness:
  "\<not> hasPathPrefix ''/abc'' ''/abc/'' \<and> hasPathPrefix ''/abc/'' ''/abc''"
  using hasPathPrefix_trailing_slash [of "''/abc''"] by simp

text \<open>
  C13: a match accepts a request exactly when the path satisfies the path match and, for every
  header match, the request has a value of that header (its name in canonical form) that the
  header match accepts.
\<close>

theorem Matches_exact:
  "Matches E im path header \<longleftrightarrow>
     (case im_Path im of
        None \<Rightarrow> True
      | Some p \<Rightarrow>
          if ipm_Type p = PathMatchExact then path = ipm_Value p
          else if ipm_Type p = PathMatchPathPrefix then hasPathPrefix path (ipm_Value p)
          else True) \<and>
     list_all (\<lambda>hm. list_ex (header_value_ok E hm)
         (header_values header (CanonicalHeaderKey (ihm_Name hm)))) (im_Headers im)"
  unfolding Matches_iff path_ok_def list_all_iff list_ex_iff by (auto split: option.split)

text \<open>
  Header names are matched without regard to letter case: renaming the headers of a match
  to other spellings of the same valid names changes nothing.
\<close>

theorem Matches_header_case:
  assumes "list_all2 same_header_match (im_Headers im) hms"
  shows "Matches E (im\<lparr>im_Headers := hms\<rparr>) path header = Matches E im path header"
  using headers_loop_case_insensitive [OF assms, of E header]
  by (simp add: Matches_def split: option.split)

theorem Matches_header_case_witness:
  "Matches literal_engine
     \<lparr>im_Path = None, im_Headers = [\<lparr>ihm_Type = ''Exact'', ihm_Name = ''x-version'',
        ihm_MatchExactValue = ''2'', ihm_MatchRegularExpressionValue = None\<rparr>]\<rparr>
     ''/'' [''X-Version'' \<mapsto> [''1'', ''2'']]"
proof -
  let ?h = "\<lambda>n. \<lparr>ihm_Type = ''Exact'', ihm_Name = n, ihm_MatchExactValue = ''2'',
    ihm_MatchRegularExpressionValue = None\<rparr>"
  have "list_all2 same_header_match [?h ''X-Version''] [?h ''x-version'']"
    by code_simp
  then show ?thesis
    using Matches_header_case [of "\<lparr>im_Path = None, im_Headers = [?h ''X-Version'']\<rparr>"
        "[?h ''x-version'']" literal_engine "''/''" "[''X-Version'' \<mapsto> [''1'', ''2'']]"]
    by (simp add: Matches_def header_values_def CanonicalHeaderKey_def Let_def to_lower_def
        validHeaderFieldByte_def to_upper_def is_upper_def is_lower_def api_consts)
qed

section \<open>Precedence\<close>

lemma ranked_known: "ranked m \<Longrightarrow> known_path_type m"
  by (auto simp: ranked_def known_path_type_def)

lemma better_candidate_rank:
  "ranked (snd c) \<Longrightarrow> ranked (snd d) \<Longrightarrow>
     better_candidate c d \<longleftrightarrow> match_rank (snd d) < match_rank (snd c)"
  by (simp add: better_candidate_def better_match_rank ranked_known)

text \<open>
  C7: in a table all of whose path matches are \<open>Exact\<close> or \<open>PathPrefix\<close> (\<open>ranked_routes\<close>), the match
  that \<open>MatchRoute\<close> returns is the most specific one: it comes from a candidate (a
  match of a rule of a route that accepts the host, or the empty match of a rule without
  matches), every earlier candidate ranks strictly below it and no later one above it, by path
  type, then path length, then number of headers. (With a \<open>RegularExpression\<close> path match this fails:
  see \<open>RegularExpression_path_unchecked\<close>.)
\<close>

theorem MatchRoute_most_specific:
  assumes "ranked_routes routes" "MatchRoute E routes r = (Some rule, Some m)"
  shows "\<exists>pre post. candidates E routes r = pre @ (rule, m) # post \<and>
    (\<forall>c \<in> set pre. match_rank (snd c) < match_rank m) \<and>
    (\<forall>c \<in> set post. match_rank (snd c) \<le> match_rank m)"
proof -
  let ?cs = "candidates E routes r"
  have scan: "scan_best better_candidate ?cs None = Some (rule, m)"
    using assms(2) by (simp only: MatchRoute_Some [OF assms(1)])
  have ok: "\<forall>c \<in> set ?cs. ranked (snd c)" using candidates_ranked [OF assms(1)] by blast
  obtain pre post where split: "?cs = pre @ (rule, m) # post"
      "\<forall>c \<in> set pre. better_candidate (rule, m) c"
    by (rule cand_pref.scan_best_first [OF scan ok])
  have max: "\<forall>c \<in> set ?cs. \<not> better_candidate c (rule, m)"
    using cand_pref.scan_best_maximal [OF scan ok] by blast
  have m: "ranked m" using ok split(1) by auto
  have "\<forall>c \<in> set pre. match_rank (snd c) < match_rank m"
    using split ok m better_candidate_rank [of "(rule, m)"] by auto
  moreover have "\<forall>c \<in> set post. match_rank (snd c) \<le> match_rank m"
    using split(1) max ok m better_candidate_rank [of _ "(rule, m)"] by (auto simp: not_less)
  ultimately show ?thesis using split(1) by blast
qed

theorem MatchRoute_most_specific_witness:
  "\<exists>pre post. candidates literal_engine ex_table (ex_request ''a.example.com'' ''/api/x'') =
      pre @ (ex_irule [ex_prefix ''/api''] ''api'', ex_prefix ''/api'') # post \<and>
    list_all (\<lambda>c. match_rank (snd c) < match_rank (ex_prefix ''/api'')) pre \<and>
    list_all (\<lambda>c. match_rank (snd c) \<le> match_rank (ex_prefix ''/api'')) post"
  unfolding list_all_iff by (rule MatchRoute_most_specific [OF ex_table_ranked(1) ex_table_best(1)])

text \<open>
  C8: \<open>MatchRoute\<close> finds a rule whenever one applies, whatever the table: it returns nothing
  exactly when there is no candidate, and otherwise both a rule and its match.
\<close>

theorem MatchRoute_complete:
  "(MatchRoute E routes r = (None, None) \<longleftrightarrow> candidates E routes r = []) \<and>
   (candidates E routes r \<noteq> [] \<longleftrightarrow> (\<exists>rule m. MatchRoute E routes r = (Some rule, Some m)))"
  using scan_best_None_iff [of beats "candidates E routes r"]
  by (auto simp: MatchRoute_beats to_best_def)

text \<open>
  C9: in a table all of whose path matches are \<open>Exact\<close> or \<open>PathPrefix\<close> (\<open>ranked_routes\<close>), the rank of
  the winning match does not depend on the order of the table, which comes from ranging over Go
  maps. (With a \<open>RegularExpression\<close> path match it can: see \<open>RegularExpression_path_unchecked\<close>.)
\<close>

theorem MatchRoute_order_independent:
  assumes "ranked_routes routes" "mset routes' = mset routes"
    and "MatchRoute E routes r = (Some rule, Some m)" "MatchRoute E routes' r = (Some rule', Some m')"
  shows "match_rank m' = match_rank m"
proof -
  have set: "set routes' = set routes" using assms(2) by (rule mset_eq_setD)
  then have ranked': "ranked_routes routes'" using assms(1) by (simp add: ranked_routes_def)
  have scans: "scan_best better_candidate (candidates E routes r) None = Some (rule, m)"
      "scan_best better_candidate (candidates E routes' r) None = Some (rule', m')"
    using assms(3,4) by (simp_all only: MatchRoute_Some [OF assms(1)] MatchRoute_Some [OF ranked'])
  have cs: "set (candidates E routes r) = set (candidates E routes' r)"
    by (simp add: candidates_def set)
  have ok: "\<forall>c \<in> set (candidates E routes r). ranked (snd c)"
    using candidates_ranked [OF assms(1)] by blast
  have "ranked m" "ranked m'"
    using ok cs scans cand_pref.scan_best_maximal [OF scans(1) ok] scan_best_in [OF scans(2)] by auto
  then show ?thesis
    using cand_pref.scan_best_perm [OF scans cs ok] better_candidate_rank [of "(rule, m)" "(rule', m')"]
      better_candidate_rank [of "(rule', m')" "(rule, m)"] by auto
qed

theorem MatchRoute_order_independent_witness:
  "match_rank (the (snd (MatchRoute literal_engine (rev ex_table)
      (ex_request ''a.example.com'' ''/api/x'')))) =
   match_rank (the (snd (MatchRoute literal_engine ex_table
      (ex_request ''a.example.com'' ''/api/x''))))"
  using MatchRoute_order_independent [OF ex_table_ranked(1) _ ex_table_best]
  by (simp add: ex_table_best)

text \<open>
  A path match of type \<open>RegularExpression\<close>, which the API admits and nothing rejects, accepts
  every path whatever its pattern, and ranks below a rule without matches: such a rule placed
  later in the table does not replace it, although placed earlier it wins.
\<close>

theorem RegularExpression_path_unchecked:
  "Matches E \<lparr>im_Path = Some \<lparr>ipm_Type = PathMatchRegularExpression, ipm_Value = v\<rparr>,
     im_Headers = []\<rparr> path header \<and>
   \<not> isBetterMatch \<lparr>im_Path = Some \<lparr>ipm_Type = PathMatchRegularExpression, ipm_Value = v\<rparr>,
     im_Headers = hs\<rparr> (Some empty_match) \<and>
   isBetterMatch empty_match (Some \<lparr>im_Path = Some \<lparr>ipm_Type = PathMatchRegularExpression,
     ipm_Value = v\<rparr>, im_Headers = hs\<rparr>)"
  by (simp add: Matches_def isBetterMatch_def getPathMatchType_def empty_match_def
      getPathMatchTypeWeight_def Let_def)

section \<open>Route status\<close>

text \<open>The reason of the condition \<open>Accepted\<close>, as the documentation of the API has it.\<close>

definition accepted_reason ::
    "regexp_engine \<Rightarrow> HTTPRoute \<Rightarrow> ParentReference \<Rightarrow> GatewayState list \<Rightarrow> string" where
  "accepted_reason E route pr gws =
     (if \<exists>rule \<in> set (hr_Rules route). \<exists>m \<in> set (rr_Matches rule). \<exists>h \<in> set (rm_Headers m).
           \<not> header_compiles E h
      then RouteReasonUnsupportedValue
      else (case find (\<lambda>g. om_Name (gs_Gateway g) = pr_Name pr) gws of
              None \<Rightarrow> RouteReasonNoMatchingParent
            | Some g \<Rightarrow>
                if \<exists>l \<in> set (gw_Listeners (gs_Gateway g)). \<exists>host. section_selects pr l \<and>
                     listener_serves l host \<and> hostnames_cover (hr_Hostnames route) host
                then RouteReasonAccepted
                else RouteReasonNoMatchingListenerHostname))"

lemma find_gateway_find:
  "find_gateway n gws = find (\<lambda>g. om_Name (gs_Gateway g) = n) gws"
  by (induction gws) auto

lemma accepted_reason_eq:
  "accepted_reason E route pr gws =
     (if validate_rules E (hr_Rules route) \<noteq> None then RouteReasonUnsupportedValue
      else (case find_gateway (pr_Name pr) gws of
              None \<Rightarrow> RouteReasonNoMatchingParent
            | Some g \<Rightarrow> if listener_loop route pr (gw_Listeners (gs_Gateway g))
                        then RouteReasonAccepted else RouteReasonNoMatchingListenerHostname))"
  unfolding accepted_reason_def validate_rules_None find_gateway_find listener_loop_host
  by (simp only: ball_simps not_not bex_simps)

text \<open>
  C14: \<open>Accepted\<close> is reported for a parent reference with the first reason that applies, and is
  \<open>True\<close> only with reason \<open>Accepted\<close>: a regular expression of the route does not compile; no
  gateway has the parent's name; no HTTP(S) listener that the reference selects shares a host
  with the route.
\<close>

theorem ComputeAcceptedCondition_exact:
  "\<exists>c. ComputeAcceptedCondition E now \<lparr>hs_HTTPRoute = Some route\<rparr> pr gws = Inr c \<and>
     cond_Type c = RouteConditionAccepted \<and>
     cond_ObservedGeneration c = om_Generation route \<and>
     cond_Reason c = accepted_reason E route pr gws \<and>
     cond_Status c =
       (if accepted_reason E route pr gws = RouteReasonAccepted then ConditionTrue
        else ConditionFalse)"
proof -
  have "fst (snd (accepted_outcome E route pr gws)) = accepted_reason E route pr gws"
    by (cases rule: accepted_outcome_cases [of E route pr gws])
      (simp_all add: accepted_reason_eq)
  moreover have "fst (accepted_outcome E route pr gws) =
      (if fst (snd (accepted_outcome E route pr gws)) = RouteReasonAccepted then ConditionTrue
       else ConditionFalse)"
    by (cases rule: accepted_outcome_cases [of E route pr gws])
      (simp_all add: route_reason_consts)
  ultimately show ?thesis
    by (cases "accepted_outcome E route pr gws") (simp add: ComputeAcceptedCondition_Some)
qed

text \<open>
  C15: \<open>ResolvedRefs\<close> is \<open>False\<close> exactly when some backend reference of some rule sets a kind
  other than \<open>Service\<close>; the message then names the kind of the first such reference. Nothing
  else is checked: a reference to a service that does not exist is reported as resolved.
\<close>

theorem ComputeResolvedRefsCondition_exact:
  "\<exists>c. ComputeResolvedRefsCondition now \<lparr>hs_HTTPRoute = Some route\<rparr> = Inr c \<and>
     (case find (\<lambda>b. \<not> service_kind b) (concat (map rr_BackendRefs (hr_Rules route))) of
        None \<Rightarrow> cond_Status c = ConditionTrue \<and> cond_Reason c = RouteReasonResolvedRefs
      | Some b \<Rightarrow>
          cond_Status c = ConditionFalse \<and> cond_Reason c = RouteReasonInvalidKind \<and>
          cond_Message c = ''Unsupported backend kind: '' @ the (br_Kind b))"
proof (cases "find (\<lambda>b. \<not> service_kind b) (concat (map rr_BackendRefs (hr_Rules route)))")
  case None
  then show ?thesis
    by (simp add: ComputeResolvedRefsCondition_Some resolved_condition_def
        invalid_kind_rules_concat invalid_kind_refs_find)
next
  case (Some b)
  then have "\<not> service_kind b" using find_Some_in by fastforce
  then obtain k where "br_Kind b = Some k" by (auto simp: service_kind_def)
  with Some show ?thesis
    by (simp add: ComputeResolvedRefsCondition_Some resolved_condition_def
        invalid_kind_rules_concat invalid_kind_refs_find)
qed

text \<open>
  A gateway's routes are those whose status has an entry of this controller for a parent of
  the gateway's name with an \<open>Accepted\<close> condition that is \<open>True\<close>, in their order.
\<close>

theorem GetHTTPRoutes_of_exact:
  "GetHTTPRoutes_of s routes cn =
     filter (\<lambda>rs. case hs_HTTPRoute rs of
         None \<Rightarrow> False
       | Some route \<Rightarrow> \<exists>ps \<in> set (hr_Status_Parents route). rps_ControllerName ps = cn \<and>
           pr_Name (rps_ParentRef ps) = om_Name (gs_Gateway s) \<and>
           (\<exists>c \<in> set (rps_Conditions ps). cond_Type c = RouteConditionAccepted \<and>
              cond_Status c = ConditionTrue)) routes"
  unfolding GetHTTPRoutes_of_filter MatchesGateway_def matches_gateway_loop_iff accepted_in_iff ..

section \<open>The routing table\<close>

text \<open>
  C5: the table routes exactly the right hosts. Some entry of the gateway's table accepts a
  \<open>Host\<close> header if and only if there is an HTTP(S) listener and a valid route with a parent
  reference that names this gateway and selects the listener, such that both the listener and
  the route cover the host (its port removed).
\<close>

theorem table_hosts_exact:
  assumes "BuildInternalRoutes E now s routes B cn = Inr irs" "hostnames_nonempty routes"
  shows "(\<exists>ir \<in> set irs. MatchHostname ir host) \<longleftrightarrow>
    (\<exists>l \<in> set (gw_Listeners (gs_Gateway s)). \<exists>rs \<in> set routes. \<exists>hr.
       hs_HTTPRoute rs = Some hr \<and> attached E s l hr \<and> listener_serves l (strip_port host) \<and>
       hostnames_cover (hr_Hostnames hr) (strip_port host))"
  by (rule table_hosts [OF assms])

theorem table_hosts_exact_witness:
  "\<exists>ir \<in> set (ex_built ex_route). MatchHostname ir ''a.example.com:8080''"
proof -
  have "hostnames_nonempty [\<lparr>hs_HTTPRoute = Some ex_route\<rparr>]"
    by (simp add: hostnames_nonempty_def ex_route_def)
  note t = table_hosts_exact [OF ex_built_eq [OF ex_route_complete] this, of "''a.example.com:8080''"]
  show ?thesis
    unfolding t using ex_attached ex_covers by (simp add: ex_gateway_def)
qed

text \<open>
  C16: building the table never panics on routes that satisfy the CRD schema (non-nil, every
  \<open>RequestRedirect\<close> filter with its payload), whatever the gateway, the policies and the maps.
\<close>

theorem BuildInternalRoutes_never_panics:
  assumes "\<And>rs. rs \<in> set routes \<Longrightarrow> \<exists>hr. hs_HTTPRoute rs = Some hr \<and> route_complete hr"
  shows "\<exists>irs. BuildInternalRoutes E now s routes B cn = Inr irs"
  using assms by (intro BuildInternalRoutes_total) (simp add: all_complete_def)

theorem BuildInternalRoutes_never_panics_witness:
  "\<exists>irs. BuildInternalRoutes literal_engine 0 \<lparr>gs_Gateway = ex_gateway\<rparr>
     [\<lparr>hs_HTTPRoute = Some ex_route\<rparr>] ex_inputs ControllerName = Inr irs"
  by (rule BuildInternalRoutes_never_panics) (simp add: ex_route_complete)

text \<open>
  C17: a table entry has one rule for each rule of its route, in the same order, with all its
  matches and with the redirect of its first \<open>RequestRedirect\<close> filter.
\<close>

theorem table_rules_in_order:
  assumes "BuildInternalRoutes E now s routes B cn = Inr irs" "ir \<in> set irs"
  shows "\<exists>rs \<in> set routes. \<exists>hr. hs_HTTPRoute rs = Some hr \<and>
    list_all2 (\<lambda>rule r. irule_Matches r = map (build_match E) (rr_Matches rule) \<and>
        irule_Redirect r = map_option (\<lambda>f. redirect_of (the (flt_RequestRedirect f)))
          (find is_redirect_filter (rr_Filters rule)))
      (hr_Rules hr) (ir_Rules ir)"
proof -
  obtain l rs hr where o: "rs \<in> set routes" "hs_HTTPRoute rs = Some hr" "built_from E now B s l hr ir"
    using BuildInternalRoutes_in [OF assms] by blast
  have "list_all2 (\<lambda>rule r. irule_Matches r = map (build_match E) (rr_Matches rule) \<and>
      irule_Redirect r = map_option (\<lambda>f. redirect_of (the (flt_RequestRedirect f)))
        (find is_redirect_filter (rr_Filters rule))) (hr_Rules hr) (ir_Rules ir)"
    by (rule list.rel_mono_strong [OF built_from_pairs [OF o(3)]])
      (auto dest: build_rule_Matches build_rule_Redirect simp: find_redirect_find
        split: option.splits)
  with o show ?thesis by blast
qed

theorem table_rules_in_order_witness:
  "\<exists>ir. ir \<in> set (ex_built ex_route) \<and> length (ir_Rules ir) = 2"
proof -
  obtain ir where ir: "ir \<in> set (ex_built ex_route)"
    using ex_built_member [OF ex_route_complete ex_binds] by blast
  from table_rules_in_order [OF ex_built_eq [OF ex_route_complete] this]
  have "length (ir_Rules ir) = 2" by (auto simp: ex_route_def dest: list_all2_lengthD)
  with ir show ?thesis by blast
qed

text \<open>
  C19: one backend reference of another kind than \<open>Service\<close>, in any rule, takes the backends from
  every rule of the route, the rules whose own backends are services included, and gives each
  rule an error of status 500. Whenever the proxy picks such a rule for a request it answers with
  that 500, unless the rule has a redirect, which comes first.
\<close>

theorem invalid_kind_fails_whole_route:
  assumes "BuildInternalRoutes E now s [\<lparr>hs_HTTPRoute = Some hr\<rparr>] B cn = Inr irs" "ir \<in> set irs"
    and "rule \<in> set (hr_Rules hr)" "b \<in> set (rr_BackendRefs rule)" "\<not> service_kind b"
    and "r \<in> set (ir_Rules ir)"
  shows "irule_Backend r = None \<and> (\<exists>e. irule_Error r = Some e \<and> es_HTTPStatusCode e = 500 \<and>
    (\<forall>p req m. MatchRoute E' (px_routes p) req = (Some r, m) \<longrightarrow>
       ServeHTTP E' p req =
         (case irule_Redirect r of
            Some rd \<Rightarrow> redirect req rd m
          | None \<Rightarrow> HTTPError (es_HTTPMessage e) 500)))"
proof -
  obtain l where "built_from E now B s l hr ir"
    using BuildInternalRoutes_in [OF assms(1,2)] by auto
  then obtain e where "irule_Backend r = None" "irule_Error r = Some e" "es_HTTPStatusCode e = 500"
    using built_from_invalid [OF _ assms(6)] assms(3-5) by blast
  then show ?thesis by (auto simp: ServeHTTP_def split: option.split)
qed

theorem invalid_kind_fails_whole_route_witness:
  "\<exists>ir e. ir \<in> set (ex_built ex_bad_route) \<and> irule_Backend (hd (ir_Rules ir)) = None \<and>
     irule_Error (hd (ir_Rules ir)) = Some e \<and> es_HTTPStatusCode e = 500"
proof -
  obtain ir where ir: "ir \<in> set (ex_built ex_bad_route)" and
      b: "built_from literal_engine 0 ex_inputs \<lparr>gs_Gateway = ex_gateway\<rparr> ex_listener ex_bad_route ir"
    using ex_built_member [OF ex_bad_route_complete ex_bad_binds] by blast
  have "length (ir_Rules ir) = 2" using built_from_rules(1) [OF b] by (simp add: ex_bad_route_def)
  then have r: "hd (ir_Rules ir) \<in> set (ir_Rules ir)" by (intro hd_in_set) auto
  let ?b = "(ex_backend ''lambda'' None)\<lparr>br_Kind := Some ''Function''\<rparr>"
  have "ex_plain_rule\<lparr>rr_BackendRefs := [?b]\<rparr> \<in> set (hr_Rules ex_bad_route)"
    by (simp add: ex_bad_route_def)
  from invalid_kind_fails_whole_route [where E' = literal_engine, OF ex_built_eq [OF ex_bad_route_complete] ir this _ _ r, of ?b] ir
  show ?thesis by (auto simp: service_kind_def ex_backend_def)
qed

text \<open>
  C18: take a route all of whose backend references, in all rules, are services. Then no rule of its
  table entry has an error, and a rule that does not redirect has as its backend the first
  reference that has a port (whether that service exists is not looked at), and none when no
  reference has a port: such a rule answers 404. A rule that redirects has no backend. Weights
  and further references are not used. (The comment on \<open>ServeHTTP\<close> promises 500 for an invalid
  or unresolved backend.)
\<close>

theorem first_backend_with_port:
  assumes "BuildInternalRoutes E now s [\<lparr>hs_HTTPRoute = Some hr\<rparr>] B cn = Inr irs" "ir \<in> set irs"
    and "\<forall>rule \<in> set (hr_Rules hr). \<forall>b \<in> set (rr_BackendRefs rule). service_kind b"
  shows "list_all2 (\<lambda>rule r. irule_Error r = None \<and>
      irule_Backend r =
        (if irule_Redirect r = None
         then map_option (\<lambda>b. build_backend B (om_Namespace hr) b (the (br_Port b)))
                (find (\<lambda>b. br_Port b \<noteq> None) (rr_BackendRefs rule))
         else None)) (hr_Rules hr) (ir_Rules ir)"
proof -
  obtain l where "built_from E now B s l hr ir"
    using BuildInternalRoutes_in [OF assms(1,2)] by auto
  from built_from_valid [OF this, unfolded chosen_backend_def first_port_ref_def] assms(3)
  show ?thesis by blast
qed

theorem first_backend_with_port_witness:
  "\<exists>ir b. ir \<in> set (ex_built ex_route) \<and> irule_Backend (hd (ir_Rules ir)) = Some b \<and>
     ib_Host b = ''api.default.svc.cluster.local'' \<and> ib_Port b = 80"
proof -
  obtain ir where ir: "ir \<in> set (ex_built ex_route)" and
      b: "built_from literal_engine 0 ex_inputs \<lparr>gs_Gateway = ex_gateway\<rparr> ex_listener ex_route ir"
    using ex_built_member [OF ex_route_complete ex_binds] by blast
  have svc: "\<forall>rule \<in> set (hr_Rules ex_route). \<forall>b \<in> set (rr_BackendRefs rule). service_kind b"
    by (simp add: ex_objects service_kind_def)
  obtain r rest where r: "ir_Rules ir = r # rest"
      "irule_Backend r = (if irule_Redirect r = None
         then Some (build_backend ex_inputs ''default'' (ex_backend ''api'' (Some 80)) 80) else None)"
    using first_backend_with_port [OF ex_built_eq [OF ex_route_complete] ir svc]
    by (auto simp: ex_route_parts list_all2_Cons1 cong: if_cong)
  have "irule_Redirect r = None"
    using built_from_pairs [OF b] r(1)
    by (auto simp: ex_route_parts list_all2_Cons1 dest!: build_rule_Redirect)
  with r ir show ?thesis
    by (intro exI [of _ ir]) (simp add: build_backend_def Let_def ex_backend_def)
qed

text \<open>
  The table does not depend on the reported status of the routes, only on their
  specifications: routes that differ in \<open>Status.Parents\<close> give the same table. The reconciler's
  unlocked writes to the status of a stored route cannot change what is served.
\<close>

theorem table_ignores_status:
  assumes "map without_status routes = map without_status routes'"
  shows "BuildInternalRoutes E now s routes B cn = BuildInternalRoutes E now s routes' B cn"
  using BuildInternalRoutes_without_status [of E now s routes] assms
    BuildInternalRoutes_without_status [of E now s routes'] by simp

theorem table_ignores_status_witness:
  "BuildInternalRoutes literal_engine 0 \<lparr>gs_Gateway = ex_gateway\<rparr>
     [\<lparr>hs_HTTPRoute = Some (ex_route\<lparr>hr_Status_Parents :=
        [\<lparr>rps_ParentRef = ex_ref, rps_ControllerName = ''other'', rps_Conditions = []\<rparr>]\<rparr>)\<rparr>]
     ex_inputs ControllerName = Inr (ex_built ex_route)"
  unfolding ex_built_eq [OF ex_route_complete, symmetric]
  by (rule table_ignores_status) (simp add: without_status_def ex_route_def)

section \<open>The store\<close>

text \<open>
  Whatever order the runtime ranges over the maps in, the list getters return every stored
  object exactly once, and the map getters return exact copies.
\<close>

theorem getters_are_snapshots:
  assumes "range_order (st_gateways s) kg" "range_order (st_httpRoutes s) kr"
    and "range_order (st_backendTLSPolicies s) kp" "range_order (st_services s) ks"
    and "range_order (st_configMaps s) kc"
  shows "mset (GetGateways kg s) = mset (map (\<lambda>k. the (st_gateways s k)) kg) \<and>
    mset (GetHTTPRoutes kr s) = mset (map (\<lambda>k. the (st_httpRoutes s k)) kr) \<and>
    mset (GetBackendTLSPolicies kp s) = mset (map (\<lambda>k. the (st_backendTLSPolicies s k)) kp) \<and>
    GetServices ks s = st_services s \<and> GetConfigMaps kc s = st_configMaps s"
  using assms
  by (simp add: GetGateways_def GetHTTPRoutes_def GetBackendTLSPolicies_def GetServices_copy
      GetConfigMaps_copy range_values_mset)

theorem getters_are_snapshots_witness:
  "GetGateways [object_key ex_gateway] (UpsertGateway ex_gateway NewState) = [\<lparr>gs_Gateway = ex_gateway\<rparr>]"
proof -
  let ?s = "UpsertGateway ex_gateway NewState"
  have "range_order (st_gateways ?s) [object_key ex_gateway]"
    by (simp add: range_order_def UpsertGateway_def NewState_def object_key_def)
  moreover have "range_order (st_httpRoutes ?s) []" "range_order (st_backendTLSPolicies ?s) []"
      "range_order (st_services ?s) []" "range_order (st_configMaps ?s) []"
    by (simp_all add: range_order_def UpsertGateway_def NewState_def)
  ultimately have "mset (GetGateways [object_key ex_gateway] ?s) =
      mset (map (\<lambda>k. the (st_gateways ?s k)) [object_key ex_gateway])"
    using getters_are_snapshots by blast
  then show ?thesis by (simp add: UpsertGateway_def NewState_def object_key_def)
qed

section \<open>Gateways of the same name\<close>

text \<open>
  The condition \<open>Accepted\<close> looks a gateway up by its name only, in the order in which the map of
  gateways was ranged over: with two gateways of one name in different namespaces the reported
  status of a route depends on that order.
\<close>

definition ex_namesake :: Gateway where
  "ex_namesake = ex_gateway\<lparr>om_Namespace := ''other'',
     gw_Listeners := [ex_listener\<lparr>lst_Hostname := Some ''internal.org''\<rparr>]\<rparr>"

lemma accepted_depends_on_order:
  "fst (accepted_outcome literal_engine ex_route ex_ref
     [\<lparr>gs_Gateway = ex_gateway\<rparr>, \<lparr>gs_Gateway = ex_namesake\<rparr>]) = ConditionTrue"
  "fst (accepted_outcome literal_engine ex_route ex_ref
     [\<lparr>gs_Gateway = ex_namesake\<rparr>, \<lparr>gs_Gateway = ex_gateway\<rparr>]) = ConditionFalse"
  by code_simp+

text \<open>
  A parent reference without a namespace means a gateway of the route's own namespace in the
  Gateway API; here it attaches the route to every gateway of that name.
\<close>

lemma attached_across_namespaces:
  "attached literal_engine \<lparr>gs_Gateway = ex_gateway\<lparr>om_Namespace := ''other''\<rparr>\<rparr> ex_listener ex_route \<and>
   om_Namespace ex_route = ''default'' \<and> pr_Namespace ex_ref = None"
  by code_simp

end
