(* ===== verification/ControllerProperties.thy ===== *)
theory ControllerProperties
  imports Examples
begin

text \<open>
  The properties of \<^verbatim>\<open>pkg/controller\<close>: what a successful reconciliation leaves in the
  state, the API server and the proxy, that it does not panic, and that it comes to rest.
\<close>

section \<open>Every reconciler\<close>

text \<open>An update of a status keeps the identity of the object.\<close>

definition keeps_keys :: "Cluster \<Rightarrow> bool" where
  "keeps_keys C \<longleftrightarrow> (\<forall>r r'. put_HTTPRoute_status C r = Inr r' \<longrightarrow> object_key r' = object_key r)"

lemma ReconcileHTTPRoute_cases:
  assumes "keeps_keys (env_cluster V)"
  obtains (unchanged) err where "get_HTTPRoute (env_cluster V) req = GetFailed err"
      "ReconcileHTTPRoute V req w = (Inr (failed err), w)"
  | (deleted) err where "get_HTTPRoute (env_cluster V) req = NotFound err"
      "ReconcileHTTPRoute V req w =
      update_then V 1 done_ok (w\<lparr>w_State := DeleteHTTPRoute req (w_State w)\<rparr>)"
  | (same) route where "get_HTTPRoute (env_cluster V) req = Found route"
      "ReconcileHTTPRoute V req w =
         update_then V 1 done_ok (w\<lparr>w_State := store_HTTPRoute route (w_State w)\<rparr>)"
  | (rejected) route route1 err log where "get_HTTPRoute (env_cluster V) req = Found route"
      "route1 = route\<lparr>hr_Status_Parents :=
         desired_parents (env_regexp V) (listed_gateways V w) (env_now V) route\<rparr>"
      "put_HTTPRoute_status (env_cluster V) route1 = Inl err"
      "ReconcileHTTPRoute V req w = (Inr (failed err),
         w\<lparr>w_State := store_HTTPRoute route1 (w_State w), w_Writes := log\<rparr>)"
  | (written) route route2 log where "get_HTTPRoute (env_cluster V) req = Found route"
      "put_HTTPRoute_status (env_cluster V) (route\<lparr>hr_Status_Parents :=
         desired_parents (env_regexp V) (listed_gateways V w) (env_now V) route\<rparr>) = Inr route2"
      "ReconcileHTTPRoute V req w =
         update_then V 1 done_ok (w\<lparr>w_Writes := log, w_State := store_HTTPRoute route2 (w_State w)\<rparr>)"
proof (cases "get_HTTPRoute (env_cluster V) req")
  case (Found route)
  have keeps: "object_key r' = object_key r" if "put_HTTPRoute_status (env_cluster V) r = Inr r'" for r r'
    using assms that by (simp add: keeps_keys_def)
  note eq = ReconcileHTTPRoute_Found [OF Found keeps, of w]
  show ?thesis
  proof (cases "parents_updated (hr_Status_Parents route)
      (desired_parents (env_regexp V) (listed_gateways V w) (env_now V) route)")
    case False
    with same [OF Found] show ?thesis by (simp only: eq not_False_eq_True if_True)
  next
    case True
    show ?thesis
    proof (cases "put_HTTPRoute_status (env_cluster V) (route\<lparr>hr_Status_Parents :=
          desired_parents (env_regexp V) (listed_gateways V w) (env_now V) route\<rparr>)")
      case (Inl err)
      with rejected [OF Found refl Inl] True show ?thesis
        by (simp only: eq not_True_eq_False if_False sum.case)
    next
      case (Inr route2)
      with written [OF Found Inr] True show ?thesis
        by (simp only: eq not_True_eq_False if_False sum.case)
    qed
  qed
next
  case (NotFound e)
  then show ?thesis using deleted by (simp add: ReconcileHTTPRoute_def)
next
  case (GetFailed e)
  then show ?thesis using unchanged by (simp add: ReconcileHTTPRoute_def)
qed

lemma ReconcileGateway_cases:
  assumes "state_ok (w_State w)"
  obtains (left_alone) out w' where "ReconcileGateway V req w = (Inr out, w')"
      "w_State w' = w_State w" "w_Proxy w' = w_Proxy w"
  | (deleted) "ReconcileGateway V req w =
      update_then V 1 done_ok (w\<lparr>w_State := DeleteGateway req (w_State w)\<rparr>)"
  | (stored) gw log where "ReconcileGateway V req w =
      update_then V 1 done_ok (w\<lparr>w_Writes := log, w_State := UpsertGateway gw (w_State w)\<rparr>)"
proof -
  have report: thesis if "ReconcileGateway V req w = report_Gateway V gw ip w" for gw ip
  proof -
    let ?d = "desired_gateway (listed_routes V w) ip (env_now V) gw"
    let ?g1 = "set_gateway_status ?d gw" and ?log = "w_Writes w @ [WriteGateway (set_gateway_status ?d gw)]"
    note eq = that [unfolded report_Gateway_eq [OF assms]]
    show thesis
    proof (cases "gateway_updated (gateway_status_of gw) ?d")
      case False
      then have "ReconcileGateway V req w = update_then V 1 done_ok
          (w\<lparr>w_Writes := w_Writes w, w_State := UpsertGateway gw (w_State w)\<rparr>)"
        using eq by simp
      then show thesis by (rule stored)
    next
      case True
      show thesis
      proof (cases "put_Gateway_status (env_cluster V) ?g1")
        case (Inl err)
        with True eq have "ReconcileGateway V req w = (Inr (failed err), w\<lparr>w_Writes := ?log\<rparr>)"
          by simp
        then show thesis by (rule left_alone) simp_all
      next
        case (Inr gw2)
        with True eq have "ReconcileGateway V req w = update_then V 1 done_ok
            (w\<lparr>w_Writes := ?log, w_State := UpsertGateway gw2 (w_State w)\<rparr>)" by simp
        then show thesis by (rule stored)
      qed
    qed
  qed
  have "(\<exists>out. ReconcileGateway V req w = (Inr out, w)) \<or>
      ReconcileGateway V req w =
        update_then V 1 done_ok (w\<lparr>w_State := DeleteGateway req (w_State w)\<rparr>) \<or>
      (\<exists>gw ip. ReconcileGateway V req w = report_Gateway V gw ip w)"
    by (simp add: ReconcileGateway_def Let_def split: get_result.split) blast
  then show thesis using left_alone [of _ w] deleted report by blast
qed

lemma ReconcileBackendTLSPolicy_cases:
  obtains (left_alone) out w' where "ReconcileBackendTLSPolicy V req w = (Inr out, w')"
      "w_State w' = w_State w" "w_Proxy w' = w_Proxy w"
  | (no_target) policy where "get_BackendTLSPolicy (env_cluster V) req = Found policy"
      "btp_TargetRefs policy = []" "ReconcileBackendTLSPolicy V req w = (Inl IndexOutOfRange, w)"
  | (deleted) "ReconcileBackendTLSPolicy V req w =
      update_then V 2 done_ok (w\<lparr>w_State := DeleteBackendTLSPolicy req (w_State w)\<rparr>)"
  | (stored) policy log targetRef refs policy' where
      "get_BackendTLSPolicy (env_cluster V) req = Found policy" "btp_TargetRefs policy = targetRef # refs"
      "policy' = policy \<and>
         \<not> ancestors_updated (btp_Status_Ancestors policy) (reported_ancestors V w targetRef policy) \<or>
       put_BackendTLSPolicy_status (env_cluster V)
         (policy\<lparr>btp_Status_Ancestors := reported_ancestors V w targetRef policy\<rparr>) = Inr policy'"
      "ReconcileBackendTLSPolicy V req w = update_then V 2 done_ok
        (w\<lparr>w_Writes := log, w_State := UpsertBackendTLSPolicy policy' (w_State w)\<rparr>)"
proof (cases "get_BackendTLSPolicy (env_cluster V) req")
  case (Found policy)
  show ?thesis
  proof (cases "btp_TargetRefs policy")
    case Nil
    with Found show ?thesis using no_target ReconcileBackendTLSPolicy_no_target by blast
  next
    case (Cons targetRef refs)
    let ?d = "reported_ancestors V w targetRef policy"
    let ?p1 = "policy\<lparr>btp_Status_Ancestors := ?d\<rparr>"
    note eq = ReconcileBackendTLSPolicy_Found [OF Found Cons, of w]
    show ?thesis
    proof (cases "ancestors_updated (btp_Status_Ancestors policy) ?d")
      case False
      then have "ReconcileBackendTLSPolicy V req w = update_then V 2 done_ok
          (w\<lparr>w_Writes := w_Writes w, w_State := UpsertBackendTLSPolicy policy (w_State w)\<rparr>)"
        by (simp add: eq)
      with stored [OF Found Cons] False show ?thesis by blast
    next
      case True
      show ?thesis
      proof (cases "put_BackendTLSPolicy_status (env_cluster V) ?p1")
        case (Inl err)
        with True have "ReconcileBackendTLSPolicy V req w =
            (Inr (failed err), w\<lparr>w_Writes := w_Writes w @ [WriteBackendTLSPolicy ?p1]\<rparr>)"
          by (simp add: eq)
        then show ?thesis by (rule left_alone) simp_all
      next
        case (Inr policy2)
        with True have "ReconcileBackendTLSPolicy V req w = update_then V 2 done_ok
            (w\<lparr>w_Writes := w_Writes w @ [WriteBackendTLSPolicy ?p1],
               w_State := UpsertBackendTLSPolicy policy2 (w_State w)\<rparr>)"
          by (simp add: eq)
        with stored [OF Found Cons] Inr show ?thesis by blast
      qed
    qed
  qed
next
  case (NotFound e)
  then show ?thesis using deleted by (simp add: ReconcileBackendTLSPolicy_def)
next
  case (GetFailed e)
  then show ?thesis using left_alone [of _ w] by (simp add: ReconcileBackendTLSPolicy_def)
qed

lemma ReconcileGatewayClass_state:
  "w_State (snd (ReconcileGatewayClass V req w)) = w_State w \<and>
   w_Proxy (snd (ReconcileGatewayClass V req w)) = w_Proxy w \<and>
   (\<exists>out. fst (ReconcileGatewayClass V req w) = Inr out)"
  by (simp add: ReconcileGatewayClass_def Let_def split: get_result.split sum.split)

text \<open>
  C30: the six reconcilers keep the state's invariant: every object is filed under its own
  namespace and name, no route pointer is nil and the maps are finite, after errors as well.
\<close>

theorem reconcilers_keep_state_ok:
  assumes "state_ok (w_State w)" "keeps_keys (env_cluster V)"
  shows "state_ok (w_State (snd (ReconcileService V req w))) \<and>
    state_ok (w_State (snd (ReconcileConfigMap V req w))) \<and>
    state_ok (w_State (snd (ReconcileGatewayClass V req w))) \<and>
    state_ok (w_State (snd (ReconcileGateway V req w))) \<and>
    state_ok (w_State (snd (ReconcileHTTPRoute V req w))) \<and>
    state_ok (w_State (snd (ReconcileBackendTLSPolicy V req w)))"
proof (intro conjI)
  show "state_ok (w_State (snd (ReconcileService V req w)))"
    using assms(1) by (simp add: ReconcileService_def state_ok_intros split: get_result.split)
  show "state_ok (w_State (snd (ReconcileConfigMap V req w)))"
    using assms(1) by (simp add: ReconcileConfigMap_def state_ok_intros split: get_result.split)
  show "state_ok (w_State (snd (ReconcileGatewayClass V req w)))"
    using assms(1) by (simp add: ReconcileGatewayClass_state)
  show "state_ok (w_State (snd (ReconcileGateway V req w)))"
    by (cases rule: ReconcileGateway_cases [OF assms(1), of V req])
      (use assms(1) in \<open>simp_all add: state_ok_intros\<close>)
  show "state_ok (w_State (snd (ReconcileHTTPRoute V req w)))"
    by (cases rule: ReconcileHTTPRoute_cases [OF assms(2), of req w])
      (use assms(1) in \<open>simp_all add: state_ok_intros\<close>)
  show "state_ok (w_State (snd (ReconcileBackendTLSPolicy V req w)))"
    by (cases rule: ReconcileBackendTLSPolicy_cases [of V req w])
      (use assms(1) in \<open>simp_all add: state_ok_intros\<close>)
qed

lemma ex_keeps_keys: "keeps_keys (env_cluster ex_env)"
  by (simp add: keeps_keys_def ex_surroundings)

theorem reconcilers_keep_state_ok_witness:
  "state_ok (w_State (snd (ReconcileHTTPRoute ex_env (NamespacedName ''default'' ''route'') ex_world)))"
  using reconcilers_keep_state_ok [OF ex_world_ok(1) ex_keeps_keys] by blast

section \<open>Panics\<close>

lemma routes_complete_other:
  "st_httpRoutes s' = st_httpRoutes s \<Longrightarrow> routes_complete s' = routes_complete s"
  by (simp add: routes_complete_def)

lemma routes_complete_intros [simp]:
  "routes_complete s \<Longrightarrow> routes_complete (UpsertGateway gw s)"
  "routes_complete s \<Longrightarrow> routes_complete (DeleteGateway k s)"
  "routes_complete s \<Longrightarrow> routes_complete (UpsertService svc s)"
  "routes_complete s \<Longrightarrow> routes_complete (DeleteService k s)"
  "routes_complete s \<Longrightarrow> routes_complete (UpsertConfigMap cm s)"
  "routes_complete s \<Longrightarrow> routes_complete (DeleteConfigMap k s)"
  "routes_complete s \<Longrightarrow> routes_complete (UpsertBackendTLSPolicy p s)"
  "routes_complete s \<Longrightarrow> routes_complete (DeleteBackendTLSPolicy k s)"
  "routes_complete s \<Longrightarrow> routes_complete (DeleteHTTPRoute k s)"
  "routes_complete s \<Longrightarrow> route_complete route \<Longrightarrow> routes_complete (store_HTTPRoute route s)"
  by (auto simp: routes_complete_def UpsertGateway_def DeleteGateway_def UpsertService_def
      DeleteService_def UpsertConfigMap_def DeleteConfigMap_def UpsertBackendTLSPolicy_def
      DeleteBackendTLSPolicy_def DeleteHTTPRoute_def store_HTTPRoute_def split: if_splits)

text \<open>
  C31: on a state whose routes pass the CRD schema, the reconcilers of services, config maps,
  gateway classes and gateways never panic.
\<close>

theorem reconcilers_never_panic:
  assumes "state_ok (w_State w)" "routes_complete (w_State w)"
  shows "(\<exists>out. fst (ReconcileService V req w) = Inr out) \<and>
    (\<exists>out. fst (ReconcileConfigMap V req w) = Inr out) \<and>
    (\<exists>out. fst (ReconcileGatewayClass V req w) = Inr out) \<and>
    (\<exists>out. fst (ReconcileGateway V req w) = Inr out)"
proof (intro conjI)
  show "\<exists>out. fst (ReconcileService V req w) = Inr out"
    using assms by (simp add: ReconcileService_def update_then_total state_ok_intros split: get_result.split)
  show "\<exists>out. fst (ReconcileConfigMap V req w) = Inr out"
    using assms by (simp add: ReconcileConfigMap_def update_then_total state_ok_intros split: get_result.split)
  show "\<exists>out. fst (ReconcileGatewayClass V req w) = Inr out"
    by (simp add: ReconcileGatewayClass_state)
  show "\<exists>out. fst (ReconcileGateway V req w) = Inr out"
    by (cases rule: ReconcileGateway_cases [OF assms(1), of V req])
      (use assms in \<open>simp_all add: update_then_total state_ok_intros\<close>)
qed

theorem reconcilers_never_panic_witness:
  "\<exists>out. fst (ReconcileGateway ex_env (NamespacedName ''default'' ''gw'') ex_world) = Inr out"
  using reconcilers_never_panic [OF ex_world_ok] by blast

text \<open>
  C32: the reconciler of backend TLS policies panics, and only then, on a policy without target
  references, which it indexes without a test.
\<close>

theorem policy_reconciler_panics_iff:
  assumes "state_ok (w_State w)" "routes_complete (w_State w)"
  shows "(\<exists>p. fst (ReconcileBackendTLSPolicy V req w) = Inl p) \<longleftrightarrow>
    (\<exists>policy. get_BackendTLSPolicy (env_cluster V) req = Found policy \<and> btp_TargetRefs policy = [])"
proof
  assume "\<exists>p. fst (ReconcileBackendTLSPolicy V req w) = Inl p"
  then show "\<exists>policy. get_BackendTLSPolicy (env_cluster V) req = Found policy \<and> btp_TargetRefs policy = []"
    by (cases rule: ReconcileBackendTLSPolicy_cases [of V req w])
      (use assms in \<open>auto simp: update_then_total state_ok_intros\<close>)
next
  assume "\<exists>policy. get_BackendTLSPolicy (env_cluster V) req = Found policy \<and> btp_TargetRefs policy = []"
  then show "\<exists>p. fst (ReconcileBackendTLSPolicy V req w) = Inl p"
    using ReconcileBackendTLSPolicy_no_target by fastforce
qed

theorem policy_reconciler_panics_iff_witness:
  "\<not> (\<exists>p. fst (ReconcileBackendTLSPolicy ex_env (NamespacedName ''default'' ''tls'') ex_world) = Inl p)"
  unfolding policy_reconciler_panics_iff [OF ex_world_ok]
  by (simp add: ex_surroundings ex_policy_def)

text \<open>
  The reconciler of routes does not panic either, when the routes that the API server
  returns pass the CRD schema.
\<close>

theorem route_reconciler_never_panics:
  assumes "state_ok (w_State w)" "routes_complete (w_State w)" "keeps_keys (env_cluster V)"
    and "\<And>r. get_HTTPRoute (env_cluster V) req = Found r \<Longrightarrow> route_complete r"
    and "\<And>r r'. put_HTTPRoute_status (env_cluster V) r = Inr r' \<Longrightarrow> route_complete r \<Longrightarrow> route_complete r'"
  shows "\<exists>out. fst (ReconcileHTTPRoute V req w) = Inr out"
  using assms(3)
proof (cases rule: ReconcileHTTPRoute_cases [where req = req and w = w])
  case deleted
  with assms(1,2) show ?thesis by (simp add: update_then_total state_ok_intros)
next
  case (same route)
  with assms(1,2,4) show ?thesis by (simp add: update_then_total state_ok_intros)
next
  case (written route route2 log)
  have "route_complete (route\<lparr>hr_Status_Parents := ps\<rparr>)" for ps
    using assms(4) [OF written(1)] by (simp add: route_complete_def)
  with assms(5) [OF written(2)] have "route_complete route2" by blast
  with written(3) assms(1,2) show ?thesis by (simp add: update_then_total state_ok_intros)
qed auto

theorem route_reconciler_never_panics_witness:
  "\<exists>out. fst (ReconcileHTTPRoute ex_env (NamespacedName ''default'' ''route'') ex_world) = Inr out"
proof (rule route_reconciler_never_panics [OF ex_world_ok ex_keeps_keys])
  show "route_complete r" if "get_HTTPRoute (env_cluster ex_env) (NamespacedName ''default'' ''route'') = Found r" for r
    using that ex_route_found ex_route_complete by simp
  show "route_complete r'" if "put_HTTPRoute_status (env_cluster ex_env) r = Inr r'" "route_complete r" for r r'
    using that by (simp add: ex_env_def ex_cluster_def)
qed

section \<open>Services and config maps\<close>

text \<open>
  After a successful call the state holds for the requested name what the API server
  holds, the other services are untouched, and the proxy serves a table built from this state.
  The same goes for config maps.
\<close>

theorem services_and_config_maps_mirrored:
  assumes "\<And>svc. get_Service (env_cluster V) req = Found svc \<Longrightarrow> object_key svc = req"
    and "\<And>cm. get_ConfigMap (env_cluster V) req = Found cm \<Longrightarrow> object_key cm = req"
    and "ReconcileService V req w = (Inr done_ok, w1)" "ReconcileConfigMap V req w = (Inr done_ok, w2)"
  shows "st_services (w_State w1) = (st_services (w_State w))(req :=
      (case get_Service (env_cluster V) req of Found svc \<Rightarrow> Some svc | _ \<Rightarrow> None)) \<and>
    proxy_current V 0 w1 \<and>
    st_configMaps (w_State w2) = (st_configMaps (w_State w))(req :=
      (case get_ConfigMap (env_cluster V) req of Found cm \<Rightarrow> Some cm | _ \<Rightarrow> None)) \<and>
    proxy_current V 0 w2"
proof -
  have 1: "st_services (w_State w1) = (st_services (w_State w))(req :=
      (case get_Service (env_cluster V) req of Found svc \<Rightarrow> Some svc | _ \<Rightarrow> None)) \<and>
    proxy_current V 0 w1"
    using assms(3) assms(1)
    by (auto simp: ReconcileService_def services.lookup_upsert services.lookup_delete
        split: get_result.splits dest!: update_then_current)
  have 2: "st_configMaps (w_State w2) = (st_configMaps (w_State w))(req :=
      (case get_ConfigMap (env_cluster V) req of Found cm \<Rightarrow> Some cm | _ \<Rightarrow> None)) \<and>
    proxy_current V 0 w2"
    using assms(4) assms(2)
    by (auto simp: ReconcileConfigMap_def config_maps.lookup_upsert config_maps.lookup_delete
        split: get_result.splits dest!: update_then_current)
  from 1 2 show ?thesis by blast
qed

lemma ex_service_ok:
  "\<exists>w1. ReconcileService ex_env (NamespacedName ''default'' ''gari-proxy'') ex_world = (Inr done_ok, w1)"
  "\<exists>w2. ReconcileConfigMap ex_env (NamespacedName ''default'' ''gari-proxy'') ex_world = (Inr done_ok, w2)"
proof -
  have t: "\<exists>w'. update_then ex_env 0 done_ok w = (Inr done_ok, w')"
    if "state_ok (w_State w)" "routes_complete (w_State w)" for w
    using update_then_total [OF that, of ex_env 0 done_ok] by (metis prod.collapse)
  show "\<exists>w1. ReconcileService ex_env (NamespacedName ''default'' ''gari-proxy'') ex_world = (Inr done_ok, w1)"
    using t ex_world_ok
    by (simp add: ReconcileService_def state_ok_intros split: get_result.split)
      (simp add: ex_surroundings)
  show "\<exists>w2. ReconcileConfigMap ex_env (NamespacedName ''default'' ''gari-proxy'') ex_world = (Inr done_ok, w2)"
    using t ex_world_ok
    by (simp add: ReconcileConfigMap_def state_ok_intros split: get_result.split)
      (simp add: ex_surroundings)
qed

theorem services_and_config_maps_mirrored_witness:
  "\<exists>w1. ReconcileService ex_env (NamespacedName ''default'' ''gari-proxy'') ex_world = (Inr done_ok, w1) \<and>
     st_services (w_State w1) = [NamespacedName ''default'' ''gari-proxy'' \<mapsto> ex_service]"
proof -
  obtain w1 w2 where w: "ReconcileService ex_env (NamespacedName ''default'' ''gari-proxy'') ex_world = (Inr done_ok, w1)"
    "ReconcileConfigMap ex_env (NamespacedName ''default'' ''gari-proxy'') ex_world = (Inr done_ok, w2)"
    using ex_service_ok by blast
  have k: "get_Service (env_cluster ex_env) (NamespacedName ''default'' ''gari-proxy'') = Found ex_service"
    "get_ConfigMap (env_cluster ex_env) (NamespacedName ''default'' ''gari-proxy'') = NotFound ''not found''"
    "object_key ex_service = NamespacedName ''default'' ''gari-proxy''"
    by (simp_all add: ex_surroundings ex_service_def ex_config_map_def)
  have "st_services (w_State w1) = (st_services (w_State ex_world))
      (NamespacedName ''default'' ''gari-proxy'' := Some ex_service)"
    using services_and_config_maps_mirrored [OF _ _ w] k by simp
  with w(1) show ?thesis by (auto simp: ex_world_def NewState_def)
qed

section \<open>Routes\<close>

text \<open>
  C24: after a successful call on an existing route, the state holds the route as the API server
  has it, the reported status included, and the proxy serves a table built from this state.
\<close>

theorem route_reconciled:
  assumes "keeps_keys (env_cluster V)" "get_HTTPRoute (env_cluster V) req = Found route"
    and "ReconcileHTTPRoute V req w = (Inr done_ok, w')"
  shows "\<exists>stored. st_httpRoutes (w_State w') =
      (st_httpRoutes (w_State w))(object_key route \<mapsto> \<lparr>hs_HTTPRoute = Some stored\<rparr>) \<and>
    (stored = route \<or>
     put_HTTPRoute_status (env_cluster V) (route\<lparr>hr_Status_Parents :=
       desired_parents (env_regexp V) (listed_gateways V w) (env_now V) route\<rparr>) = Inr stored) \<and>
    proxy_current V 1 w'"
  using assms(1)
proof (cases rule: ReconcileHTTPRoute_cases [where req = req and w = w])
  case (same r)
  with assms(2,3) have "r = route"
    and u: "update_then V 1 done_ok (w\<lparr>w_State := store_HTTPRoute r (w_State w)\<rparr>) = (Inr done_ok, w')"
    by simp_all
  with update_then_current [OF u] show ?thesis
    by (simp add: store_HTTPRoute_lookup) blast
next
  case (written r route2 log)
  with assms(2,3) have "r = route"
    and u: "update_then V 1 done_ok (w\<lparr>w_Writes := log, w_State := store_HTTPRoute route2 (w_State w)\<rparr>) =
      (Inr done_ok, w')"
    by simp_all
  with written(2) assms(1) have "object_key route2 = object_key route"
    by (fastforce simp: keeps_keys_def)
  with written(2) \<open>r = route\<close> update_then_current [OF u] show ?thesis
    by (simp add: store_HTTPRoute_lookup) blast
qed (use assms(2,3) in auto)

text \<open>A successful first call in the example cluster.\<close>

lemma ex_route_called:
  assumes "state_ok (w_State w)" "routes_complete (w_State w)"
  obtains w' ps where "ReconcileHTTPRoute ex_env (NamespacedName ''default'' ''route'') w = (Inr done_ok, w')"
    "w_State w' = store_HTTPRoute (ex_route\<lparr>hr_Status_Parents := ps\<rparr>) (w_State w)"
proof -
  have total: "\<exists>w'. update_then ex_env 1 done_ok u = (Inr done_ok, w') \<and> w_State w' = w_State u"
    if "w_State u = store_HTTPRoute (ex_route\<lparr>hr_Status_Parents := ps\<rparr>) (w_State w)" for u ps
  proof -
    have "route_complete (ex_route\<lparr>hr_Status_Parents := ps\<rparr>)"
      using ex_route_complete by (simp add: route_complete_def)
    with assms that have "fst (update_then ex_env 1 done_ok u) = Inr done_ok"
      by (intro update_then_total) (simp_all add: state_ok_intros)
    then show ?thesis by (metis prod.collapse update_then_State)
  qed
  show thesis
    using ex_keeps_keys
  proof (cases rule: ReconcileHTTPRoute_cases [where req = "NamespacedName ''default'' ''route''" and w = w])
    case (same r)
    with ex_route_found have "r = ex_route\<lparr>hr_Status_Parents := hr_Status_Parents ex_route\<rparr>" by simp
    with same total [of "w\<lparr>w_State := store_HTTPRoute r (w_State w)\<rparr>"] that show ?thesis
      by (metis World.select_convs(1) World.surjective World.update_convs(1))
  next
    case (written r route2 log)
    let ?ps = "desired_parents (env_regexp ex_env) (listed_gateways ex_env w) (env_now ex_env) ex_route"
    have "route2 = ex_route\<lparr>hr_Status_Parents := ?ps\<rparr>"
      using written(1,2) ex_route_found by (simp add: ex_env_def ex_cluster_def)
    with written(3) total [of "w\<lparr>w_Writes := log, w_State := store_HTTPRoute route2 (w_State w)\<rparr>" ?ps]
      that [of _ ?ps] show ?thesis by auto
  qed (use ex_route_found in \<open>auto simp: ex_env_def ex_cluster_def\<close>)
qed

theorem route_reconciled_witness:
  "\<exists>w'. ReconcileHTTPRoute ex_env (NamespacedName ''default'' ''route'') ex_world = (Inr done_ok, w') \<and>
     (\<exists>stored. st_httpRoutes (w_State w') = [object_key ex_route \<mapsto> \<lparr>hs_HTTPRoute = Some stored\<rparr>])"
proof -
  obtain w' where w': "ReconcileHTTPRoute ex_env (NamespacedName ''default'' ''route'') ex_world = (Inr done_ok, w')"
    by (rule ex_route_called [OF ex_world_ok])
  from route_reconciled [OF ex_keeps_keys ex_route_found w'] w'
  show ?thesis by (auto simp: ex_world_def NewState_def)
qed


definition ex_stored_world :: World where
  "ex_stored_world = ex_world\<lparr>w_State := store_HTTPRoute ex_route (UpsertGateway ex_gateway NewState)\<rparr>"

lemma ex_stored_listed:
  "listed_gateways ex_env ex_stored_world = [\<lparr>gs_Gateway = ex_gateway\<rparr>]"
  "state_ok (w_State ex_stored_world)"
  using state_ok_intros
  by (simp_all add: listed_gateways_def ex_stored_world_def)
    (simp add: ex_env_def GetGateways_def UpsertGateway_def NewState_def)



text \<open>
  C29: when the API server rejects the status update, the call fails, but the state already holds
  the route with the status that was not saved (the stored pointer is the one the reconciler
  mutates), and the proxy keeps its old table: an edit of the route is not served.
\<close>

theorem rejected_status_stays_in_state:
  assumes "keeps_keys (env_cluster V)" "get_HTTPRoute (env_cluster V) req = Found route"
    and "parents_updated (hr_Status_Parents route)
      (desired_parents (env_regexp V) (listed_gateways V w) (env_now V) route)"
    and "\<And>r. put_HTTPRoute_status (env_cluster V) r = Inl err"
  shows "fst (ReconcileHTTPRoute V req w) = Inr (failed err) \<and>
    st_httpRoutes (w_State (snd (ReconcileHTTPRoute V req w))) (object_key route) =
      Some \<lparr>hs_HTTPRoute = Some (route\<lparr>hr_Status_Parents :=
        desired_parents (env_regexp V) (listed_gateways V w) (env_now V) route\<rparr>)\<rparr> \<and>
    w_Proxy (snd (ReconcileHTTPRoute V req w)) = w_Proxy w"
proof -
  have "object_key r' = object_key r" if "put_HTTPRoute_status (env_cluster V) r = Inr r'" for r r'
    using assms(1) that by (simp add: keeps_keys_def)
  then show ?thesis
    using ReconcileHTTPRoute_Found [OF assms(2), of w] assms(3,4)
    by (simp add: store_HTTPRoute_lookup)
qed

theorem rejected_status_stays_in_state_witness:
  "fst (ReconcileHTTPRoute ex_conflict_env (NamespacedName ''default'' ''route'') ex_world) =
     Inr (failed ''conflict'') \<and>
   w_Proxy (snd (ReconcileHTTPRoute ex_conflict_env (NamespacedName ''default'' ''route'') ex_world)) = NewProxy"
proof -
  have found: "get_HTTPRoute (env_cluster ex_conflict_env) (NamespacedName ''default'' ''route'') = Found ex_route"
    using ex_route_found by (simp add: ex_conflict_env_def ex_env_def)
  have "keeps_keys (env_cluster ex_conflict_env)"
    by (simp add: keeps_keys_def ex_conflict_env_def)
  moreover have "parents_updated (hr_Status_Parents ex_route)
      (desired_parents (env_regexp ex_conflict_env) (listed_gateways ex_conflict_env ex_world)
        (env_now ex_conflict_env) ex_route)"
    by (simp add: parents_updated_def desired_parents_def ex_route_def)
  moreover have "put_HTTPRoute_status (env_cluster ex_conflict_env) r = Inl ''conflict''" for r
    by (simp add: ex_conflict_env_def)
  ultimately have "fst (ReconcileHTTPRoute ex_conflict_env (NamespacedName ''default'' ''route'') ex_world) =
      Inr (failed ''conflict'') \<and>
    w_Proxy (snd (ReconcileHTTPRoute ex_conflict_env (NamespacedName ''default'' ''route'') ex_world)) = w_Proxy ex_world"
    using rejected_status_stays_in_state [OF _ found] by blast
  then show ?thesis by (simp add: ex_world_def)
qed

section \<open>Gateways\<close>

lemma changed_loop_map_eq:
  assumes "\<not> changed_loop changed olds news" "length olds = length news"
    and "\<And>a b. \<not> changed a b \<Longrightarrow> f a = f b"
  shows "map f olds = map f news"
  using assms changed_loop_iff [OF assms(2), of changed] by (intro nth_equalityI) auto





text \<open>
  A call on a gateway that is not ours (its class is missing, unreadable or of another
  controller) changes nothing: neither the state nor the proxy nor the API server. In
  particular a gateway that was ours before stays in the state and is served on.
\<close>

theorem foreign_gateway_ignored:
  assumes "get_Gateway (env_cluster V) req = Found gw"
    and "\<And>gc. get_GatewayClass (env_cluster V) (NamespacedName '''' (gw_GatewayClassName gw)) = Found gc \<Longrightarrow>
      gc_ControllerName gc \<noteq> ControllerName"
  shows "snd (ReconcileGateway V req w) = w"
  using ReconcileGateway_ignores [OF assms(1)] assms(2) by (auto simp: ours_def)

theorem foreign_gateway_ignored_witness:
  "snd (ReconcileGateway (ex_env\<lparr>env_cluster := ex_cluster\<lparr>get_GatewayClass := (\<lambda>_. NotFound ''gone'')\<rparr>\<rparr>)
     (NamespacedName ''default'' ''gw'') ex_world) = ex_world"
proof -
  let ?V = "ex_env\<lparr>env_cluster := ex_cluster\<lparr>get_GatewayClass := (\<lambda>_. NotFound ''gone'')\<rparr>\<rparr>"
  have "get_Gateway (env_cluster ?V) (NamespacedName ''default'' ''gw'') = Found ex_gateway"
    by (simp add: ex_cluster_def answers_def ex_gateway_def object_key_def)
  then show ?thesis by (rule foreign_gateway_ignored) simp
qed

text \<open>
  The routes attached to a listener are counted by acceptance anywhere: a route that refers to
  this gateway without being accepted by it is counted when another gateway has accepted it.
\<close>

lemma attached_routes_overcount:
  fixes other :: ParentReference
  defines "c \<equiv> \<lparr>cond_Type = RouteConditionAccepted, cond_Status = ConditionTrue, cond_ObservedGeneration = 7,
     cond_LastTransitionTime = 0, cond_Reason = RouteReasonAccepted, cond_Message = ''''\<rparr>"
  defines "rs \<equiv> \<lparr>hs_HTTPRoute = Some (ex_route\<lparr>hr_Status_Parents :=
     [\<lparr>rps_ParentRef = ex_ref\<lparr>pr_Name := ''other''\<rparr>, rps_ControllerName = ControllerName, rps_Conditions = [c]\<rparr>]\<rparr>)\<rparr>"
  shows "attached_routes_loop ex_gateway ex_listener [rs] 0 = Inr 1 \<and>
    \<not> MatchesGateway rs ex_gateway ControllerName"
  by (simp add: rs_def c_def IsAccepted_def MatchesGateway_def ex_objects)

text \<open>
  C28: the statuses of gateways and gateway classes settle too: on a status that a call at any
  time computed, for the same address and the routes that the state holds now, the reconcilers
  write nothing to the API server.
\<close>

theorem gateway_status_settles:
  assumes "state_ok (w_State w)" "ours V gw"
    and "get_Gateway (env_cluster V) req =
      Found (set_gateway_status (desired_gateway (listed_routes V w) ip t gw) gw)"
    and "get_Service (env_cluster V) (NamespacedName ''default'' ''gari-proxy'') = Found svc"
    and "svc_Ingress_IPs svc = ip # ips" "ip \<noteq> ''''"
    and "get_GatewayClass (env_cluster V) creq = Found (gc\<lparr>gc_Status_Conditions := desired_class t' gc\<rparr>)"
  shows "w_Writes (snd (ReconcileGateway V req w)) = w_Writes w \<and>
    snd (ReconcileGatewayClass V creq w) = w"
proof
  let ?gw = "set_gateway_status (desired_gateway (listed_routes V w) ip t gw) gw"
  have "ours V ?gw" using assms(2) by (simp add: ours_def set_gateway_status_def)
  moreover have ip: "first_ip (svc_Ingress_IPs svc) = ip" using assms(5) by (simp add: first_ip_def)
  ultimately have "ReconcileGateway V req w = report_Gateway V ?gw ip w"
    using ReconcileGateway_reports [OF assms(3) _ assms(4)] assms(6) by simp
  moreover have "\<not> gateway_updated (gateway_status_of ?gw) (desired_gateway (listed_routes V w) ip (env_now V) ?gw)"
    by (rule gateway_status.settled)
  ultimately show "w_Writes (snd (ReconcileGateway V req w)) = w_Writes w"
    by (simp add: report_Gateway_eq [OF assms(1)])
  let ?gc = "gc\<lparr>gc_Status_Conditions := desired_class t' gc\<rparr>"
  have "\<not> class_updated (gc_Status_Conditions ?gc) (desired_class 0 ?gc)"
    by (rule class_status.settled)
  then have "\<not> class_updated (gc_Status_Conditions ?gc) (class_conditions ?gc)"
    by (simp add: desired_class_def)
  then show "snd (ReconcileGatewayClass V creq w) = w"
    using assms(7) by (simp add: ReconcileGatewayClass_def Let_def)
qed

definition ex_settled_env :: Env where
  "ex_settled_env = ex_env\<lparr>env_cluster := ex_cluster\<lparr>
     get_Gateway := (\<lambda>_. Found (set_gateway_status
       (desired_gateway (listed_routes ex_env ex_stored_world) ''10.0.0.1'' 50 ex_gateway) ex_gateway)),
     get_GatewayClass := (\<lambda>_. Found (ex_class\<lparr>gc_Status_Conditions := desired_class 50 ex_class\<rparr>))\<rparr>\<rparr>"

theorem gateway_status_settles_witness:
  "w_Writes (snd (ReconcileGateway ex_settled_env (NamespacedName ''default'' ''gw'') ex_stored_world)) = [] \<and>
   snd (ReconcileGatewayClass ex_settled_env (NamespacedName '''' ''gari'') ex_stored_world) = ex_stored_world"
proof -
  have l: "listed_routes ex_settled_env ex_stored_world = listed_routes ex_env ex_stored_world"
    by (simp add: listed_routes_def ex_settled_env_def)
  have "ours ex_settled_env ex_gateway"
    by (simp add: ours_def ex_settled_env_def ex_class_def)
  moreover have "get_Gateway (env_cluster ex_settled_env) (NamespacedName ''default'' ''gw'') =
      Found (set_gateway_status (desired_gateway (listed_routes ex_settled_env ex_stored_world) ''10.0.0.1'' 50 ex_gateway) ex_gateway)"
    unfolding l by (simp add: ex_settled_env_def)
  moreover have "get_Service (env_cluster ex_settled_env) (NamespacedName ''default'' ''gari-proxy'') = Found ex_service"
    "svc_Ingress_IPs ex_service = ''10.0.0.1'' # []"
    "get_GatewayClass (env_cluster ex_settled_env) (NamespacedName '''' ''gari'') =
       Found (ex_class\<lparr>gc_Status_Conditions := desired_class 50 ex_class\<rparr>)"
    by (simp_all add: ex_settled_env_def ex_cluster_def answers_def ex_service_def object_key_def)
  ultimately show ?thesis
    using gateway_status_settles [OF ex_stored_listed(2)] by (simp add: ex_stored_world_def ex_world_def)
qed

section \<open>Backend TLS policies\<close>

text \<open>The gateways that are reported as ancestors of a policy.\<close>

definition using_gateways :: "Env \<Rightarrow> World \<Rightarrow> TargetRef \<Rightarrow> BackendTLSPolicy \<Rightarrow> Gateway list" where
  "using_gateways V w targetRef policy =
     filter (uses_service (NamespacedName (om_Namespace policy) (tr_Name targetRef))
         (GetHTTPRoutes (env_range V 1 (dom (st_httpRoutes (w_State w)))) (w_State w)))
       (map gs_Gateway (GetGateways (env_range V 0 (dom (st_gateways (w_State w)))) (w_State w)))"

lemma reported_ancestors_eq:
  "reported_ancestors V w targetRef policy =
     map (ancestor_status (env_now V) policy (unresolved_refs V policy))
       (using_gateways V w targetRef policy)"
  by (simp add: reported_ancestors_def desired_ancestors_def using_gateways_def)

lemma ancestors_not_updated:
  assumes "\<not> ancestors_updated olds (map (ancestor_status t policy un) gws)"
  shows "map pas_AncestorRef olds = map (\<lambda>gw. pas_AncestorRef (ancestor_status t policy un gw)) gws"
    and "a \<in> set olds \<Longrightarrow> \<not> conditions_updated same_condition (pas_Conditions a) (policy_conditions t policy un)"
proof -
  let ?news = "map (ancestor_status t policy un) gws"
  have l: "length olds = length ?news" "\<not> changed_loop ancestor_changed olds ?news"
    using assms by (auto simp: ancestors_updated_def split: if_splits)
  have "map pas_AncestorRef olds = map pas_AncestorRef ?news"
    by (rule changed_loop_map_eq [OF l(2,1)]) (simp add: ancestor_changed_def split: if_splits)
  then show "map pas_AncestorRef olds = map (\<lambda>gw. pas_AncestorRef (ancestor_status t policy un gw)) gws"
    by (simp add: comp_def)
  show "\<not> conditions_updated same_condition (pas_Conditions a) (policy_conditions t policy un)"
    if a: "a \<in> set olds"
  proof -
    obtain i where i: "i < length olds" "olds ! i = a" using a by (auto simp: in_set_conv_nth)
    then have "\<not> ancestor_changed a (ancestor_status t policy un (gws ! i))"
      using l changed_loop_iff [OF l(1), of ancestor_changed] by auto
    then show ?thesis by (simp add: ancestor_changed_def ancestor_status_def split: if_splits)
  qed
qed

text \<open>
  C26: after a successful call the policy is stored, valid or not, and its status names as
  ancestors exactly the gateways one of whose accepted routes uses the service of the first
  target reference; each of them reports \<open>Accepted\<close> as \<open>True\<close> exactly when every CA certificate
  reference is a config map that exists and holds a PEM certificate.
\<close>

theorem policy_reported:
  assumes "get_BackendTLSPolicy (env_cluster V) req = Found policy"
    and "btp_TargetRefs policy = targetRef # refs"
    and "\<And>p. put_BackendTLSPolicy_status (env_cluster V) p = Inr p"
    and "ReconcileBackendTLSPolicy V req w = (Inr done_ok, w')"
  shows "\<exists>stored. st_backendTLSPolicies (w_State w') (object_key policy) = Some stored \<and>
    btp_TargetRefs stored = btp_TargetRefs policy \<and>
    map (\<lambda>a. (pr_Namespace (pas_AncestorRef a), pr_Name (pas_AncestorRef a))) (btp_Status_Ancestors stored) =
      map (\<lambda>gw. (Some (om_Namespace gw), om_Name gw)) (using_gateways V w targetRef policy) \<and>
    (\<forall>a \<in> set (btp_Status_Ancestors stored). \<exists>c \<in> set (pas_Conditions a).
       cond_Type c = ''Accepted'' \<and>
       cond_Status c = (if unresolved_refs V policy = [] then ConditionTrue else ConditionFalse)) \<and>
    proxy_current V 2 w'"
proof -
  let ?un = "unresolved_refs V policy" and ?t = "env_now V"
  let ?d = "map (ancestor_status ?t policy ?un) (using_gateways V w targetRef policy)"
  note eq = ReconcileBackendTLSPolicy_Found [OF assms(1,2), of w, unfolded reported_ancestors_eq assms(3) sum.case]
  define stored where "stored = (if ancestors_updated (btp_Status_Ancestors policy) ?d
    then policy\<lparr>btp_Status_Ancestors := ?d\<rparr> else policy)"
  obtain log where u: "update_then V 2 done_ok
      (w\<lparr>w_Writes := log, w_State := UpsertBackendTLSPolicy stored (w_State w)\<rparr>) = (Inr done_ok, w')"
    using eq assms(4) that [of "w_Writes w"] that
    by (cases "ancestors_updated (btp_Status_Ancestors policy) ?d") (auto simp: stored_def)
  have key: "object_key stored = object_key policy" "btp_TargetRefs stored = btp_TargetRefs policy"
    by (simp_all add: stored_def object_key_def)
  have "\<not> ancestors_updated ?d ?d"
    by (simp add: ancestors_updated_def changed_loop_refl changed_loop_map ancestor_status_settled)
  then have nu: "\<not> ancestors_updated (btp_Status_Ancestors stored) ?d" by (simp add: stored_def)
  have refs: "map (\<lambda>r. (pr_Namespace r, pr_Name r)) (map pas_AncestorRef (btp_Status_Ancestors stored)) =
      map (\<lambda>gw. (Some (om_Namespace gw), om_Name gw)) (using_gateways V w targetRef policy)"
    unfolding ancestors_not_updated(1) [OF nu] by (simp add: ancestor_status_def Ptr_def)
  have "\<exists>c \<in> set (pas_Conditions a). cond_Type c = ''Accepted'' \<and>
      cond_Status c = (if ?un = [] then ConditionTrue else ConditionFalse)"
    if "a \<in> set (btp_Status_Ancestors stored)" for a
  proof -
    have "condition_matched same_condition (pas_Conditions a) (hd (policy_conditions ?t policy ?un))"
      using ancestors_not_updated(2) [OF nu that] unfolding conditions_updated_iff
      by (auto simp: policy_conditions_def Let_def)
    then obtain c where c: "find (\<lambda>c. cond_Type c = ''Accepted'') (pas_Conditions a) = Some c"
        "same_condition c (hd (policy_conditions ?t policy ?un))"
      unfolding condition_matched_find by (auto simp: policy_conditions_def Let_def)
    then have "cond_Status c = (if ?un = [] then ConditionTrue else ConditionFalse)"
      by (auto simp: same_condition_def policy_conditions_def Let_def)
    with find_Some_in [OF c(1)] show ?thesis by blast
  qed
  then show ?thesis
    using update_then_current [OF u] key refs by (auto simp: policies.lookup_upsert comp_def)
qed

lemma ex_policy_called:
  assumes "state_ok (w_State w)" "routes_complete (w_State w)"
  obtains w' where "ReconcileBackendTLSPolicy ex_env (NamespacedName ''default'' ''tls'') w = (Inr done_ok, w')"
proof -
  have t: "\<exists>w'. update_then ex_env 2 done_ok
      (w\<lparr>w_Writes := log, w_State := UpsertBackendTLSPolicy p (w_State w)\<rparr>) = (Inr done_ok, w')" for log p
    using update_then_total [of "w\<lparr>w_Writes := log, w_State := UpsertBackendTLSPolicy p (w_State w)\<rparr>"
        ex_env 2 done_ok] assms by (simp add: state_ok_intros) (metis prod.collapse)
  moreover have "\<exists>w'. update_then ex_env 2 done_ok
      (w\<lparr>w_State := UpsertBackendTLSPolicy p (w_State w)\<rparr>) = (Inr done_ok, w')" for p
    using t [where log = "w_Writes w"] by simp
  moreover have "get_BackendTLSPolicy (env_cluster ex_env) (NamespacedName ''default'' ''tls'') = Found ex_policy"
    "btp_TargetRefs ex_policy = hd (btp_TargetRefs ex_policy) # []"
    "put_BackendTLSPolicy_status (env_cluster ex_env) = Inr"
    by (simp_all add: ex_surroundings ex_policy_def)
  ultimately have "\<exists>w'. ReconcileBackendTLSPolicy ex_env (NamespacedName ''default'' ''tls'') w = (Inr done_ok, w')"
    using ReconcileBackendTLSPolicy_Found [of ex_env _ ex_policy "hd (btp_TargetRefs ex_policy)" "[]"] by simp
  with that show ?thesis by blast
qed

text \<open>A world that holds the gateway, and the route accepted by it.\<close>

definition ex_accepted_route :: HTTPRoute where
  "ex_accepted_route = ex_route\<lparr>hr_Status_Parents :=
     [\<lparr>rps_ParentRef = ex_ref, rps_ControllerName = ControllerName,
       rps_Conditions = [accepted_condition literal_engine 0 [\<lparr>gs_Gateway = ex_gateway\<rparr>] ex_route ex_ref]\<rparr>]\<rparr>"

definition ex_policy_world :: World where
  "ex_policy_world = ex_world\<lparr>w_State :=
     store_HTTPRoute ex_accepted_route (UpsertGateway ex_gateway NewState)\<rparr>"

lemma ex_policy_world_ok:
  "state_ok (w_State ex_policy_world)" "routes_complete (w_State ex_policy_world)"
proof -
  have "route_complete ex_accepted_route"
    using ex_route_complete by (simp add: ex_accepted_route_def route_complete_def)
  then show "state_ok (w_State ex_policy_world)" "routes_complete (w_State ex_policy_world)"
    using ex_world_ok by (simp_all add: ex_policy_world_def state_ok_intros ex_world_def)
qed

lemma ex_accepted_route_matches:
  "MatchesGateway \<lparr>hs_HTTPRoute = Some ex_accepted_route\<rparr> ex_gateway ControllerName"
proof -
  have "fst (accepted_outcome literal_engine ex_route ex_ref [\<lparr>gs_Gateway = ex_gateway\<rparr>]) = ConditionTrue"
    by code_simp
  then have "cond_Status (accepted_condition literal_engine 0 [\<lparr>gs_Gateway = ex_gateway\<rparr>] ex_route ex_ref) =
      ConditionTrue"
    by (auto simp: accepted_condition_def split: prod.splits)
  then show ?thesis
    by (simp add: MatchesGateway_def ex_accepted_route_def ex_ref_def ex_gateway_def)
qed

lemma ex_using_gateways:
  "using_gateways ex_env ex_policy_world (hd (btp_TargetRefs ex_policy)) ex_policy = [ex_gateway]"
proof -
  have gates: "GetGateways (env_range ex_env 0 (dom (st_gateways (w_State ex_policy_world)))) (w_State ex_policy_world) =
      [\<lparr>gs_Gateway = ex_gateway\<rparr>]"
    by (simp add: GetGateways_def ex_policy_world_def UpsertGateway_def NewState_def ex_env_def)
  have routes: "GetHTTPRoutes (env_range ex_env 1 (dom (st_httpRoutes (w_State ex_policy_world)))) (w_State ex_policy_world) =
      [\<lparr>hs_HTTPRoute = Some ex_accepted_route\<rparr>]"
    by (simp add: GetHTTPRoutes_def ex_policy_world_def store_HTTPRoute_def UpsertGateway_def
        NewState_def ex_env_def)
  have "uses_service (NamespacedName ''default'' ''api'') [\<lparr>hs_HTTPRoute = Some ex_accepted_route\<rparr>] ex_gateway"
    using ex_accepted_route_matches
    by (simp add: uses_service_def)
      (simp add: ex_accepted_route_def ex_route_parts ref_names_service_def backend_namespace_def
        ex_backend_def)
  then show ?thesis unfolding using_gateways_def gates routes by (simp add: ex_policy_def)
qed

theorem policy_reported_witness:
  "\<exists>w' stored a. ReconcileBackendTLSPolicy ex_env (NamespacedName ''default'' ''tls'') ex_policy_world = (Inr done_ok, w') \<and>
     st_backendTLSPolicies (w_State w') (NamespacedName ''default'' ''tls'') = Some stored \<and>
     btp_Status_Ancestors stored = [a] \<and> pr_Name (pas_AncestorRef a) = ''gw''"
proof -
  obtain w' where w': "ReconcileBackendTLSPolicy ex_env (NamespacedName ''default'' ''tls'') ex_policy_world = (Inr done_ok, w')"
    by (rule ex_policy_called [OF ex_policy_world_ok])
  have f: "get_BackendTLSPolicy (env_cluster ex_env) (NamespacedName ''default'' ''tls'') = Found ex_policy"
    "btp_TargetRefs ex_policy = hd (btp_TargetRefs ex_policy) # []"
    "object_key ex_policy = NamespacedName ''default'' ''tls''"
    by (simp_all add: ex_surroundings ex_policy_def)
  have "put_BackendTLSPolicy_status (env_cluster ex_env) p = Inr p" for p
    by (simp add: ex_env_def ex_cluster_def)
  from policy_reported [OF f(1,2) this w', unfolded ex_using_gateways f(3)] w'
  show ?thesis by (auto simp: ex_gateway_def)
qed

text \<open>
  The comparison of ancestors goes by position: two gateways listed in another order than the
  reported one, which the Go map's range order is free to choose, count as a change and cause
  another write.
\<close>

lemma ancestor_order_rewrites:
  assumes "object_key g1 \<noteq> object_key g2"
  shows "ancestors_updated (map (ancestor_status t policy un) [g1, g2])
    (map (ancestor_status t' policy un) [g2, g1])"
  using assms ancestors_updated_order [of 0 "[g1, g2]" "[g2, g1]" t policy un t']
  by (simp add: object_key_def)

section \<open>Which objects are reconciled after a change\<close>

text \<open>
  A changed route causes a request for exactly the gateways that it refers to, in its own
  namespace; a changed config map causes one for exactly the policies of its namespace, as the
  client lists them, that refer to it as a CA certificate.
\<close>

theorem watch_requests_exact:
  "set (gateways_for_route route) =
     {NamespacedName (om_Namespace route) (pr_Name pr) | pr. pr \<in> set (hr_ParentRefs route) \<and>
        ValueOf '''' (pr_Group pr) \<in> {'''', ''gateway.networking.k8s.io''} \<and>
        ValueOf '''' (pr_Kind pr) \<in> {'''', ''Gateway''}} \<and>
   set (policies_for_config_map listed cm) =
     {object_key p | p. p \<in> (case listed (om_Namespace cm) of Inl err \<Rightarrow> {} | Inr ps \<Rightarrow> set ps) \<and>
        (\<exists>r \<in> set (btp_CACertificateRefs p).
           tr_Group r = '''' \<and> tr_Kind r = ''ConfigMap'' \<and> tr_Name r = om_Name cm)}"
proof
  show "set (gateways_for_route route) =
     {NamespacedName (om_Namespace route) (pr_Name pr) | pr. pr \<in> set (hr_ParentRefs route) \<and>
        ValueOf '''' (pr_Group pr) \<in> {'''', ''gateway.networking.k8s.io''} \<and>
        ValueOf '''' (pr_Kind pr) \<in> {'''', ''Gateway''}}"
    unfolding gateways_for_route_def gateway_requests_set by blast
  show "set (policies_for_config_map listed cm) =
     {object_key p | p. p \<in> (case listed (om_Namespace cm) of Inl err \<Rightarrow> {} | Inr ps \<Rightarrow> set ps) \<and>
        (\<exists>r \<in> set (btp_CACertificateRefs p).
           tr_Group r = '''' \<and> tr_Kind r = ''ConfigMap'' \<and> tr_Name r = om_Name cm)}"
    by (cases "listed (om_Namespace cm)")
      (auto simp: policies_for_config_map_def policy_requests_eq references_config_map_iff)
qed

end
