(* ===== verification/ServedHosts.thy ===== *)
theory ServedHosts
  imports StateProperties ControllerProperties
begin

text \<open>
  From the state to the proxy: the hosts that the objects of a state ask for are the hosts that
  a table built from the state accepts.
\<close>

text \<open>The hosts that the state says should be served.\<close>

definition host_attached :: "regexp_engine \<Rightarrow> State \<Rightarrow> string \<Rightarrow> bool" where
  "host_attached E st host \<longleftrightarrow>
     (\<exists>gw \<in> ran (st_gateways st). \<exists>l \<in> set (gw_Listeners (gs_Gateway gw)).
      \<exists>rs \<in> ran (st_httpRoutes st). \<exists>hr.
        hs_HTTPRoute rs = Some hr \<and> attached E gw l hr \<and> listener_serves l host \<and>
        hostnames_cover (hr_Hostnames hr) host)"

definition state_hostnames_nonempty :: "State \<Rightarrow> bool" where
  "state_hostnames_nonempty st \<longleftrightarrow>
     (\<forall>rs \<in> ran (st_httpRoutes st). \<forall>hr. hs_HTTPRoute rs = Some hr \<longrightarrow> '''' \<notin> set (hr_Hostnames hr))"

lemma proxy_hosts:
  assumes "range_choice_ok V" "state_ok (w_State w)" "state_hostnames_nonempty (w_State w)"
    and "proxy_current V i w"
  shows "(\<exists>ir \<in> set (px_routes (w_Proxy w)). MatchHostname ir host) \<longleftrightarrow>
    host_attached (env_regexp V) (w_State w) (strip_port host)"
proof -
  let ?st = "w_State w" and ?E = "env_regexp V"
  let ?gws = "GetGateways (env_range V i (dom (st_gateways ?st))) ?st"
  let ?rs = "GetHTTPRoutes (env_range V (i + 1) (dom (st_httpRoutes ?st))) ?st"
  let ?build = "\<lambda>gw. BuildInternalRoutes ?E (env_now V) gw ?rs (snapshot_inputs V i ?st) ControllerName"
  have c: "concat_result ?build ?gws = Inr (px_routes (w_Proxy w))"
    using assms(4) by (simp add: proxy_current_def proxy_table_def Let_def)
  have gws: "set ?gws = ran (st_gateways ?st)"
    by (rule GetGateways_set [OF range_choice_order [OF assms(1) state_ok_finite(1) [OF assms(2)]]])
  have rs: "set ?rs = ran (st_httpRoutes ?st)"
    by (rule GetHTTPRoutes_set [OF range_choice_order [OF assms(1) state_ok_finite(2) [OF assms(2)]]])
  have ne: "hostnames_nonempty ?rs"
    using assms(3) unfolding hostnames_nonempty_def state_hostnames_nonempty_def rs .
  have "(\<exists>ir \<in> set (px_routes (w_Proxy w)). MatchHostname ir host) \<longleftrightarrow>
      (\<exists>gw \<in> set ?gws. \<exists>irs. ?build gw = Inr irs \<and> (\<exists>ir \<in> set irs. MatchHostname ir host))"
    using concat_result_Inr_set [OF c] by blast
  also have "\<dots> \<longleftrightarrow> (\<exists>gw \<in> set ?gws. \<exists>irs. ?build gw = Inr irs \<and>
      (\<exists>l \<in> set (gw_Listeners (gs_Gateway gw)). \<exists>r \<in> set ?rs. \<exists>hr. hs_HTTPRoute r = Some hr \<and>
         attached ?E gw l hr \<and> listener_serves l (strip_port host) \<and>
         hostnames_cover (hr_Hostnames hr) (strip_port host)))"
    using table_hosts [OF _ ne, where host = host] by metis
  also have "\<dots> \<longleftrightarrow> host_attached ?E ?st (strip_port host)"
    unfolding host_attached_def gws [symmetric] rs [symmetric]
    using concat_result_Inr_member [OF c] by blast
  finally show ?thesis .
qed

lemma route_loop_no_host:
  "\<forall>ir \<in> set irs. \<not> MatchHostname ir (req_Host r) \<Longrightarrow> route_loop E r irs b = b"
  by (induction irs) auto

end
