(* ===== verification/ManagerCalls.thy ===== *)
theory ManagerCalls
  imports RunningSystem ServedHosts
begin

text \<open>
  What one call does to the state of the running system while others are at work: the objects of
  a cluster and their specifications (the part that is not status), what the state should hold of
  them, and the steps of the six reconcilers measured against it.
\<close>

section \<open>Objects and their specifications\<close>

fun spec_of :: "api_object \<Rightarrow> api_object" where
  "spec_of (HTTPRouteObject r) = HTTPRouteObject (route_spec r)"
| "spec_of (GatewayObject gw) = GatewayObject (gateway_spec gw)"
| "spec_of (BackendTLSPolicyObject p) = BackendTLSPolicyObject (policy_spec p)"
| "spec_of obj = obj"

text \<open>
  Which classes name our controller, and which gateways are of such a class; what the state
  holds, and what it should hold.
\<close>

record Ownership =
  own_Classes :: "string set"
  own_Gateways :: "NamespacedName set"

fun held :: "State \<Rightarrow> kind \<Rightarrow> NamespacedName \<Rightarrow> api_object option" where
  "held st KindHTTPRoute k =
     Option.bind (st_httpRoutes st k) (\<lambda>rs. map_option HTTPRouteObject (hs_HTTPRoute rs))"
| "held st KindGatewayClass k = None"
| "held st KindGateway k = map_option (\<lambda>gs. GatewayObject (gs_Gateway gs)) (st_gateways st k)"
| "held st KindService k = map_option ServiceObject (st_services st k)"
| "held st KindBackendTLSPolicy k = map_option BackendTLSPolicyObject (st_backendTLSPolicies st k)"
| "held st KindConfigMap k = map_option ConfigMapObject (st_configMaps st k)"

definition unowned :: "Ownership \<Rightarrow> kind \<Rightarrow> NamespacedName \<Rightarrow> bool" where
  "unowned own kd k \<longleftrightarrow> kd = KindGateway \<and> k \<notin> own_Gateways own"

definition wanted :: "Ownership \<Rightarrow> objects \<Rightarrow> kind \<Rightarrow> NamespacedName \<Rightarrow> api_object option" where
  "wanted own objs kd k =
     (if kd = KindGatewayClass \<or> unowned own kd k then None else objs (kd, k))"

abbreviation same_spec :: "api_object option \<Rightarrow> api_object option \<Rightarrow> bool" where
  "same_spec a b \<equiv> map_option spec_of a = map_option spec_of b"

text \<open>What the CRD schema guarantees of a route.\<close>

definition route_schema :: "HTTPRoute \<Rightarrow> bool" where
  "route_schema r \<longleftrightarrow> route_complete r \<and> '''' \<notin> set (hr_Hostnames r)"

lemma held_upserts [simp]:
  "held (UpsertService v st) kd k =
     (if kd = KindService \<and> k = object_key v then Some (ServiceObject v) else held st kd k)"
  "held (UpsertConfigMap cm st) kd k =
     (if kd = KindConfigMap \<and> k = object_key cm then Some (ConfigMapObject cm) else held st kd k)"
  "held (UpsertGateway gw st) kd k =
     (if kd = KindGateway \<and> k = object_key gw then Some (GatewayObject gw) else held st kd k)"
  "held (store_HTTPRoute r st) kd k =
     (if kd = KindHTTPRoute \<and> k = object_key r then Some (HTTPRouteObject r) else held st kd k)"
  "held (UpsertBackendTLSPolicy p st) kd k =
     (if kd = KindBackendTLSPolicy \<and> k = object_key p then Some (BackendTLSPolicyObject p)
      else held st kd k)"
  by (cases kd; simp add: UpsertService_def UpsertConfigMap_def UpsertGateway_def
      store_HTTPRoute_def UpsertBackendTLSPolicy_def object_key_def)+

lemma held_deletes [simp]:
  "held (DeleteService j st) kd k = (if kd = KindService \<and> k = j then None else held st kd k)"
  "held (DeleteConfigMap j st) kd k = (if kd = KindConfigMap \<and> k = j then None else held st kd k)"
  "held (DeleteGateway j st) kd k = (if kd = KindGateway \<and> k = j then None else held st kd k)"
  "held (DeleteHTTPRoute j st) kd k = (if kd = KindHTTPRoute \<and> k = j then None else held st kd k)"
  "held (DeleteBackendTLSPolicy j st) kd k =
     (if kd = KindBackendTLSPolicy \<and> k = j then None else held st kd k)"
  by (cases kd; simp add: DeleteService_def DeleteConfigMap_def DeleteGateway_def
      DeleteHTTPRoute_def DeleteBackendTLSPolicy_def)+

declare held.simps [simp del]

lemma spec_fields [simp]:
  "object_key (route_spec r) = object_key r" "hr_Rules (route_spec r) = hr_Rules r"
  "hr_Hostnames (route_spec r) = hr_Hostnames r" "hr_ParentRefs (route_spec r) = hr_ParentRefs r"
  "object_key (gateway_spec g) = object_key g" "gw_Listeners (gateway_spec g) = gw_Listeners g"
  "object_key (policy_spec p) = object_key p"
  by (simp_all add: route_spec_def gateway_spec_def set_gateway_status_def policy_spec_def object_key_def)

lemma spec_keys:
  "route_spec r = route_spec r' \<Longrightarrow> object_key r = object_key r'"
  "gateway_spec g = gateway_spec g' \<Longrightarrow> object_key g = object_key g'"
  "policy_spec p = policy_spec p' \<Longrightarrow> object_key p = object_key p'"
  by (metis spec_fields)+

lemma route_schema_spec [simp]: "route_schema (route_spec r) = route_schema r"
  by (simp add: route_schema_def route_complete_def)

lemma spec_set_status [simp]:
  "route_spec (r\<lparr>hr_Status_Parents := ps\<rparr>) = route_spec r"
  "gateway_spec (set_gateway_status gst g) = gateway_spec g"
  "policy_spec (p\<lparr>btp_Status_Ancestors := as\<rparr>) = policy_spec p"
  by (simp_all add: route_spec_def gateway_spec_def set_gateway_status_def policy_spec_def)

section \<open>The objects of the cluster\<close>

text \<open>
  The cluster the properties are about: objects are filed under their names and pass the CRD
  schema, every gateway is created after its class, classes are not removed, and neither the
  controller of a class nor the class of a gateway changes between ours and another's.
\<close>

definition class_named :: "objects \<Rightarrow> string \<Rightarrow> GatewayClass option" where
  "class_named objs name =
     (case objs (KindGatewayClass, NamespacedName '''' name) of
        Some (GatewayClassObject gc) \<Rightarrow> Some gc | _ \<Rightarrow> None)"

fun well_formed :: "Ownership \<Rightarrow> objects \<Rightarrow> api_object \<Rightarrow> bool" where
  "well_formed own objs (HTTPRouteObject r) \<longleftrightarrow> route_schema r"
| "well_formed own objs (GatewayObject gw) \<longleftrightarrow>
     class_named objs (gw_GatewayClassName gw) \<noteq> None \<and>
     (gw_GatewayClassName gw \<in> own_Classes own \<longleftrightarrow> object_key gw \<in> own_Gateways own)"
| "well_formed own objs (BackendTLSPolicyObject p) \<longleftrightarrow> btp_TargetRefs p \<noteq> []"
| "well_formed own objs (GatewayClassObject gc) \<longleftrightarrow>
     om_Namespace gc = '''' \<and> (gc_ControllerName gc = ControllerName \<longleftrightarrow> om_Name gc \<in> own_Classes own)"
| "well_formed own objs obj \<longleftrightarrow> True"

definition objects_ok :: "Ownership \<Rightarrow> objects \<Rightarrow> bool" where
  "objects_ok own objs \<longleftrightarrow> finite (dom objs) \<and>
     (\<forall>kd k obj. objs (kd, k) = Some obj \<longrightarrow> obj_id obj = (kd, k) \<and> well_formed own objs obj)"

fun admitted :: "Ownership \<Rightarrow> objects \<Rightarrow> object_change \<Rightarrow> bool" where
  "admitted own objs (Put obj) \<longleftrightarrow> well_formed own objs obj"
| "admitted own objs (Remove (kd, k)) \<longleftrightarrow> kd \<noteq> KindGatewayClass"

lemma objects_ok_kind:
  assumes "objects_ok own objs" "objs (kd, k) = Some obj"
  shows "kind_of obj = kd" "key_of obj = k" "well_formed own objs obj"
  using assms by (auto simp: objects_ok_def)

lemma class_named_change:
  assumes "admitted own objs c" "class_named objs name \<noteq> None"
  shows "class_named (change_objects c objs) name \<noteq> None"
proof (cases c)
  case (Put obj)
  with assms show ?thesis
    by (cases obj) (auto simp: class_named_def change_objects_def object_key_def)
next
  case (Remove id)
  with assms show ?thesis
    by (cases id) (auto simp: class_named_def change_objects_def)
qed

lemma well_formed_change:
  "admitted own objs c \<Longrightarrow> well_formed own objs obj \<Longrightarrow> well_formed own (change_objects c objs) obj"
  by (cases obj) (auto simp: class_named_change simp del: not_None_eq)

lemma objects_ok_change:
  assumes "objects_ok own objs" "admitted own objs c"
  shows "objects_ok own (change_objects c objs)"
proof -
  have "obj_id obj = (kd, k) \<and> well_formed own (change_objects c objs) obj"
    if obj: "change_objects c objs (kd, k) = Some obj" for kd k obj
  proof -
    have "obj_id obj = (kd, k) \<and> well_formed own objs obj"
    proof (cases "op_key obj_id c = (kd, k)")
      case True
      with obj assms(2) show ?thesis by (cases c) (auto simp: change_objects_def)
    next
      case False
      with obj assms(1) show ?thesis by (auto simp: change_objects_def objects_ok_def)
    qed
    with well_formed_change [OF assms(2)] show ?thesis by blast
  qed
  moreover have "finite (dom (change_objects c objs))"
    using assms(1) by (simp add: change_objects_def objects_ok_def)
  ultimately show ?thesis unfolding objects_ok_def by blast
qed

lemma objects_ok_empty: "objects_ok own Map.empty"
  by (simp add: objects_ok_def)

section \<open>Calls among others\<close>

text \<open>The client's answers, read as facts about the cluster.\<close>

lemma reads_Found: "reads wrap cached r \<Longrightarrow> r = Found x \<Longrightarrow> cached = Some (wrap x)"
  and reads_NotFound: "reads wrap cached r \<Longrightarrow> r = NotFound e \<Longrightarrow> cached = None"
  by auto

lemma client_reads_each:
  assumes "surroundings_ok E objs V"
  shows "reads HTTPRouteObject (objs (KindHTTPRoute, k)) (get_HTTPRoute (env_cluster V) k)"
    and "reads GatewayObject (objs (KindGateway, k)) (get_Gateway (env_cluster V) k)"
    and "reads GatewayClassObject (objs (KindGatewayClass, k)) (get_GatewayClass (env_cluster V) k)"
    and "reads ServiceObject (objs (KindService, k)) (get_Service (env_cluster V) k)"
    and "reads ConfigMapObject (objs (KindConfigMap, k)) (get_ConfigMap (env_cluster V) k)"
    and "reads BackendTLSPolicyObject (objs (KindBackendTLSPolicy, k))
      (get_BackendTLSPolicy (env_cluster V) k)"
  using assms by (auto simp: surroundings_ok_def client_reads_def)

lemma class_found:
  assumes "surroundings_ok E objs V" "objects_ok own objs"
    and "objs (KindGateway, k) = Some (GatewayObject gw)"
  shows "get_GatewayClass (env_cluster V) (NamespacedName '''' (gw_GatewayClassName gw)) \<noteq> NotFound e"
proof
  assume "get_GatewayClass (env_cluster V) (NamespacedName '''' (gw_GatewayClassName gw)) = NotFound e"
  from reads_NotFound [OF client_reads_each(3) [OF assms(1)] this]
  have "class_named objs (gw_GatewayClassName gw) = None" by (simp add: class_named_def)
  with objects_ok_kind [OF assms(2,3)] show False by simp
qed

text \<open>A class is ours exactly when its name is one of \<open>own_Classes\<close>.\<close>

lemma class_ours:
  assumes "surroundings_ok E objs V" "objects_ok own objs"
    and "get_GatewayClass (env_cluster V) (NamespacedName '''' name) = Found gc"
  shows "gc_ControllerName gc = ControllerName \<longleftrightarrow> name \<in> own_Classes own"
  using objects_ok_kind [OF assms(2) reads_Found [OF client_reads_each(3) [OF assms(1)] assms(3)]]
  by (simp add: object_key_def)

lemma keeps_specs_keys: "surroundings_ok E objs V \<Longrightarrow> keeps_keys (env_cluster V)"
  using spec_keys(1) unfolding surroundings_ok_def keeps_specs_def keeps_keys_def by blast

text \<open>
  What a step may rely on, and what it owes the others. It meets an environment that fits the
  objects of the cluster as they are now, and a well-formed state that holds \<open>h\<close> under the name
  the call is about; nobody else writes there, because the controller of a kind has one worker.
  \<open>watch\<close> is the object of the cluster under that name for as long as it has not changed since
  the call began. The step leaves the rest of the state and the proxy alone, keeps foreign
  gateways out, and stores routes that pass the schema only. The call ends with a retry or with
  the specification that the cluster has, if that is still what it was.
\<close>

definition relies ::
    "regexp_engine \<Rightarrow> Ownership \<Rightarrow> kind \<Rightarrow> NamespacedName \<Rightarrow> api_object option option \<Rightarrow>
     api_object option \<Rightarrow> objects \<Rightarrow> Env \<Rightarrow> World \<Rightarrow> bool" where
  "relies E own kd k watch h objs V w \<longleftrightarrow>
     surroundings_ok E objs V \<and> objects_ok own objs \<and> watch \<in> {None, Some (objs (kd, k))} \<and>
     state_ok (w_State w) \<and> held (w_State w) kd k = h \<and> (unowned own kd k \<longrightarrow> h = None)"

definition state_moves :: "Ownership \<Rightarrow> kind \<Rightarrow> NamespacedName \<Rightarrow> State \<Rightarrow> State \<Rightarrow> bool" where
  "state_moves own kd k st st' \<longleftrightarrow>
     state_ok st' \<and> (\<forall>kd' k'. (kd', k') \<noteq> (kd, k) \<longrightarrow> held st' kd' k' = held st kd' k') \<and>
     (unowned own kd k \<longrightarrow> held st' kd k = None) \<and>
     (\<forall>r. kd = KindHTTPRoute \<and> held st' kd k = Some (HTTPRouteObject r) \<longrightarrow>
        route_schema r \<or> held st kd k = Some (HTTPRouteObject r))"

definition settled ::
    "Ownership \<Rightarrow> kind \<Rightarrow> NamespacedName \<Rightarrow> api_object option option \<Rightarrow> api_object option \<Rightarrow> bool" where
  "settled own kd k watch h \<longleftrightarrow>
     (\<forall>x. watch = Some x \<longrightarrow> same_spec h (wanted own (\<lambda>_. x) kd k))"

primrec good ::
    "regexp_engine \<Rightarrow> Ownership \<Rightarrow> kind \<Rightarrow> NamespacedName \<Rightarrow> api_object option option \<Rightarrow> front \<Rightarrow>
     api_object option \<Rightarrow> bool" where
  "good E own kd k watch (Reply out) = (\<lambda>h. retried out \<or> settled own kd k watch h)"
| "good E own kd k watch (Crash panic) = (\<lambda>h. False)"
| "good E own kd k watch UpdateProxy = settled own kd k watch"
| "good E own kd k watch (Step effect rest) = (\<lambda>h. \<forall>objs V w. relies E own kd k watch h objs V w \<longrightarrow>
     state_moves own kd k (w_State w) (w_State (effect V w)) \<and> w_Proxy (effect V w) = w_Proxy w \<and>
     good E own kd k watch (rest V w) (held (w_State (effect V w)) kd k))"

lemma state_moves_refl:
  "relies E own kd k watch h objs V w \<Longrightarrow> state_moves own kd k (w_State w) (w_State w)"
  by (auto simp: relies_def state_moves_def)

lemma relies_held: "relies E own kd k watch h objs V w \<Longrightarrow> held (w_State w) kd k = h"
  by (simp add: relies_def)

lemma good_fetch:
  "(\<And>objs V w. relies E own kd k watch h objs V w \<Longrightarrow> good E own kd k watch (f (get (env_cluster V))) h) \<Longrightarrow>
   good E own kd k watch (fetch get f) h"
  by (auto simp: fetch_def state_moves_refl relies_held)

lemma good_put_status:
  "(\<And>objs V w. relies E own kd k watch h objs V w \<Longrightarrow> good E own kd k watch (f (put (env_cluster V))) h) \<Longrightarrow>
   good E own kd k watch (put_status written put f) h"
  by (auto simp: put_status_def state_moves_refl relies_held)

lemma good_clock:
  "(\<And>now. good E own kd k watch (f now) h) \<Longrightarrow> good E own kd k watch (clock f) h"
  by (auto simp: clock_def state_moves_refl relies_held)

lemma good_look:
  "(\<And>objs V w. relies E own kd k watch h objs V w \<Longrightarrow> good E own kd k watch (f (get V (w_State w))) h) \<Longrightarrow>
   good E own kd k watch (look get f) h"
  by (auto simp: look_def state_moves_refl relies_held)

lemma good_change:
  assumes "\<And>objs V w. relies E own kd k watch h objs V w \<Longrightarrow>
      state_moves own kd k (w_State w) (snd (f V (w_State w))) \<and>
      good E own kd k watch (g (fst (f V (w_State w)))) (held (snd (f V (w_State w))) kd k)"
  shows "good E own kd k watch (change f g) h"
  using assms by (simp add: change_def)

lemma good_store_then:
  assumes "\<And>objs V w. relies E own kd k watch h objs V w \<Longrightarrow>
      state_moves own kd k (w_State w) (f (w_State w)) \<and>
      good E own kd k watch p (held (f (w_State w)) kd k)"
  shows "good E own kd k watch (store_then f p) h"
  using assms by (auto simp: store_then_def intro!: good_change)

lemma settledI:
  "relies E own kd k watch h objs V w \<Longrightarrow> same_spec h' (wanted own objs kd k) \<Longrightarrow> settled own kd k watch h'"
  by (auto simp: settled_def relies_def wanted_def)

section \<open>The steps of each reconciler\<close>

lemma relies_client:
  assumes "relies E own kd k watch h objs V w"
  shows "surroundings_ok E objs V" "objects_ok own objs" "state_ok (w_State w)" "held (w_State w) kd k = h"
    "unowned own kd k \<Longrightarrow> h = None" "env_regexp V = E"
  using assms by (auto simp: relies_def surroundings_ok_def)

text \<open>The last two steps of most calls: a write of the state and \<open>updateProxy\<close>.\<close>

lemma good_last_store:
  assumes "settled own kd k watch h'"
    and "\<And>st kd' k'. held (f st) kd' k' = (if kd' = kd \<and> k' = k then h' else held st kd' k')"
    and "\<And>st. state_ok st \<Longrightarrow> state_ok (f st)"
    and "unowned own kd k \<Longrightarrow> h' = None"
    and "\<And>r. kd = KindHTTPRoute \<Longrightarrow> h' = Some (HTTPRouteObject r) \<Longrightarrow> route_schema r"
  shows "good E own kd k watch (store_then f UpdateProxy) h"
  using assms by (intro good_store_then) (auto simp: state_moves_def relies_def)

lemma good_Service: "good E own KindService req watch (Service_steps req) h"
  unfolding Service_steps_def
proof (rule good_fetch)
  fix objs V w assume r: "relies E own KindService req watch h objs V w"
  note client = client_reads_each(4) [OF relies_client(1) [OF r], of req]
  show "good E own KindService req watch (case get_Service (env_cluster V) req of
      NotFound _ \<Rightarrow> store_then (DeleteService req) UpdateProxy
    | GetFailed err \<Rightarrow> Reply (failed err)
    | Found svc \<Rightarrow> store_then (UpsertService svc) UpdateProxy) h"
  proof (cases "get_Service (env_cluster V) req")
    case (Found svc)
    note obj = reads_Found [OF client Found]
    have key: "object_key svc = req" using objects_ok_kind(2) [OF relies_client(2) [OF r] obj] by simp
    have "settled own KindService req watch (Some (ServiceObject svc))"
      by (rule settledI [OF r]) (simp add: wanted_def unowned_def obj)
    then show ?thesis using key Found
      by (auto intro!: good_last_store simp: state_ok_intros unowned_def)
  next
    case (NotFound err)
    have "settled own KindService req watch None"
      by (rule settledI [OF r]) (simp add: wanted_def unowned_def reads_NotFound [OF client NotFound])
    then show ?thesis using NotFound by (auto intro!: good_last_store simp: state_ok_intros)
  qed simp
qed

lemma good_ConfigMap: "good E own KindConfigMap req watch (ConfigMap_steps req) h"
  unfolding ConfigMap_steps_def
proof (rule good_fetch)
  fix objs V w assume r: "relies E own KindConfigMap req watch h objs V w"
  note client = client_reads_each(5) [OF relies_client(1) [OF r], of req]
  show "good E own KindConfigMap req watch (case get_ConfigMap (env_cluster V) req of
      NotFound _ \<Rightarrow> store_then (DeleteConfigMap req) UpdateProxy
    | GetFailed err \<Rightarrow> Reply (failed err)
    | Found cm \<Rightarrow> store_then (UpsertConfigMap cm) UpdateProxy) h"
  proof (cases "get_ConfigMap (env_cluster V) req")
    case (Found cm)
    note obj = reads_Found [OF client Found]
    have key: "object_key cm = req" using objects_ok_kind(2) [OF relies_client(2) [OF r] obj] by simp
    have "settled own KindConfigMap req watch (Some (ConfigMapObject cm))"
      by (rule settledI [OF r]) (simp add: wanted_def unowned_def obj)
    then show ?thesis using key Found
      by (auto intro!: good_last_store simp: state_ok_intros unowned_def)
  next
    case (NotFound err)
    have "settled own KindConfigMap req watch None"
      by (rule settledI [OF r]) (simp add: wanted_def unowned_def reads_NotFound [OF client NotFound])
    then show ?thesis using NotFound by (auto intro!: good_last_store simp: state_ok_intros)
  qed simp
qed

lemma good_GatewayClass: "good E own KindGatewayClass req watch (GatewayClass_steps req) h"
proof -
  have s: "settled own KindGatewayClass req watch h" if "relies E own KindGatewayClass req watch h objs V w"
    for objs V w h
    using that by (intro settledI [OF that]) (auto simp: wanted_def relies_def held.simps)
  show ?thesis
    unfolding GatewayClass_steps_def Let_def
    by (rule good_fetch)
      (auto split: get_result.split sum.split intro!: good_clock good_put_status dest: s)
qed
text \<open>The status update answers with the same specification.\<close>

lemma answered_specs:
  assumes "surroundings_ok E objs V"
  shows "put_HTTPRoute_status (env_cluster V) r = Inr r' \<Longrightarrow> route_spec r' = route_spec r"
    and "put_Gateway_status (env_cluster V) gw = Inr gw' \<Longrightarrow> gateway_spec gw' = gateway_spec gw"
    and "put_BackendTLSPolicy_status (env_cluster V) p = Inr p' \<Longrightarrow> policy_spec p' = policy_spec p"
  using assms by (auto simp: surroundings_ok_def keeps_specs_def)

lemma good_report_Gateway:
  assumes "\<And>gw'. gateway_spec gw' = gateway_spec gw \<Longrightarrow>
      settled own KindGateway req watch (Some (GatewayObject gw'))"
    and "object_key gw = req" "req \<in> own_Gateways own"
  shows "good E own KindGateway req watch (report_Gateway_steps gw ip) h"
proof -
  have stored: "good E own KindGateway req watch (store_then (UpsertGateway gw') UpdateProxy) h"
    if "gateway_spec gw' = gateway_spec gw" for gw'
    using assms spec_keys(2) [OF that] that
    by (auto intro!: good_last_store simp: state_ok_intros unowned_def)
  show ?thesis
    unfolding report_Gateway_steps_def Let_def
  proof (intro good_look good_clock)
    fix objs V w now assume r: "relies E own KindGateway req watch h objs V w"
    let ?routes = "GetHTTPRoutes (env_range V 0 (dom (st_httpRoutes (w_State w)))) (w_State w)"
    have "\<forall>rs \<in> set ?routes. hs_HTTPRoute rs \<noteq> None"
      using GetHTTPRoutes_not_nil [OF relies_client(3) [OF r]] by fastforce
    note statuses = listener_statuses_desired [OF this, of now gw "gw_Listeners gw"]
    show "good E own KindGateway req watch
      (case map_result (listener_status now gw ?routes) (gw_Listeners gw) of
         Inl panic \<Rightarrow> Crash panic
       | Inr sts \<Rightarrow>
           if gateway_updated (gateway_status_of gw) (gateway_conditions gw, gateway_addresses ip, sts) then
             put_status
               (WriteGateway (set_gateway_status (stamp now (gateway_conditions gw), gateway_addresses ip, sts) gw))
               (\<lambda>C. put_Gateway_status C
                  (set_gateway_status (stamp now (gateway_conditions gw), gateway_addresses ip, sts) gw))
               (\<lambda>answer. case answer of Inl err \<Rightarrow> Reply (failed err)
                  | Inr gw2 \<Rightarrow> store_then (UpsertGateway gw2) UpdateProxy)
           else store_then (UpsertGateway gw) UpdateProxy) h"
      unfolding statuses
      using stored answered_specs(2) [OF relies_client(1)]
      by (auto intro!: good_put_status split: sum.split)
  qed
qed

lemma good_class:
  assumes "\<And>gw'. gateway_spec gw' = gateway_spec gw \<Longrightarrow> req \<in> own_Gateways own \<Longrightarrow>
      settled own KindGateway req watch (Some (GatewayObject gw'))"
    and "unowned own KindGateway req \<Longrightarrow> settled own KindGateway req watch None"
    and "\<And>x. watch = Some x \<Longrightarrow> x = Some (GatewayObject gw)"
    and "object_key gw = req" "gw_GatewayClassName gw \<in> own_Classes own \<longleftrightarrow> req \<in> own_Gateways own"
  shows "good E own KindGateway req watch (class_steps gw) h"
  unfolding class_steps_def
proof (rule good_fetch)
  fix objs V w assume r: "relies E own KindGateway req watch h objs V w"
  let ?cls = "NamespacedName '''' (gw_GatewayClassName gw)"
  show "good E own KindGateway req watch (case get_GatewayClass (env_cluster V) ?cls of
      NotFound _ \<Rightarrow> Reply done_ok
    | GetFailed err \<Rightarrow> Reply (failed err)
    | Found gc \<Rightarrow> if gc_ControllerName gc \<noteq> ControllerName then Reply done_ok else address_steps gw) h"
  proof (cases "get_GatewayClass (env_cluster V) ?cls")
    case (NotFound err)
    have "watch = None"
    proof (rule ccontr)
      assume "watch \<noteq> None"
      with r assms(3) have "objs (KindGateway, req) = Some (GatewayObject gw)" by (auto simp: relies_def)
      from class_found [OF relies_client(1,2) [OF r] this] NotFound show False by blast
    qed
    then show ?thesis using NotFound by (simp add: settled_def)
  next
    case (Found gc)
    have "gc_ControllerName gc = ControllerName \<longleftrightarrow> req \<in> own_Gateways own"
      using class_ours [OF relies_client(1,2) [OF r] Found] assms(5) by simp
    with Found assms(1,2,4) relies_client(5) [OF r] show ?thesis
      by (auto simp: Let_def address_steps_def unowned_def
          intro!: good_fetch good_report_Gateway split: get_result.split)
  qed simp
qed

lemma good_Gateway: "good E own KindGateway req watch (Gateway_steps req) h"
  unfolding Gateway_steps_def
proof (rule good_fetch)
  fix objs V w assume r: "relies E own KindGateway req watch h objs V w"
  note client = client_reads_each(2) [OF relies_client(1) [OF r], of req]
  show "good E own KindGateway req watch (case get_Gateway (env_cluster V) req of
      NotFound _ \<Rightarrow> store_then (DeleteGateway req) UpdateProxy
    | GetFailed err \<Rightarrow> Reply (failed err)
    | Found gw \<Rightarrow> class_steps gw) h"
  proof (cases "get_Gateway (env_cluster V) req")
    case (NotFound err)
    have "settled own KindGateway req watch None"
      by (rule settledI [OF r]) (simp add: wanted_def reads_NotFound [OF client NotFound])
    then show ?thesis using NotFound by (auto intro!: good_last_store simp: state_ok_intros)
  next
    case (Found gw)
    note obj = reads_Found [OF client Found]
    note gw = objects_ok_kind [OF relies_client(2) [OF r] obj]
    have "good E own KindGateway req watch (class_steps gw) h"
    proof (rule good_class)
      show "settled own KindGateway req watch (Some (GatewayObject gw'))"
        if "gateway_spec gw' = gateway_spec gw" "req \<in> own_Gateways own" for gw'
        using that by (intro settledI [OF r]) (simp add: wanted_def unowned_def obj)
      show "settled own KindGateway req watch None" if "unowned own KindGateway req"
        using that by (intro settledI [OF r]) (simp add: wanted_def)
      show "x = Some (GatewayObject gw)" if "watch = Some x" for x
        using r that obj by (simp add: relies_def)
    qed (use gw in simp_all)
    with Found show ?thesis by simp
  qed simp
qed

lemma new_parents_total: "new_parents E now cond gws route \<noteq> Inl panic"
proof -
  have "\<exists>ps. new_parents E now cond gws route = Inr ps"
    unfolding new_parents_def
    by (rule map_result_total)
      (auto simp: parent_status_def Let_def ComputeAcceptedCondition_accepted ComputeResolvedRefsCondition_Some)
  then show ?thesis by auto
qed

text \<open>Storing a route under the name of the request, by \<open>UpsertHTTPRoute\<close> or through the alias.\<close>

lemma good_route_stored:
  assumes "\<And>st. f st = store_HTTPRoute r st" "object_key r = req" "route_schema r"
    and "good E own KindHTTPRoute req watch p (Some (HTTPRouteObject r))"
  shows "good E own KindHTTPRoute req watch (store_then f p) h"
  using assms by (intro good_store_then)
    (auto simp: state_moves_def unowned_def relies_def state_ok_intros)

lemma good_report_HTTPRoute:
  assumes "\<And>r. route_spec r = route_spec route \<Longrightarrow> settled own KindHTTPRoute req watch (Some (HTTPRouteObject r))"
    and "object_key route = req" "route_schema route"
  shows "good E own KindHTTPRoute req watch (report_HTTPRoute_steps route ps) h"
proof -
  have like: "object_key r = req" "route_schema r" if "route_spec r = route_spec route" for r
    using assms(2,3) spec_keys(1) [OF that] route_schema_spec [of r] route_schema_spec [of route] that
    by simp_all
  have finish: "good E own KindHTTPRoute req watch (finish_HTTPRoute_steps r) h"
    if "route_spec r = route_spec route" for r h
    using assms(1) [OF that] like [OF that] unfolding finish_HTTPRoute_steps_def UpsertHTTPRoute_pair
    by (intro good_change) (auto simp: state_moves_def unowned_def relies_def state_ok_intros)
  have aliased: "alias_HTTPRoute (object_key route) r st = store_HTTPRoute r st"
    if "route_spec r = route_spec route" for r st
    using like(1) [OF that] assms(2) by (intro alias_store) simp
  show ?thesis
    unfolding report_HTTPRoute_steps_def Let_def
    using finish like aliased answered_specs(1) [OF relies_client(1)]
    by (auto intro!: good_route_stored good_put_status split: sum.split)
qed

lemma good_HTTPRoute: "good E own KindHTTPRoute req watch (HTTPRoute_steps req) h"
  unfolding HTTPRoute_steps_def
proof (rule good_fetch)
  fix objs V w assume r: "relies E own KindHTTPRoute req watch h objs V w"
  note client = client_reads_each(1) [OF relies_client(1) [OF r], of req]
  let ?stored = "\<lambda>route. change (\<lambda>V st. UpsertHTTPRoute (env_regexp V) (env_now V) route st) (\<lambda>cond.
     look (\<lambda>V st. (env_regexp V, GetGateways (env_range V 0 (dom (st_gateways st))) st)) (\<lambda>(E, gws).
     clock (\<lambda>now. case new_parents E now cond gws route of
         Inl panic \<Rightarrow> Crash panic | Inr ps \<Rightarrow> report_HTTPRoute_steps route ps)))"
  show "good E own KindHTTPRoute req watch (case get_HTTPRoute (env_cluster V) req of
      NotFound _ \<Rightarrow> store_then (DeleteHTTPRoute req) UpdateProxy
    | GetFailed err \<Rightarrow> Reply (failed err)
    | Found route \<Rightarrow> ?stored route) h"
  proof (cases "get_HTTPRoute (env_cluster V) req")
    case (NotFound err)
    have "settled own KindHTTPRoute req watch None"
      by (rule settledI [OF r]) (simp add: wanted_def reads_NotFound [OF client NotFound])
    then show ?thesis using NotFound by (auto intro!: good_last_store simp: state_ok_intros)
  next
    case (Found route)
    note obj = reads_Found [OF client Found]
    note hr = objects_ok_kind [OF relies_client(2) [OF r] obj]
    have "settled own KindHTTPRoute req watch (Some (HTTPRouteObject r'))"
      if "route_spec r' = route_spec route" for r'
      using that by (intro settledI [OF r]) (simp add: wanted_def unowned_def obj)
    note report = good_report_HTTPRoute [OF this]
    have "good E own KindHTTPRoute req watch (?stored route) h"
    proof (intro good_change conjI)
      fix objs V w assume r: "relies E own KindHTTPRoute req watch h objs V w"
      show "state_moves own KindHTTPRoute req (w_State w)
          (snd (UpsertHTTPRoute (env_regexp V) (env_now V) route (w_State w)))"
        using hr relies_client(3) [OF r]
        by (simp add: UpsertHTTPRoute_pair state_moves_def unowned_def state_ok_intros)
    qed (use hr report in \<open>auto intro!: good_look good_clock simp: new_parents_total split: sum.split\<close>)
    with Found show ?thesis by simp
  qed simp
qed

lemma good_ca_steps:
  "(\<And>un. good E own kd k watch (f un) h) \<Longrightarrow> good E own kd k watch (ca_steps ns refs cas un f) h"
  by (induction refs arbitrary: cas un) (auto intro!: good_look split: prod.split)

lemma good_report_BackendTLSPolicy:
  assumes "\<And>p. policy_spec p = policy_spec policy \<Longrightarrow>
      settled own KindBackendTLSPolicy req watch (Some (BackendTLSPolicyObject p))"
    and "object_key policy = req"
  shows "good E own KindBackendTLSPolicy req watch
    (report_BackendTLSPolicy_steps policy gws routes target un) h"
proof -
  have "good E own KindBackendTLSPolicy req watch (store_then (UpsertBackendTLSPolicy p) UpdateProxy) h"
    if "policy_spec p = policy_spec policy" for p
    using assms spec_keys(3) [OF that] that
    by (auto intro!: good_last_store simp: state_ok_intros unowned_def)
  then show ?thesis
    unfolding report_BackendTLSPolicy_steps_def Let_def ancestors_loop_eq
    using answered_specs(3) [OF relies_client(1)]
    by (auto intro!: good_clock good_put_status split: sum.split)
qed

lemma good_BackendTLSPolicy: "good E own KindBackendTLSPolicy req watch (BackendTLSPolicy_steps req) h"
  unfolding BackendTLSPolicy_steps_def
proof (rule good_fetch)
  fix objs V w assume r: "relies E own KindBackendTLSPolicy req watch h objs V w"
  note client = client_reads_each(6) [OF relies_client(1) [OF r], of req]
  let ?found = "\<lambda>policy. look (\<lambda>V st. GetGateways (env_range V 0 (dom (st_gateways st))) st) (\<lambda>gateways.
     look (\<lambda>V st. GetHTTPRoutes (env_range V 1 (dom (st_httpRoutes st))) st) (\<lambda>routes.
       case btp_TargetRefs policy of
         [] \<Rightarrow> Crash IndexOutOfRange
       | targetRef # _ \<Rightarrow>
           ca_steps (om_Namespace policy) (btp_CACertificateRefs policy) [] []
             (report_BackendTLSPolicy_steps policy gateways routes
                (NamespacedName (om_Namespace policy) (tr_Name targetRef)))))"
  show "good E own KindBackendTLSPolicy req watch (case get_BackendTLSPolicy (env_cluster V) req of
      NotFound _ \<Rightarrow> store_then (DeleteBackendTLSPolicy req) UpdateProxy
    | GetFailed err \<Rightarrow> Reply (failed err)
    | Found policy \<Rightarrow> ?found policy) h"
  proof (cases "get_BackendTLSPolicy (env_cluster V) req")
    case (NotFound err)
    have "settled own KindBackendTLSPolicy req watch None"
      by (rule settledI [OF r]) (simp add: wanted_def reads_NotFound [OF client NotFound])
    then show ?thesis using NotFound by (auto intro!: good_last_store simp: state_ok_intros)
  next
    case (Found policy)
    note obj = reads_Found [OF client Found]
    note p = objects_ok_kind [OF relies_client(2) [OF r] obj]
    then obtain t ts where ts: "btp_TargetRefs policy = t # ts" by (cases "btp_TargetRefs policy") auto
    have "settled own KindBackendTLSPolicy req watch (Some (BackendTLSPolicyObject q))"
      if "policy_spec q = policy_spec policy" for q
      using that by (intro settledI [OF r]) (simp add: wanted_def unowned_def obj)
    with p have "good E own KindBackendTLSPolicy req watch (?found policy) h"
      unfolding ts list.case by (intro good_look good_ca_steps good_report_BackendTLSPolicy) simp_all
    with Found show ?thesis by simp
  qed simp
qed

lemma good_each: "good E own (kind_for c) req watch (reconcile_steps c req) h"
  by (cases c) (simp_all add: good_HTTPRoute good_GatewayClass good_Gateway good_Service
      good_BackendTLSPolicy good_ConfigMap)

end
