(* ===== verification/ClusterTable.thy ===== *)
theory ClusterTable
  imports ManagerCalls
begin

text \<open>
  The table depends on the specifications of the objects only: not on the status of gateways,
  routes or policies. So a state that mirrors the cluster up to status gives the cluster's table.
\<close>

section \<open>The status of gateways\<close>

lemma gateway_spec_meta [simp]:
  "om_Name (gateway_spec gw) = om_Name gw" "om_Namespace (gateway_spec gw) = om_Namespace gw"
  by (simp_all add: gateway_spec_def set_gateway_status_def)

lemma accepted_outcome_gateway_spec [simp]:
  "accepted_outcome E r pr [\<lparr>gs_Gateway = gateway_spec gw\<rparr>] =
     accepted_outcome E r pr [\<lparr>gs_Gateway = gw\<rparr>]"
  by (simp add: accepted_outcome_def split: option.split)

lemma find_parent_gateway_spec [simp]:
  "find_parent E now \<lparr>gs_Gateway = gateway_spec gw\<rparr> l rs prs =
     find_parent E now \<lparr>gs_Gateway = gw\<rparr> l rs prs"
proof (induction prs)
  case (Cons pr prs)
  then show ?case
    by (simp add: ComputeAcceptedCondition_def cong: if_cong)
qed simp

lemma BuildInternalRoutes_gateway_spec:
  "BuildInternalRoutes E now \<lparr>gs_Gateway = gateway_spec gw\<rparr> rs B cn =
     BuildInternalRoutes E now \<lparr>gs_Gateway = gw\<rparr> rs B cn"
proof -
  have "build_route E now B \<lparr>gs_Gateway = gateway_spec gw\<rparr> = build_route E now B \<lparr>gs_Gateway = gw\<rparr>"
    by (intro ext) (simp add: build_route_def)
  then have "build_listener E now B \<lparr>gs_Gateway = gateway_spec gw\<rparr> rs =
      build_listener E now B \<lparr>gs_Gateway = gw\<rparr> rs" for rs
    by (intro ext) (simp add: build_listener_def)
  then show ?thesis by (simp add: BuildInternalRoutes_def)
qed

section \<open>The status of policies\<close>

definition inputs_spec :: "build_inputs \<Rightarrow> build_inputs" where
  "inputs_spec B = B\<lparr>bi_policies := map policy_spec (bi_policies B)\<rparr>"

lemma target_loop_spec [simp]:
  "target_loop cms ns n (policy_spec p) refs c = target_loop cms ns n p refs c"
  by (induction refs) (simp_all add: policy_targets_def policy_spec_def)

lemma policy_loop_spec [simp]:
  "policy_loop cms ns n (map policy_spec ps) c = policy_loop cms ns n ps c"
  by (induction ps arbitrary: c) (simp_all, simp add: policy_spec_def)

lemma build_backend_spec [simp]: "build_backend (inputs_spec B) = build_backend B"
  by (intro ext) (simp add: build_backend_def inputs_spec_def Let_def)

lemma backend_loop_spec [simp]: "backend_loop (inputs_spec B) ns refs r = backend_loop B ns refs r"
  by (induction refs arbitrary: r) (simp_all add: Let_def split: option.split)

lemma BuildInternalRoutes_inputs_spec:
  "BuildInternalRoutes E now s rs (inputs_spec B) cn = BuildInternalRoutes E now s rs B cn"
proof -
  have rule: "build_rule E (inputs_spec B) = build_rule E B"
    by (intro ext) (simp add: build_rule_def Let_def cong: if_cong)
  have "build_route E now (inputs_spec B) s = build_route E now B s"
    by (intro ext) (simp only: build_route_def rule)
  then have "build_listener E now (inputs_spec B) s rs = build_listener E now B s rs" for rs
    by (intro ext) (simp add: build_listener_def)
  then show ?thesis by (simp add: BuildInternalRoutes_def)
qed

section \<open>The state without status\<close>

definition spec_state :: "State \<Rightarrow> State" where
  "spec_state st =
     \<lparr>st_gateways = map_option (\<lambda>gs. \<lparr>gs_Gateway = gateway_spec (gs_Gateway gs)\<rparr>) \<circ> st_gateways st,
      st_httpRoutes = map_option without_status \<circ> st_httpRoutes st,
      st_backendTLSPolicies = map_option policy_spec \<circ> st_backendTLSPolicies st,
      st_services = st_services st, st_configMaps = st_configMaps st\<rparr>"

lemma range_values_map:
  "range_values (map_option f \<circ> m) ks = map f (range_values m ks)"
  by (induction ks) (simp_all split: option.split)

lemma dom_map_option_comp [simp]: "dom (map_option f \<circ> m) = dom m"
  by (auto simp: dom_def)

lemma proxy_table_spec_state: "proxy_table V i (spec_state st) = proxy_table V i st"
proof -
  have build: "BuildInternalRoutes E now \<lparr>gs_Gateway = gateway_spec (gs_Gateway gs)\<rparr>
      (map without_status rs) (inputs_spec B) cn = BuildInternalRoutes E now gs rs B cn"
    for E now gs rs B cn
    by (cases gs) (simp add: BuildInternalRoutes_gateway_spec BuildInternalRoutes_inputs_spec
        BuildInternalRoutes_without_status)
  have inputs: "snapshot_inputs V i (spec_state st) = inputs_spec (snapshot_inputs V i st)"
    by (simp add: snapshot_inputs_def spec_state_def inputs_spec_def GetServices_def
        GetBackendTLSPolicies_def GetConfigMaps_def range_values_map)
  have gws: "GetGateways ks (spec_state st) =
      map (\<lambda>gs. \<lparr>gs_Gateway = gateway_spec (gs_Gateway gs)\<rparr>) (GetGateways ks st)"
    and rs: "GetHTTPRoutes ks (spec_state st) = map without_status (GetHTTPRoutes ks st)"
    and doms: "dom (st_gateways (spec_state st)) = dom (st_gateways st)"
      "dom (st_httpRoutes (spec_state st)) = dom (st_httpRoutes st)" for ks
    by (simp_all add: GetGateways_def GetHTTPRoutes_def spec_state_def range_values_map)
  show ?thesis
    unfolding proxy_table_def Let_def inputs doms gws rs concat_result_map build ..
qed

lemma proxy_table_same_spec:
  "spec_state st = spec_state st' \<Longrightarrow> proxy_table V i st = proxy_table V i st'"
  by (metis proxy_table_spec_state)

section \<open>The state that the cluster asks for\<close>

definition cluster_state :: "Ownership \<Rightarrow> objects \<Rightarrow> State" where
  "cluster_state own objs =
     \<lparr>st_gateways = (\<lambda>k. case wanted own objs KindGateway k of
        Some (GatewayObject gw) \<Rightarrow> Some \<lparr>gs_Gateway = gw\<rparr> | _ \<Rightarrow> None),
      st_httpRoutes = (\<lambda>k. case objs (KindHTTPRoute, k) of
        Some (HTTPRouteObject r) \<Rightarrow> Some \<lparr>hs_HTTPRoute = Some r\<rparr> | _ \<Rightarrow> None),
      st_backendTLSPolicies = (\<lambda>k. case objs (KindBackendTLSPolicy, k) of
        Some (BackendTLSPolicyObject p) \<Rightarrow> Some p | _ \<Rightarrow> None),
      st_services = (\<lambda>k. case objs (KindService, k) of
        Some (ServiceObject v) \<Rightarrow> Some v | _ \<Rightarrow> None),
      st_configMaps = (\<lambda>k. case objs (KindConfigMap, k) of
        Some (ConfigMapObject cm) \<Rightarrow> Some cm | _ \<Rightarrow> None)\<rparr>"

lemma held_cluster_state:
  assumes "objects_ok own objs"
  shows "held (cluster_state own objs) kd k = wanted own objs kd k"
proof (cases "wanted own objs kd k")
  case None
  then show ?thesis
    by (cases kd) (auto simp: held.simps cluster_state_def wanted_def unowned_def split: if_splits)
next
  case (Some obj)
  then have "objs (kd, k) = Some obj" "kd \<noteq> KindGatewayClass"
    by (auto simp: wanted_def unowned_def split: if_splits)
  moreover from this have "kd = kind_of obj" using objects_ok_kind(1) [OF assms] by simp
  ultimately show ?thesis
    using Some by (cases obj) (auto simp: held.simps cluster_state_def wanted_def unowned_def split: if_splits)
qed

text \<open>A state is its objects, as long as no route pointer is nil.\<close>

lemma stored_route:
  assumes "state_ok st" "st_httpRoutes st k = Some rs"
  shows "\<exists>hr. hs_HTTPRoute rs = Some hr"
  using assms unfolding state_ok_def filed_def by blast

lemma spec_state_eqI:
  assumes "state_ok st" "state_ok st'" "\<And>kd k. same_spec (held st kd k) (held st' kd k)"
  shows "spec_state st = spec_state st'"
proof -
  have gs: "(map_option (\<lambda>gs. \<lparr>gs_Gateway = gateway_spec (gs_Gateway gs)\<rparr>) \<circ> st_gateways st) k =
      (map_option (\<lambda>gs. \<lparr>gs_Gateway = gateway_spec (gs_Gateway gs)\<rparr>) \<circ> st_gateways st') k" for k
    using assms(3) [of KindGateway k]
    by (cases "st_gateways st k"; cases "st_gateways st' k") (simp_all add: held.simps)
  have ps: "(map_option policy_spec \<circ> st_backendTLSPolicies st) k =
      (map_option policy_spec \<circ> st_backendTLSPolicies st') k" for k
    using assms(3) [of KindBackendTLSPolicy k]
    by (cases "st_backendTLSPolicies st k"; cases "st_backendTLSPolicies st' k")
      (simp_all add: held.simps)
  have vs: "st_services st k = st_services st' k" for k
    using assms(3) [of KindService k]
    by (cases "st_services st k"; cases "st_services st' k") (simp_all add: held.simps)
  have cs: "st_configMaps st k = st_configMaps st' k" for k
    using assms(3) [of KindConfigMap k]
    by (cases "st_configMaps st k"; cases "st_configMaps st' k") (simp_all add: held.simps)
  have rs: "(map_option without_status \<circ> st_httpRoutes st) k =
      (map_option without_status \<circ> st_httpRoutes st') k" for k
    using assms(3) [of KindHTTPRoute k] stored_route [OF assms(1), of k] stored_route [OF assms(2), of k]
    by (cases "st_httpRoutes st k"; cases "st_httpRoutes st' k")
      (auto simp: held.simps without_status_def route_spec_def)
  show ?thesis
    unfolding spec_state_def using gs ps vs cs rs by (simp add: fun_eq_iff)
qed

lemma finite_slice:
  assumes "finite (dom objs)"
  shows "finite {k. objs (kd, k) \<noteq> None}"
proof (rule finite_subset)
  show "{k. objs (kd, k) \<noteq> None} \<subseteq> snd ` dom objs" by force
qed (use assms in simp)

lemma cluster_lookup:
  "st_gateways (cluster_state own objs) k = Some gs \<Longrightarrow>
     objs (KindGateway, k) = Some (GatewayObject (gs_Gateway gs))"
  "st_httpRoutes (cluster_state own objs) k = Some rs \<Longrightarrow>
     \<exists>r. rs = \<lparr>hs_HTTPRoute = Some r\<rparr> \<and> objs (KindHTTPRoute, k) = Some (HTTPRouteObject r)"
  "st_backendTLSPolicies (cluster_state own objs) k = Some p \<Longrightarrow>
     objs (KindBackendTLSPolicy, k) = Some (BackendTLSPolicyObject p)"
  "st_services (cluster_state own objs) k = Some v \<Longrightarrow>
     objs (KindService, k) = Some (ServiceObject v)"
  "st_configMaps (cluster_state own objs) k = Some cm \<Longrightarrow>
     objs (KindConfigMap, k) = Some (ConfigMapObject cm)"
  by (auto simp: cluster_state_def wanted_def unowned_def split: option.splits api_object.splits if_splits)

lemma filed_cluster:
  assumes "objects_ok own objs" "\<And>k v. m k = Some v \<Longrightarrow> \<exists>obj. objs (kd, k) = Some obj \<and> f v = Some (key_of obj)"
  shows "filed f m"
  unfolding filed_def
proof (intro conjI allI impI)
  have "finite {k. objs (kd, k) \<noteq> None}" using assms(1) finite_slice [of objs kd] by (simp add: objects_ok_def)
  moreover have "dom m \<subseteq> {k. objs (kd, k) \<noteq> None}" using assms(2) by force
  ultimately show "finite (dom m)" by (rule rev_finite_subset)
  show "f v = Some k" if "m k = Some v" for k v
    using assms(2) [OF that] objects_ok_kind(2) [OF assms(1)] by auto
qed

lemma state_ok_cluster_state:
  assumes "objects_ok own objs"
  shows "state_ok (cluster_state own objs)"
  unfolding state_ok_def
proof (intro conjI)
  show "filed (\<lambda>g. Some (object_key (gs_Gateway g))) (st_gateways (cluster_state own objs))"
    by (rule filed_cluster [OF assms, where kd = KindGateway]) (auto dest: cluster_lookup)
  show "filed (\<lambda>r. map_option object_key (hs_HTTPRoute r)) (st_httpRoutes (cluster_state own objs))"
    by (rule filed_cluster [OF assms, where kd = KindHTTPRoute]) (auto dest!: cluster_lookup)
  show "filed (\<lambda>p. Some (object_key p)) (st_backendTLSPolicies (cluster_state own objs))"
    by (rule filed_cluster [OF assms, where kd = KindBackendTLSPolicy]) (auto dest: cluster_lookup)
  show "filed (\<lambda>v. Some (object_key v)) (st_services (cluster_state own objs))"
    by (rule filed_cluster [OF assms, where kd = KindService]) (auto dest: cluster_lookup)
  show "filed (\<lambda>c. Some (object_key c)) (st_configMaps (cluster_state own objs))"
    by (rule filed_cluster [OF assms, where kd = KindConfigMap]) (auto dest: cluster_lookup)
qed

lemma cluster_hostnames:
  assumes "objects_ok own objs"
  shows "state_hostnames_nonempty (cluster_state own objs)"
  unfolding state_hostnames_nonempty_def
proof (intro ballI allI impI)
  fix rs hr assume "rs \<in> ran (st_httpRoutes (cluster_state own objs))" "hs_HTTPRoute rs = Some hr"
  then obtain k where "objs (KindHTTPRoute, k) = Some (HTTPRouteObject hr)"
    by (auto simp: ran_def dest!: cluster_lookup)
  with objects_ok_kind(3) [OF assms this] show "'''' \<notin> set (hr_Hostnames hr)"
    by (simp add: route_schema_def)
qed

end
