(* ===== verification/ManagerInvariant.thy ===== *)
theory ManagerInvariant
  imports ManagerCalls ClusterTable
begin

text \<open>
  The invariants of the running system. Under any interleaving the state mirrors the objects of
  the cluster, but for those that are asked for or being worked on; when no two updates overlap,
  the proxy serves a table of the present state or somebody is bound to publish one.
\<close>

section \<open>What the state holds\<close>

definition stored_schema :: "State \<Rightarrow> bool" where
  "stored_schema st \<longleftrightarrow>
     (\<forall>k r. held st KindHTTPRoute k = Some (HTTPRouteObject r) \<longrightarrow> route_schema r)"

text \<open>The object a call is about, unless it was asked for again since the call began.\<close>

definition watched :: "Running \<Rightarrow> reconciler \<Rightarrow> NamespacedName \<Rightarrow> api_object option option" where
  "watched s c req =
     (if (c, req) \<in> run_Queue s then None else Some (run_Objects s (kind_for c, req)))"

definition working_on :: "Running \<Rightarrow> reconciler \<Rightarrow> NamespacedName \<Rightarrow> bool" where
  "working_on s c req \<longleftrightarrow>
     (\<exists>p. run_Workers s c = Handling req p) \<or> (\<exists>pc. run_Workers s c = Updating req pc)"

definition mirrors :: "Ownership \<Rightarrow> Running \<Rightarrow> bool" where
  "mirrors own s \<longleftrightarrow>
     (\<forall>c k. (c, k) \<notin> run_Queue s \<longrightarrow> \<not> working_on s c k \<longrightarrow>
        same_spec (held (w_State (run_World s)) (kind_for c) k) (wanted own (run_Objects s) (kind_for c) k))"

fun worker_ok :: "regexp_engine \<Rightarrow> Ownership \<Rightarrow> Running \<Rightarrow> reconciler \<Rightarrow> worker \<Rightarrow> bool" where
  "worker_ok E own s c Free \<longleftrightarrow> True"
| "worker_ok E own s c (Handling req p) \<longleftrightarrow>
     (\<forall>watch \<in> {None, watched s c req}.
        good E own (kind_for c) req watch p (held (w_State (run_World s)) (kind_for c) req)) \<and> pays c p"
| "worker_ok E own s c (Updating req pc) \<longleftrightarrow>
     settled own (kind_for c) req (watched s c req) (held (w_State (run_World s)) (kind_for c) req) \<and>
     pc_complete pc"

definition run_ok :: "regexp_engine \<Rightarrow> Ownership \<Rightarrow> Running \<Rightarrow> bool" where
  "run_ok E own s \<longleftrightarrow>
     objects_ok own (run_Objects s) \<and> finite (run_Queue s) \<and> state_ok (w_State (run_World s)) \<and>
     stored_schema (w_State (run_World s)) \<and>
     (\<forall>kd k. unowned own kd k \<longrightarrow> held (w_State (run_World s)) kd k = None) \<and> mirrors own s \<and>
     (\<forall>c. worker_ok E own s c (run_Workers s c))"

lemma stored_schema_iff:
  assumes "state_ok st"
  shows "stored_schema st \<longleftrightarrow> routes_complete st \<and> state_hostnames_nonempty st"
  unfolding stored_schema_def routes_complete_def state_hostnames_nonempty_def route_schema_def ran_def
  by (auto simp: held.simps bind_eq_Some_conv)

lemma run_okD:
  assumes "run_ok E own s"
  shows "objects_ok own (run_Objects s)" "finite (run_Queue s)" "state_ok (w_State (run_World s))"
    "stored_schema (w_State (run_World s))" "routes_complete (w_State (run_World s))"
    "unowned own kd k \<Longrightarrow> held (w_State (run_World s)) kd k = None"
    "mirrors own s" "worker_ok E own s c (run_Workers s c)"
  using assms by (auto simp: run_ok_def stored_schema_iff)

lemma settled_None [simp]: "settled own kd k None h"
  by (simp add: settled_def)

lemma settled_watched:
  "(c, k) \<notin> run_Queue s \<Longrightarrow> settled own (kind_for c) k (watched s c k) h \<longleftrightarrow>
     same_spec h (wanted own (run_Objects s) (kind_for c) k)"
  by (simp add: settled_def watched_def wanted_def)

lemma run_ok_started: "run_ok E own started"
proof -
  have "held NewState kd k = None" for kd k
    by (cases kd) (simp_all add: held.simps NewState_def)
  then show ?thesis
    using objects_ok_empty state_ok_NewState
    by (simp add: run_ok_def started_def stored_schema_def mirrors_def wanted_def)
qed

text \<open>What changes in the cluster is asked for.\<close>

lemma change_asked:
  assumes "objects_ok own objs" "dispatch listed (event_objects c objs) = Inr reqs"
    and "(r, k) \<notin> set reqs"
  shows "change_objects c objs (kind_for r, k) = objs (kind_for r, k)"
proof (cases "op_key obj_id c = (kind_for r, k)")
  case True
  have no: "\<not> (kind_of obj = kind_for r \<and> key_of obj = k)" if "obj \<in> set (event_objects c objs)" for obj
    using assms(3) that unfolding dispatch_iff [OF assms(2)] by blast
  show ?thesis
  proof (cases c)
    case (Put obj)
    with no [of obj] True show ?thesis by (simp add: event_objects_def)
  next
    case (Remove id)
    show ?thesis
    proof (cases "objs id")
      case None
      with Remove True show ?thesis by (simp add: change_objects_def)
    next
      case (Some old)
      with Remove True no [of old] objects_ok_kind [OF assms(1), of "kind_for r" k old] show ?thesis
        by (simp add: event_objects_def)
    qed
  qed
qed (simp add: change_objects_def)

text \<open>A worker is well off as long as its object and what the state holds of it stay.\<close>

lemma worker_ok_cong:
  assumes "worker_ok E own s c wk"
    and "\<And>k. watched t c k = None \<or> watched t c k = watched s c k"
    and "\<And>k. held (w_State (run_World t)) (kind_for c) k = held (w_State (run_World s)) (kind_for c) k"
  shows "worker_ok E own t c wk"
proof (cases wk)
  case (Handling req p)
  with assms(1,3) assms(2) [of req] show ?thesis by auto
next
  case (Updating req pc)
  with assms(1,3) assms(2) [of req] show ?thesis by auto
qed simp

lemma run_ok_observe:
  assumes "run_ok E own s" "admitted own (run_Objects s) c"
    and "dispatch listed (event_objects c (run_Objects s)) = Inr reqs"
  shows "run_ok E own (s\<lparr>run_Objects := change_objects c (run_Objects s),
    run_Queue := run_Queue s \<union> set reqs\<rparr>)" (is "run_ok E own ?t")
proof -
  note ok = run_okD(1) [OF assms(1)]
  note same = change_asked [OF ok assms(3)]
  have "mirrors own ?t"
    using run_okD(7) [OF assms(1)] same by (auto simp: mirrors_def wanted_def working_on_def)
  moreover have "worker_ok E own ?t d (run_Workers s d)" for d
    by (rule worker_ok_cong [OF run_okD(8) [OF assms(1)]]) (auto simp: watched_def same)
  ultimately show ?thesis
    using assms(1) objects_ok_change [OF ok assms(2)] by (simp add: run_ok_def)
qed

text \<open>A step of one worker that leaves the cluster and the rest of the state alone.\<close>

lemma run_ok_worker:
  assumes "run_ok E own s" "state_moves own (kind_for c) req (w_State (run_World s)) (w_State w')"
    and "\<And>d k. d \<noteq> c \<Longrightarrow> (d, k) \<in> Q \<longleftrightarrow> (d, k) \<in> run_Queue s" "finite Q"
    and "\<And>k. k \<noteq> req \<Longrightarrow> (c, k) \<in> Q \<longleftrightarrow> (c, k) \<in> run_Queue s"
    and "run_Workers s c = Free \<or> working_on s c req"
    and "t = set_worker c wk (s\<lparr>run_Queue := Q, run_World := w'\<rparr>)"
    and "worker_ok E own t c wk"
    and "wk = Free \<or> working_on t c req"
    and "wk = Free \<Longrightarrow> (c, req) \<notin> Q \<Longrightarrow> same_spec (held (w_State w') (kind_for c) req)
      (wanted own (run_Objects s) (kind_for c) req)"
  shows "run_ok E own t"
proof -
  have other: "held (w_State w') kd k = held (w_State (run_World s)) kd k"
    if "(kd, k) \<noteq> (kind_for c, req)" for kd k
    using assms(2) that unfolding state_moves_def by blast
  have "worker_ok E own t d (run_Workers t d)" for d
  proof (cases "d = c")
    case True
    with assms(7,8) show ?thesis by simp
  next
    case False
    have "worker_ok E own t d (run_Workers s d)"
    proof (rule worker_ok_cong [OF run_okD(8) [OF assms(1)]])
      show "watched t d k = None \<or> watched t d k = watched s d k" for k
        using assms(3) [OF False, of k] by (simp add: assms(7) watched_def)
      show "held (w_State (run_World t)) (kind_for d) k = held (w_State (run_World s)) (kind_for d) k" for k
        using other [of "kind_for d" k] False by (simp add: assms(7) kind_for_inj)
    qed
    with False show ?thesis by (simp add: assms(7))
  qed
  moreover have "mirrors own t"
    unfolding mirrors_def
  proof (intro allI impI)
    fix d k assume q: "(d, k) \<notin> run_Queue t" "\<not> working_on t d k"
    show "same_spec (held (w_State (run_World t)) (kind_for d) k) (wanted own (run_Objects t) (kind_for d) k)"
    proof (cases "(d, k) = (c, req)")
      case True
      with q assms(7,9,10) show ?thesis by simp
    next
      case False
      then have "(d, k) \<notin> run_Queue s" using q(1) assms(3,5,7) by (cases "d = c") auto
      moreover have "\<not> working_on s d k"
        using q(2) False assms(6,7) by (cases "d = c") (auto simp: working_on_def)
      ultimately show ?thesis
        using run_okD(7) [OF assms(1)] other [of "kind_for d" k] False
        by (simp add: mirrors_def assms(7) kind_for_inj)
    qed
  qed
  moreover have "stored_schema (w_State w')"
    unfolding stored_schema_def
  proof (intro allI impI)
    fix k r assume "held (w_State w') KindHTTPRoute k = Some (HTTPRouteObject r)"
    then have "held (w_State (run_World s)) KindHTTPRoute k = Some (HTTPRouteObject r) \<or> route_schema r"
      using assms(2) other [of KindHTTPRoute k]
      by (cases "(KindHTTPRoute, k) = (kind_for c, req)") (auto simp: state_moves_def)
    with run_okD(4) [OF assms(1)] show "route_schema r" by (auto simp: stored_schema_def)
  qed
  moreover have "held (w_State w') kd k = None" if "unowned own kd k" for kd k
    using that other [of kd k] run_okD(6) [OF assms(1) that] assms(2)
    by (cases "(kd, k) = (kind_for c, req)") (auto simp: state_moves_def)
  moreover have "state_ok (w_State w')" using assms(2) by (simp add: state_moves_def)
  ultimately show ?thesis using run_okD(1) [OF assms(1)] assms(4) by (simp add: run_ok_def assms(7))
qed

lemma state_moves_same:
  assumes "run_ok E own s"
  shows "state_moves own kd k (w_State (run_World s)) (w_State (run_World s))"
  using run_okD(3,6) [OF assms] by (auto simp: state_moves_def)

lemma run_ok_take:
  assumes "run_ok E own s" "run_Workers s c = Free" "(c, req) \<in> run_Queue s"
  shows "run_ok E own (set_worker c (Handling req (reconcile_steps c req))
    (s\<lparr>run_Queue := run_Queue s - {(c, req)}\<rparr>))"
  by (rule run_ok_worker [where c = c and req = req and w' = "run_World s" and Q = "run_Queue s - {(c, req)}",
        OF assms(1) state_moves_same [OF assms(1)]])
    (use assms(2) run_okD(2) [OF assms(1)] in \<open>auto simp: good_each pays_each working_on_def\<close>)

lemma run_ok_handle:
  assumes "run_ok E own s" "run_Workers s c = Handling req (Step effect rest)"
    and "surroundings_ok E (run_Objects s) V"
  shows "run_ok E own (set_worker c (Handling req (rest V (run_World s)))
      (s\<lparr>run_World := effect V (run_World s)\<rparr>))"
    and "w_Proxy (effect V (run_World s)) = w_Proxy (run_World s)"
proof -
  let ?w = "run_World s" and ?h = "held (w_State (run_World s)) (kind_for c) req"
  let ?w' = "effect V ?w"
  have wk: "worker_ok E own s c (Handling req (Step effect rest))"
    using run_okD(8) [OF assms(1), of c] assms(2) by simp
  have relies: "relies E own (kind_for c) req watch ?h (run_Objects s) V ?w"
    if "watch \<in> {None, watched s c req}" for watch
    using that assms(3) run_okD(1,3,6) [OF assms(1)] by (auto simp: relies_def watched_def split: if_splits)
  have moves: "state_moves own (kind_for c) req (w_State ?w) (w_State ?w') \<and> w_Proxy ?w' = w_Proxy ?w"
    using wk relies [of None] by auto
  have next_ok: "good E own (kind_for c) req watch (rest V ?w) (held (w_State ?w') (kind_for c) req)"
    if "watch \<in> {None, watched s c req}" for watch
    using wk relies [OF that] that by auto
  show "run_ok E own (set_worker c (Handling req (rest V ?w)) (s\<lparr>run_World := ?w'\<rparr>))"
    by (rule run_ok_worker [where c = c and req = req and w' = ?w' and Q = "run_Queue s", OF assms(1)])
      (use moves next_ok wk assms(2) run_okD(2) [OF assms(1)] in
        \<open>auto simp: working_on_def watched_def\<close>)
  show "w_Proxy ?w' = w_Proxy ?w" using moves ..
qed

lemma run_ok_enter:
  assumes "run_ok E own s" "run_Workers s c = Handling req UpdateProxy"
  shows "run_ok E own (set_worker c (Updating req AtGateways) s)"
  by (rule run_ok_worker [where c = c and req = req and w' = "run_World s" and Q = "run_Queue s",
        OF assms(1) state_moves_same [OF assms(1)]])
    (use assms(2) run_okD(2) [OF assms(1)] run_okD(8) [OF assms(1), of c] in
      \<open>auto simp: working_on_def watched_def\<close>)

lemma run_ok_read_state:
  assumes "run_ok E own s" "run_Workers s c = Updating req pc"
    and "update_read (w_State (run_World s)) pc pc'"
  shows "run_ok E own (set_worker c (Updating req pc') s)"
  by (rule run_ok_worker [where c = c and req = req and w' = "run_World s" and Q = "run_Queue s",
        OF assms(1) state_moves_same [OF assms(1)]])
    (use assms(2) run_okD(2) [OF assms(1)] run_okD(8) [OF assms(1), of c]
      update_read_complete [OF assms(3) run_okD(3,5) [OF assms(1)]] in
      \<open>auto simp: working_on_def watched_def\<close>)

lemma run_ok_publish:
  assumes "run_ok E own s" "run_Workers s c = Updating req pc"
  shows "run_ok E own (set_worker c (Handling req (Reply done_ok))
    (s\<lparr>run_World := (run_World s)\<lparr>w_Proxy := px\<rparr>\<rparr>))"
  by (rule run_ok_worker [where c = c and req = req and w' = "(run_World s)\<lparr>w_Proxy := px\<rparr>" and Q = "run_Queue s",
        OF assms(1)])
    (use assms(2) state_moves_same [OF assms(1)] run_okD(2) [OF assms(1)] run_okD(8) [OF assms(1), of c] in
      \<open>auto simp: working_on_def watched_def\<close>)

lemma run_ok_return:
  assumes "run_ok E own s" "run_Workers s c = Handling req (Reply out)"
  shows "run_ok E own (set_worker c Free
    (s\<lparr>run_Queue := (if retried out then insert (c, req) (run_Queue s) else run_Queue s)\<rparr>))"
proof -
  have "same_spec (held (w_State (run_World s)) (kind_for c) req) (wanted own (run_Objects s) (kind_for c) req)"
    if "(c, req) \<notin> run_Queue s" "\<not> retried out"
    using that run_okD(8) [OF assms(1), of c] assms(2) settled_watched [of c req s own] by auto
  then show ?thesis
    by (intro run_ok_worker [where c = c and req = req and w' = "run_World s" and wk = Free and
          Q = "if retried out then insert (c, req) (run_Queue s) else run_Queue s",
          OF assms(1) state_moves_same [OF assms(1)]])
      (use assms(2) run_okD(2) [OF assms(1)] in \<open>auto simp: working_on_def split: if_splits\<close>)
qed

lemma run_ok_step:
  assumes "run_ok E own s" "system_step E (admitted own) alone s t"
  shows "run_ok E own t"
  using assms(2)
proof (cases rule: system_step.cases)
  case observe with assms(1) show ?thesis by (simp only: run_ok_observe)
next
  case take with assms(1) show ?thesis by (simp only: run_ok_take)
next
  case handle with assms(1) show ?thesis by (simp only: run_ok_handle)
next
  case enter with assms(1) show ?thesis by (simp only: run_ok_enter)
next
  case read_state with assms(1) run_ok_read_state show ?thesis by blast
next
  case publish with assms(1) run_ok_publish show ?thesis by blast
next
  case return with assms(1) show ?thesis by (simp only: run_ok_return)
qed

lemma runs_to_ok:
  assumes "runs_to E (admitted own) alone s"
  shows "run_ok E own s"
  using assms unfolding runs_to_def
  by (induction rule: rtranclp_induct) (auto intro: run_ok_started run_ok_step)

section \<open>What the proxy serves\<close>

text \<open>Somebody is bound to call \<open>updateProxy\<close>, or to be asked again until he does.\<close>

definition owing :: "Running \<Rightarrow> bool" where
  "owing s \<longleftrightarrow> (\<exists>c req p. run_Workers s c = Handling req p \<and> indebted c p) \<or>
     (\<exists>req. (HTTPRouteReconciler, req) \<in> run_Queue s)"

definition fresh_update :: "Running \<Rightarrow> bool" where
  "fresh_update s \<longleftrightarrow> (\<exists>c req pc. run_Workers s c = Updating req pc \<and> fresh (w_State (run_World s)) pc)"

definition all_fresh :: "Running \<Rightarrow> bool" where
  "all_fresh s \<longleftrightarrow> (\<forall>c req pc. run_Workers s c = Updating req pc \<longrightarrow> fresh (w_State (run_World s)) pc)"

definition published :: "regexp_engine \<Rightarrow> Running \<Rightarrow> bool" where
  "published E s \<longleftrightarrow> owing s \<or> fresh_update s \<or> all_fresh s \<and> serves_state E (run_World s)"

definition one_update :: "Running \<Rightarrow> bool" where
  "one_update s \<longleftrightarrow> (\<forall>c d. updating s c \<longrightarrow> updating s d \<longrightarrow> c = d)"

lemma serves_state_cong:
  "w_State w' = w_State w \<Longrightarrow> w_Proxy w' = w_Proxy w \<Longrightarrow> serves_state E w' = serves_state E w"
  by (simp add: serves_state_def proxy_current_def)

lemma serves_started: "serves_state E (run_World started)"
proof -
  let ?V = "\<lparr>env_regexp = E, env_now = 0, env_range = (\<lambda>_. sorted_list_of_set),
    env_cluster = undefined, env_pem_type = (\<lambda>_. None)\<rparr>"
  have "proxy_current ?V 0 (run_World started)"
    by (simp add: proxy_current_def proxy_table_def started_def NewState_def NewProxy_def GetGateways_def)
  then show ?thesis
    unfolding serves_state_def by (intro exI [of _ ?V] exI [of _ "0 :: nat"]) (simp add: range_choice_ok_def)
qed

text \<open>Workers that change neither the state nor the proxy, and are not in \<open>updateProxy\<close> afterwards.\<close>

lemma published_worker:
  assumes "published E s" "\<not> updating s c" "w_State (run_World t) = w_State (run_World s)"
    and "w_Proxy (run_World t) = w_Proxy (run_World s)" "run_Workers t = (run_Workers s)(c := wk)"
    and "\<And>req pc. wk \<noteq> Updating req pc" "owing s \<Longrightarrow> owing t"
  shows "published E t"
proof -
  have "fresh_update s \<Longrightarrow> fresh_update t" "all_fresh s \<Longrightarrow> all_fresh t"
    using assms(2,3,5,6) by (auto simp: fresh_update_def all_fresh_def updating_def) metis+
  with assms(1,7) serves_state_cong [OF assms(3,4)] show ?thesis by (auto simp: published_def)
qed

lemma owing_worker:
  assumes "owing s" "run_Workers t = (run_Workers s)(c := wk)"
    and "\<And>req. (HTTPRouteReconciler, req) \<in> run_Queue s \<Longrightarrow> owing t"
    and "\<And>req p. run_Workers s c = Handling req p \<Longrightarrow> indebted c p \<Longrightarrow> owing t"
  shows "owing t"
proof -
  have "owing t" if "run_Workers s d = Handling req p" "indebted d p" for d req p
  proof (cases "d = c")
    case False
    with that assms(2) show ?thesis unfolding owing_def by (intro disjI1 exI [of _ d]) auto
  qed (use that assms(4) in blast)
  with assms(1,3) show ?thesis unfolding owing_def [of s] by blast
qed

lemma published_handle:
  assumes "run_ok E own s" "published E s" "run_Workers s c = Handling req (Step effect rest)"
    and "surroundings_ok E (run_Objects s) V"
  shows "published E (set_worker c (Handling req (rest V (run_World s)))
    (s\<lparr>run_World := effect V (run_World s)\<rparr>))" (is "published E ?t")
proof (cases "w_State (effect V (run_World s)) = w_State (run_World s)")
  case True
  have "owing ?t" if "indebted c (Step effect rest)"
    using that unfolding owing_def
    by (intro disjI1 exI [of _ c]) (auto simp: indebted_def split: if_splits)
  moreover have "owing ?t" if "(HTTPRouteReconciler, k) \<in> run_Queue s" for k
    using that by (auto simp: owing_def)
  ultimately have "owing s \<Longrightarrow> owing ?t"
    using assms(3) by (elim owing_worker [where c = c]) auto
  then show ?thesis
    using assms(3) True run_ok_handle(2) [OF assms(1,3,4)]
    by (intro published_worker [OF assms(2), where c = c]) (auto simp: updating_def)
next
  case False
  have "pays c (Step effect rest)" using run_okD(8) [OF assms(1), of c] assms(3) by simp
  with False have "indebted c (rest V (run_World s))" by simp
  then have "owing ?t" by (auto simp: owing_def)
  then show ?thesis by (simp add: published_def)
qed

lemma published_publish:
  assumes "state_ok (w_State (run_World s))" "published E s" "one_update s"
    and "run_Workers s c = Updating req (AtPublish gws rs B)" "table_of E now gws rs B = Inr table"
  shows "published E (set_worker c (Handling req (Reply done_ok))
    (s\<lparr>run_World := (run_World s)\<lparr>w_Proxy := UpdateRoutes table (w_Proxy (run_World s))\<rparr>\<rparr>))"
    (is "published E ?t")
proof -
  have only: "d = c" if "run_Workers s d = Updating r pc" for d r pc
    using assms(3,4) that by (auto simp: one_update_def updating_def)
  show ?thesis
  proof (cases "fresh (w_State (run_World s)) (AtPublish gws rs B)")
    case True
    have "serves_state E (run_World ?t)"
      using publish_serves [OF True assms(5,1)] by simp
    moreover have "all_fresh ?t" using only by (auto simp: all_fresh_def)
    ultimately show ?thesis by (simp add: published_def)
  next
    case False
    then have "owing s"
      using assms(2,4) only by (auto simp: published_def fresh_update_def all_fresh_def simp del: fresh.simps)
    then have "owing ?t"
      by (rule owing_worker [where c = c]) (use assms(4) in \<open>auto simp: owing_def\<close>)
    then show ?thesis by (simp add: published_def)
  qed
qed

lemma published_step:
  assumes "run_ok E own s" "one_update s" "published E s" "system_step E (admitted own) True s t"
  shows "published E t"
  using assms(4)
proof (cases rule: system_step.cases)
  case (observe c listed reqs)
  with assms(3) show ?thesis
    by (auto simp: published_def owing_def fresh_update_def all_fresh_def)
next
  case (take c req)
  have "owing t" if "(HTTPRouteReconciler, k) \<in> run_Queue s" for k
  proof (cases "(HTTPRouteReconciler, k) = (c, req)")
    case True
    then have "indebted c (reconcile_steps c req)" using HTTPRoute_steps_owe by (simp add: indebted_def)
    with take show ?thesis by (auto simp: owing_def)
  next
    case False
    with that take show ?thesis by (auto simp: owing_def)
  qed
  then have "owing s \<Longrightarrow> owing t" using take by (elim owing_worker [where c = c]) auto
  then show ?thesis
    using take by (intro published_worker [OF assms(3), where c = c]) (auto simp: updating_def)
next
  case handle
  with published_handle [OF assms(1,3)] show ?thesis by blast
next
  case (enter c req)
  then have "fresh_update t" by (auto simp: fresh_update_def)
  then show ?thesis by (simp add: published_def)
next
  case (read_state c req pc pc')
  have only: "d = c" if "run_Workers s d = Updating r p" for d r p
    using assms(2) read_state(2) that by (auto simp: one_update_def updating_def)
  have "owing s \<Longrightarrow> owing t"
    using read_state by (elim owing_worker [where c = c]) (auto simp: owing_def)
  moreover have up: "fresh (w_State (run_World t)) pc'" if "fresh (w_State (run_World s)) pc"
    using update_read_fresh [OF read_state(3) that] by (simp add: read_state(1))
  have "fresh_update s \<or> all_fresh s \<Longrightarrow> fresh (w_State (run_World s)) pc"
    using only read_state(2) by (auto simp: fresh_update_def all_fresh_def)
  with up have "fresh_update s \<or> all_fresh s \<Longrightarrow> fresh_update t"
    unfolding fresh_update_def by (intro exI [of _ c]) (simp add: read_state(1))
  ultimately show ?thesis using assms(3) read_state(1) by (auto simp: published_def)
next
  case publish
  with published_publish [OF run_okD(3) [OF assms(1)] assms(3,2)] show ?thesis by blast
next
  case (return c req out)
  have "owing t" if "indebted c (Reply out)"
    using that return by (auto simp: owing_def indebted_def split: if_splits)
  moreover have "owing t" if "(HTTPRouteReconciler, k) \<in> run_Queue s" for k
    using that return by (auto simp: owing_def)
  ultimately have "owing s \<Longrightarrow> owing t" using return by (elim owing_worker [where c = c]) auto
  then show ?thesis
    using return by (intro published_worker [OF assms(3), where c = c]) (auto simp: updating_def)
qed

lemma one_update_step:
  assumes "one_update s" "system_step E admit True s t"
  shows "one_update t"
  using assms(2)
proof (cases rule: system_step.cases)
  case (enter c req)
  then show ?thesis by (auto simp: one_update_def updating_def split: if_splits)
next
  case (read_state c req pc pc')
  then have "updating t = updating s" by (auto simp: updating_def fun_eq_iff)
  with assms(1) show ?thesis by (simp add: one_update_def)
qed (use assms(1) in \<open>auto simp: one_update_def updating_def split: if_splits\<close>)

lemma runs_to_published:
  assumes "runs_to E (admitted own) True s"
  shows "run_ok E own s \<and> one_update s \<and> published E s"
  using assms unfolding runs_to_def
proof (induction rule: rtranclp_induct)
  case base
  show ?case
    using run_ok_started serves_started
    by (simp add: one_update_def updating_def published_def all_fresh_def) (simp add: started_def)
next
  case (step s t)
  then show ?case using run_ok_step one_update_step published_step by blast
qed

lemma at_rest_serves:
  assumes "runs_to E (admitted own) True s" "at_rest s"
  shows "serves_state E (run_World s)"
  using runs_to_published [OF assms(1)] assms(2)
  by (auto simp: published_def owing_def fresh_update_def at_rest_def)

lemma at_rest_spec_state:
  assumes "run_ok E own s" "at_rest s"
  shows "spec_state (w_State (run_World s)) = spec_state (cluster_state own (run_Objects s))"
proof (rule spec_state_eqI)
  note ok = run_okD(1) [OF assms(1)]
  show "state_ok (w_State (run_World s))" by (rule run_okD(3) [OF assms(1)])
  show "state_ok (cluster_state own (run_Objects s))" by (rule state_ok_cluster_state [OF ok])
  show "same_spec (held (w_State (run_World s)) kd k) (held (cluster_state own (run_Objects s)) kd k)" for kd k
  proof -
    obtain c where c: "kind_for c = kd"
      by (cases kd) (use kind_for_simps in blast)+
    have "same_spec (held (w_State (run_World s)) (kind_for c) k) (wanted own (run_Objects s) (kind_for c) k)"
      using assms(2) run_okD(7) [OF assms(1)] by (simp add: at_rest_def mirrors_def working_on_def)
    with c show ?thesis by (simp add: held_cluster_state [OF ok])
  qed
qed

end
