(* ===== verification/ManagerProgress.thy ===== *)
theory ManagerProgress
  imports ManagerInvariant
begin

text \<open>
  Runs without a change of the cluster, and the run of one request that is served without
  interruption: the system then does what the reconciler does as a function.
\<close>

section \<open>A call that is left alone\<close>

abbreviation runs_on :: "regexp_engine \<Rightarrow> bool \<Rightarrow> Running \<Rightarrow> Running \<Rightarrow> bool" where
  "runs_on E alone \<equiv> (system_step E (\<lambda>_ _. False) alone)\<^sup>*\<^sup>*"

lemma system_step_mono:
  "system_step E (\<lambda>_ _. False) alone s t \<Longrightarrow> system_step E admit alone s t"
  by (induction rule: system_step.induct) ((rule system_step.intros; assumption) | blast)+

lemma runs_on_mono: "runs_on E alone s t \<Longrightarrow> (system_step E admit alone)\<^sup>*\<^sup>* s t"
  by (induction rule: rtranclp_induct) (auto intro: rtranclp.rtrancl_into_rtrancl system_step_mono)

lemma runs_to_on: "runs_to E admit alone s \<Longrightarrow> runs_on E alone s t \<Longrightarrow> runs_to E admit alone t"
  unfolding runs_to_def using runs_on_mono rtranclp_trans by metis

lemma runs_to_step:
  "runs_to E admit alone s \<Longrightarrow> system_step E (\<lambda>_ _. False) alone s t \<Longrightarrow> runs_to E admit alone t"
  by (rule runs_to_on [OF _ r_into_rtranclp])

lemma run_ok_on: "runs_on E alone s t \<Longrightarrow> run_ok E own s \<Longrightarrow> run_ok E own t"
  by (induction rule: rtranclp_induct) (auto intro: run_ok_step system_step_mono)

lemma run_front:
  assumes "run_Workers s c = Handling req p" "surroundings_ok E (run_Objects s) V"
  shows "runs_on E alone s (set_worker c (Handling req (snd (front_end V p (run_World s))))
    (s\<lparr>run_World := fst (front_end V p (run_World s))\<rparr>))"
  using assms
proof (induction p arbitrary: s rule: front_induct)
  case (Step effect rest)
  let ?u = "set_worker c (Handling req (rest V (run_World s))) (s\<lparr>run_World := effect V (run_World s)\<rparr>)"
  have "system_step E (\<lambda>_ _. False) alone s ?u" by (rule handle [OF Step.prems])
  moreover have "runs_on E alone ?u (set_worker c (Handling req (snd (front_end V (rest V (run_World s)) (run_World ?u))))
      (?u\<lparr>run_World := fst (front_end V (rest V (run_World s)) (run_World ?u))\<rparr>))"
    using Step.prems by (intro Step.IH) simp_all
  ultimately show ?case by (simp add: set_worker_def converse_rtranclp_into_rtranclp)
qed (simp_all add: set_worker_def fun_upd_idem)

lemma run_reads:
  assumes "run_Workers s c = Updating req pc" "(update_read (w_State (run_World s)))\<^sup>*\<^sup>* pc pc'"
  shows "runs_on E alone s (set_worker c (Updating req pc') s)"
  using assms(2)
proof (induction rule: rtranclp_induct)
  case base
  show ?case using assms(1) by (simp add: set_worker_def fun_upd_idem)
next
  case (step p p')
  have "system_step E (\<lambda>_ _. False) alone (set_worker c (Updating req p) s)
      (set_worker c (Updating req p') (set_worker c (Updating req p) s))"
    using step.hyps(2) by (intro read_state) simp_all
  with step.IH show ?case by (simp add: rtranclp.rtrancl_into_rtrancl)
qed

text \<open>A published table and the return of its call.\<close>

lemma run_publish:
  assumes "run_Workers s c = Updating req (AtPublish gws rs B)" "table_of E now gws rs B = Inr table"
  shows "runs_on E alone s (set_worker c Free
    (s\<lparr>run_World := (run_World s)\<lparr>w_Proxy := UpdateRoutes table (w_Proxy (run_World s))\<rparr>\<rparr>))"
proof -
  let ?u = "set_worker c (Handling req (Reply done_ok))
    (s\<lparr>run_World := (run_World s)\<lparr>w_Proxy := UpdateRoutes table (w_Proxy (run_World s))\<rparr>\<rparr>)"
  have "system_step E (\<lambda>_ _. False) alone s ?u" by (rule publish [OF assms])
  moreover have "system_step E (\<lambda>_ _. False) alone ?u (set_worker c Free (?u\<lparr>run_Queue := run_Queue ?u\<rparr>))"
    using return [of ?u c req done_ok] by simp
  ultimately show ?thesis by (simp add: set_worker_def)
qed

text \<open>
  A request that is served without interruption: the system does what the reconciler does as a
  function.
\<close>

lemma call_alone_runs:
  assumes "run_Workers s c = Free" "(c, req) \<in> run_Queue s" "surroundings_ok E (run_Objects s) V"
    and "reg_Reconcile (SetupWithManager c) V req (run_World s) = (Inr out, w')"
    and "alone \<Longrightarrow> \<forall>d. \<not> updating s d"
    and "state_ok (w_State (fst (front_end V (reconcile_steps c req) (run_World s))))"
  shows "runs_on E alone s
    (s\<lparr>run_Queue := (if retried out then run_Queue s else run_Queue s - {(c, req)}), run_World := w'\<rparr>)"
proof -
  let ?q = "run_Queue s - {(c, req)}"
  define s1 where "s1 = set_worker c (Handling req (reconcile_steps c req)) (s\<lparr>run_Queue := ?q\<rparr>)"
  obtain w1 p1 where fe: "front_end V (reconcile_steps c req) (run_World s) = (w1, p1)" by fastforce
  define s2 where "s2 = set_worker c (Handling req p1) (s1\<lparr>run_World := w1\<rparr>)"
  have "system_step E (\<lambda>_ _. False) alone s s1" unfolding s1_def by (rule take [OF assms(1,2)])
  moreover have "runs_on E alone s1 s2"
    using run_front [of s1 c req "reconcile_steps c req" E V alone] assms(3) fe by (simp add: s1_def s2_def)
  ultimately have run2: "runs_on E alone s s2" by (rule converse_rtranclp_into_rtranclp)
  have call: "call_alone V (first_range c) p1 w1 = (Inr out, w')"
    using assms(4) call_alone_front_end [of V "first_range c" "reconcile_steps c req" "run_World s"]
    by (simp add: fe call_alone_reconcile)
  show ?thesis
  proof (cases p1)
    case (Reply out')
    with call have out: "out' = out" "w' = w1" by simp_all
    have "run_Workers s2 c = Handling req (Reply out)" by (simp add: s2_def Reply out)
    from return [OF this, of E "\<lambda>_ _. False" alone] have
      "system_step E (\<lambda>_ _. False) alone s2 (set_worker c Free
         (s2\<lparr>run_Queue := (if retried out then insert (c, req) (run_Queue s2) else run_Queue s2)\<rparr>))" .
    also have "set_worker c Free
         (s2\<lparr>run_Queue := (if retried out then insert (c, req) (run_Queue s2) else run_Queue s2)\<rparr>) =
      s\<lparr>run_Queue := (if retried out then run_Queue s else ?q), run_World := w'\<rparr>"
      using assms(1,2) by (auto simp: s2_def s1_def set_worker_def out fun_upd_idem insert_absorb)
    finally show ?thesis using run2 by (rule rtranclp.rtrancl_into_rtrancl [rotated])
  next
    case (Crash panic)
    with call show ?thesis by simp
  next
    case UpdateProxy
    with call have out: "out = done_ok" and u: "updateProxy V (first_range c) w1 = (Inr (), w')"
      by (auto simp: update_then_def split: prod.splits sum.splits)
    have "state_ok (w_State w1)" "range_choice_ok V" "env_regexp V = E"
      using assms(3,6) fe by (simp_all add: surroundings_ok_def)
    then obtain gws rs B table where t: "(update_read (w_State w1))\<^sup>*\<^sup>* AtGateways (AtPublish gws rs B)"
      "table_of E (env_now V) gws rs B = Inr table" "w' = w1\<lparr>w_Proxy := UpdateRoutes table (w_Proxy w1)\<rparr>"
      using updateProxy_reads [OF _ _ u] by metis
    define s3 where "s3 = set_worker c (Updating req AtGateways) s2"
    have "\<not> updating s2 d" if alone for d
      using assms(5) [OF that] by (auto simp: updating_def s2_def s1_def)
    then have "system_step E (\<lambda>_ _. False) alone s2 s3"
      unfolding s3_def using UpdateProxy by (intro enter) (auto simp: s2_def)
    moreover have "runs_on E alone s3 (set_worker c (Updating req (AtPublish gws rs B)) s3)"
      by (rule run_reads) (use t(1) in \<open>simp_all add: s3_def s2_def\<close>)
    moreover have "run_Workers (set_worker c (Updating req (AtPublish gws rs B)) s3) c =
        Updating req (AtPublish gws rs B)" by simp
    note run_publish [OF this t(2), of alone]
    ultimately have "runs_on E alone s2 (set_worker c Free (s3\<lparr>run_World := w'\<rparr>))"
      by (simp add: set_worker_def s3_def s2_def t(3))
    also have "set_worker c Free (s3\<lparr>run_World := w'\<rparr>) =
        s\<lparr>run_Queue := (if retried out then run_Queue s else ?q), run_World := w'\<rparr>"
      using assms(1) by (simp add: s3_def s2_def s1_def set_worker_def out fun_upd_idem)
    finally show ?thesis using run2 by (rule rtranclp_trans [rotated])
  next
    case (Step effect rest)
    with front_end_no_step [of V "reconcile_steps c req" "run_World s" effect rest] fe show ?thesis by simp
  qed
qed

end
