(* ===== verification/Draining.thy ===== *)
theory Draining
  imports ManagerProgress
begin

text \<open>
  The system comes to rest when the cluster stops changing and the API server answers: every step
  makes the work that is left smaller, in a multiset order on requests and calls, and the only
  states without a step are those at rest.
\<close>

section \<open>An API server that answers\<close>

definition api_up :: "Cluster \<Rightarrow> bool" where
  "api_up C \<longleftrightarrow>
     (\<forall>k e. get_HTTPRoute C k \<noteq> GetFailed e \<and> get_Gateway C k \<noteq> GetFailed e \<and>
        get_GatewayClass C k \<noteq> GetFailed e \<and> get_Service C k \<noteq> GetFailed e \<and>
        get_ConfigMap C k \<noteq> GetFailed e \<and> get_BackendTLSPolicy C k \<noteq> GetFailed e) \<and>
     (\<forall>x e. put_HTTPRoute_status C x \<noteq> Inl e) \<and> (\<forall>x e. put_Gateway_status C x \<noteq> Inl e) \<and>
     (\<forall>x e. put_GatewayClass_status C x \<noteq> Inl e) \<and>
     (\<forall>x e. put_BackendTLSPolicy_status C x \<noteq> Inl e)"

text \<open>The proxy's own service has its load-balancer address.\<close>

definition address_known :: "objects \<Rightarrow> bool" where
  "address_known objs \<longleftrightarrow>
     (case objs (KindService, NamespacedName ''default'' ''gari-proxy'') of
        Some (ServiceObject svc) \<Rightarrow> first_ip (svc_Ingress_IPs svc) \<noteq> '''' | _ \<Rightarrow> False)"

text \<open>A step without a change of the cluster; if it asks the API server, that answers.\<close>

definition answered_step :: "regexp_engine \<Rightarrow> bool \<Rightarrow> Running \<Rightarrow> Running \<Rightarrow> bool" where
  "answered_step E alone s t \<longleftrightarrow> system_step E (\<lambda>_ _. False) alone s t \<and>
     (\<forall>c req effect rest. run_Workers s c = Handling req (Step effect rest) \<longrightarrow>
        run_Workers t c = run_Workers s c \<or>
        (\<exists>V. surroundings_ok E (run_Objects s) V \<and> api_up (env_cluster V) \<and>
           run_Workers t c = Handling req (rest V (run_World s))))"

section \<open>Calls that are not repeated\<close>

text \<open>A call that returns without asking to be repeated, if the API server answers all along.\<close>

primrec smooth :: "regexp_engine \<Rightarrow> objects \<Rightarrow> front \<Rightarrow> bool" where
  "smooth E objs (Reply out) \<longleftrightarrow> \<not> retried out"
| "smooth E objs (Crash panic) \<longleftrightarrow> True"
| "smooth E objs UpdateProxy \<longleftrightarrow> True"
| "smooth E objs (Step effect rest) \<longleftrightarrow>
     (\<forall>V w. surroundings_ok E objs V \<longrightarrow> api_up (env_cluster V) \<longrightarrow> smooth E objs (rest V w))"

abbreviation answering :: "regexp_engine \<Rightarrow> objects \<Rightarrow> Env \<Rightarrow> bool" where
  "answering E objs V \<equiv> surroundings_ok E objs V \<and> api_up (env_cluster V)"

lemma smooth_steps [simp]:
  "smooth E objs (fetch get f) \<longleftrightarrow> (\<forall>V. answering E objs V \<longrightarrow> smooth E objs (f (get (env_cluster V))))"
  "smooth E objs (put_status written put f) \<longleftrightarrow>
     (\<forall>V. answering E objs V \<longrightarrow> smooth E objs (f (put (env_cluster V))))"
  "smooth E objs (clock g) \<longleftrightarrow> (\<forall>V. answering E objs V \<longrightarrow> smooth E objs (g (env_now V)))"
  "smooth E objs (look l m) \<longleftrightarrow>
     (\<forall>V (w :: World). answering E objs V \<longrightarrow> smooth E objs (m (l V (w_State w))))"
  "smooth E objs (change h n) \<longleftrightarrow>
     (\<forall>V (w :: World). answering E objs V \<longrightarrow> smooth E objs (n (fst (h V (w_State w)))))"
  "smooth E objs (store_then s p) \<longleftrightarrow> (\<forall>V. answering E objs V \<longrightarrow> smooth E objs p)"
  by (auto simp: step_defs store_then_def)

lemma smooth_ca_steps: "(\<And>un. smooth E objs (f un)) \<Longrightarrow> smooth E objs (ca_steps ns refs cas un f)"
  by (induction refs arbitrary: cas un) (auto split: prod.split)

lemma smooth_report_Gateway: "smooth E objs (report_Gateway_steps gw ip)"
  by (auto simp: report_Gateway_steps_def Let_def api_up_def split: sum.split)

lemma smooth_address:
  assumes "address_known objs"
  shows "smooth E objs (address_steps gw)"
proof -
  have "\<exists>svc. get_Service (env_cluster V) (NamespacedName ''default'' ''gari-proxy'') = Found svc \<and>
      first_ip (svc_Ingress_IPs svc) \<noteq> ''''" if "answering E objs V" for V
  proof (cases "get_Service (env_cluster V) (NamespacedName ''default'' ''gari-proxy'')")
    case (Found svc)
    with reads_Found [OF client_reads_each(4) [OF conjunct1 [OF that]] Found] assms show ?thesis
      by (simp add: address_known_def)
  next
    case (NotFound e)
    with reads_NotFound [OF client_reads_each(4) [OF conjunct1 [OF that]] NotFound] assms show ?thesis
      by (simp add: address_known_def)
  next
    case (GetFailed e)
    with that show ?thesis by (simp add: api_up_def)
  qed
  then show ?thesis
    unfolding address_steps_def by (fastforce simp: Let_def smooth_report_Gateway)
qed

lemma smooth_Gateway: "address_known objs \<Longrightarrow> smooth E objs (Gateway_steps req)"
  using smooth_address
  by (auto simp: Gateway_steps_def class_steps_def api_up_def split: get_result.split)

lemma smooth_each:
  assumes "address_known objs"
  shows "smooth E objs (reconcile_steps c req)"
proof (cases c)
  case GatewayReconciler
  then show ?thesis using smooth_Gateway [OF assms] by simp
qed (auto simp: HTTPRoute_steps_def report_HTTPRoute_steps_def finish_HTTPRoute_steps_def
    GatewayClass_steps_def Service_steps_def ConfigMap_steps_def BackendTLSPolicy_steps_def
    report_BackendTLSPolicy_steps_def Let_def api_up_def
    intro!: smooth_ca_steps split: get_result.split sum.split list.split)

section \<open>The work that is left\<close>

text \<open>
  What waits and what is in flight has a weight: a call that may be repeated weighs more than a
  request, a request more than a call that will not, and a call loses weight with each step.
\<close>

definition part_of :: "(front \<times> front) set" where
  "part_of = {(rest V w, Step effect rest) | effect rest V w. True}"

definition lighter :: "((nat \<times> front) \<times> (nat \<times> front)) set" where
  "lighter = less_than <*lex*> part_of"

fun stage :: "update_pc \<Rightarrow> nat" where
  "stage AtGateways = 7"
| "stage (AtRoutes _) = 6"
| "stage (AtServices _ _) = 5"
| "stage (AtPolicies _ _ _) = 4"
| "stage (AtConfigMaps _ _ _ _) = 3"
| "stage (AtPublish _ _ _) = 2"

fun weight :: "regexp_engine \<Rightarrow> objects \<Rightarrow> worker \<Rightarrow> nat \<times> front" where
  "weight E objs Free = (0, UpdateProxy)"
| "weight E objs (Handling req p) =
     (if \<not> smooth E objs p then 10 else if \<exists>out. p = Reply out then 1 else 8, p)"
| "weight E objs (Updating req pc) = (stage pc, UpdateProxy)"

definition work :: "regexp_engine \<Rightarrow> Running \<Rightarrow> (nat \<times> front) multiset" where
  "work E s = image_mset (\<lambda>_. (9, UpdateProxy)) (mset_set (run_Queue s)) +
     image_mset (\<lambda>c. weight E (run_Objects s) (run_Workers s c)) (mset_set (set all_reconcilers))"

lemma wf_part_of: "wf part_of"
proof (rule wfUNIVI)
  fix P :: "front \<Rightarrow> bool" and p
  assume step: "\<forall>x. (\<forall>y. (y, x) \<in> part_of \<longrightarrow> P y) \<longrightarrow> P x"
  show "P p"
    by (induction p rule: front_induct; rule step [rule_format]) (auto simp: part_of_def)
qed

lemma wf_lighter: "wf lighter"
  unfolding lighter_def by (rule wf_lex_prod [OF wf_less_than wf_part_of])

lemma rest_not_itself: "rest V w \<noteq> Step effect rest"
proof
  assume "rest V w = Step effect rest"
  then have "(Step effect rest, Step effect rest) \<in> part_of" by (auto simp: part_of_def) metis
  with wf_part_of show False by auto
qed

lemma read_stage: "update_read st pc pc' \<Longrightarrow> stage pc' < stage pc"
  by (induction rule: update_read.induct) simp_all

lemma mult_replace:
  "M = I + K \<Longrightarrow> N = I + J \<Longrightarrow> J \<noteq> {#} \<Longrightarrow> \<forall>k \<in> set_mset K. \<exists>j \<in> set_mset J. (k, j) \<in> r \<Longrightarrow>
     (M, N) \<in> mult r"
  by (simp add: one_step_implies_mult)

text \<open>One worker and perhaps the queue change.\<close>

lemma work_worker:
  assumes "run_Objects t = run_Objects s" "run_Workers t = (run_Workers s)(c := wk)"
    and "finite (run_Queue s)"
    and "run_Queue t = run_Queue s \<and> (weight E (run_Objects s) wk, weight E (run_Objects s) (run_Workers s c)) \<in> lighter \<or>
      (\<exists>q \<in> run_Queue s. run_Queue t = run_Queue s - {q} \<and> (weight E (run_Objects s) wk, (9, UpdateProxy)) \<in> lighter) \<or>
      (\<exists>q. run_Queue t = insert q (run_Queue s) \<and>
        (weight E (run_Objects s) wk, weight E (run_Objects s) (run_Workers s c)) \<in> lighter \<and>
        ((9, UpdateProxy), weight E (run_Objects s) (run_Workers s c)) \<in> lighter)"
  shows "(work E t, work E s) \<in> mult lighter"
proof -
  let ?m = "\<lambda>wk. {#weight E (run_Objects s) wk#}" and ?q = "\<lambda>Q :: request set. image_mset (\<lambda>_. (9, UpdateProxy)) (mset_set Q)"
  define R where "R = image_mset (\<lambda>d. weight E (run_Objects s) (run_Workers s d)) (mset_set (set all_reconcilers - {c}))"
  have split: "mset_set (set all_reconcilers) = add_mset c (mset_set (set all_reconcilers - {c}))"
    using mset_set.remove [of "set all_reconcilers" c] by (simp add: set_all_reconcilers [THEN equalityD2, THEN subsetD])
  have "image_mset (\<lambda>d. weight E (run_Objects s) (if d = c then wk else run_Workers s d))
      (mset_set (set all_reconcilers - {c})) = R"
    unfolding R_def by (intro image_mset_cong) auto
  then have t: "work E t = (?q (run_Queue t) + R) + ?m wk" and s: "work E s = (?q (run_Queue s) + R) + ?m (run_Workers s c)"
    using assms(1,2) by (simp_all add: work_def split R_def [symmetric] fun_upd_apply)
  from assms(4) show ?thesis
  proof (elim disjE conjE bexE exE)
    assume q: "run_Queue t = run_Queue s"
      "(weight E (run_Objects s) wk, weight E (run_Objects s) (run_Workers s c)) \<in> lighter"
    show ?thesis unfolding s t q(1) by (intro one_step_implies_mult) (simp_all add: q(2))
  next
    fix q assume q: "q \<in> run_Queue s" "run_Queue t = run_Queue s - {q}"
      "(weight E (run_Objects s) wk, (9, UpdateProxy)) \<in> lighter"
    then have "?q (run_Queue s) = add_mset (9, UpdateProxy) (?q (run_Queue t))"
      using mset_set.remove [OF assms(3) q(1)] by simp
    then have "work E s = (?q (run_Queue t) + R) + (?m (run_Workers s c) + {#(9, UpdateProxy)#})"
      unfolding s by simp
    with t show ?thesis by (rule mult_replace) (use q(3) in simp_all)
  next
    fix q assume q: "run_Queue t = insert q (run_Queue s)"
      "(weight E (run_Objects s) wk, weight E (run_Objects s) (run_Workers s c)) \<in> lighter"
      "((9, UpdateProxy), weight E (run_Objects s) (run_Workers s c)) \<in> lighter"
    show ?thesis
    proof (cases "q \<in> run_Queue s")
      case True
      then have "run_Queue t = run_Queue s" using q(1) by (simp add: insert_absorb)
      then show ?thesis unfolding s t by (simp only:) (intro one_step_implies_mult, simp_all add: q(2))
    next
      case False
      then have "work E t = (?q (run_Queue s) + R) + (?m wk + {#(9, UpdateProxy)#})"
        unfolding t using q(1) assms(3) by simp
      then show ?thesis by (rule mult_replace [OF _ s]) (use q(2,3) in simp_all)
    qed
  qed
qed

lemma work_decreases:
  assumes "answered_step E alone s t" "finite (run_Queue s)" "address_known (run_Objects s)"
  shows "(work E t, work E s) \<in> mult lighter"
proof -
  note lex = lighter_def less_than_iff in_lex_prod
  have step: "system_step E (\<lambda>_ _. False) alone s t" using assms(1) by (simp add: answered_step_def)
  then show ?thesis
  proof (cases rule: system_step.cases)
    case (take c req)
    have "(weight E (run_Objects s) (Handling req (reconcile_steps c req)), (9, UpdateProxy)) \<in> lighter"
      using smooth_each [OF assms(3)] by (simp add: lex)
    with take assms(2) show ?thesis by (intro work_worker [where c = c]) (auto intro: bexI [of _ "(c, req)"])
  next
    case (handle c req effect rest V)
    let ?p = "rest V (run_World s)"
    have "(?p, Step effect rest) \<in> part_of" by (auto simp: part_of_def)
    moreover have "smooth E (run_Objects s) ?p" if "smooth E (run_Objects s) (Step effect rest)"
    proof -
      have "run_Workers t c = Handling req ?p" using handle(1) by simp
      moreover have "run_Workers t c = run_Workers s c \<or> (\<exists>V'. answering E (run_Objects s) V' \<and>
          run_Workers t c = Handling req (rest V' (run_World s)))"
        using assms(1) handle(2) unfolding answered_step_def by blast
      ultimately obtain V' where "answering E (run_Objects s) V'" "?p = rest V' (run_World s)"
        using handle(2) rest_not_itself [of rest V "run_World s" effect] by auto
      with that show ?thesis by simp
    qed
    ultimately have "(weight E (run_Objects s) (Handling req ?p), weight E (run_Objects s) (run_Workers s c)) \<in> lighter"
      unfolding handle(2) by (auto simp: lex simp del: smooth.simps)
    then show ?thesis
      by (intro work_worker [where c = c, OF _ _ assms(2) disjI1 [OF conjI]]) (simp_all add: handle(1) del: weight.simps)
  next
    case (enter c req)
    with assms(2) show ?thesis by (intro work_worker [where c = c]) (auto simp: lex)
  next
    case (read_state c req pc pc')
    with assms(2) read_stage show ?thesis by (intro work_worker [where c = c]) (auto simp: lex)
  next
    case (publish c req gws rs B now table)
    with assms(2) show ?thesis by (intro work_worker [where c = c]) (auto simp: lex)
  next
    case (return c req out)
    with assms(2) show ?thesis by (intro work_worker [where c = c]) (auto simp: lex split: if_splits)
  qed simp
qed

text \<open>Whoever is at work can take a step.\<close>

lemma never_crashed:
  assumes "run_ok E own s"
  shows "run_Workers s c \<noteq> Handling req (Crash panic)"
proof
  assume "run_Workers s c = Handling req (Crash panic)"
  with run_okD(8) [OF assms, of c] have "worker_ok E own s c (Handling req (Crash panic))" by metis
  then show False by auto
qed

lemma updating_can_step:
  assumes "run_ok E own s" "run_Workers s c = Updating req pc"
  shows "\<exists>t. answered_step E alone s t"
proof -
  obtain gws rs B where r: "(update_read (w_State (run_World s)))\<^sup>*\<^sup>* pc (AtPublish gws rs B)"
    using reads_finish [OF run_okD(3) [OF assms(1)]] by blast
  have "\<exists>t. system_step E (\<lambda>_ _. False) alone s t \<and> (\<forall>d. d \<noteq> c \<longrightarrow> run_Workers t d = run_Workers s d)"
    using r
  proof (cases rule: converse_rtranclpE)
    case base
    have "pc_complete pc" using run_okD(8) [OF assms(1), of c] assms(2) by simp
    with base obtain table where "table_of E 0 gws rs B = Inr table"
      using complete_table [of rs E 0 gws B] by auto
    with publish [of s c req gws rs B, OF _ this] assms(2) base show ?thesis by fastforce
  next
    case (step pc')
    from read_state [OF assms(2) step(1)] show ?thesis by fastforce
  qed
  with assms(2) show ?thesis unfolding answered_step_def by (metis worker.distinct(5))
qed

lemma busy_can_step:
  assumes "run_ok E own s" "run_Workers s c \<noteq> Free" "answering E (run_Objects s) V"
  shows "\<exists>t. answered_step E alone s t"
proof (cases "run_Workers s c")
  case (Updating req pc)
  with updating_can_step [OF assms(1)] show ?thesis by blast
next
  case (Handling req p)
  show ?thesis
  proof (cases p)
    case (Reply out)
    with return [of s c req out] Handling show ?thesis
      unfolding answered_step_def by (fastforce simp del: fun_upd_apply simp: fun_upd_def)
  next
    case (Crash panic)
    with Handling never_crashed [OF assms(1)] show ?thesis by simp
  next
    case UpdateProxy
    show ?thesis
    proof (cases "\<exists>d. updating s d")
      case True
      with updating_can_step [OF assms(1)] show ?thesis by (auto simp: updating_def)
    next
      case False
      with enter [of s c req alone] Handling UpdateProxy show ?thesis
        unfolding answered_step_def by fastforce
    qed
  next
    case (Step effect rest)
    with handle [of s c req effect rest E V] Handling assms(3) show ?thesis
      unfolding answered_step_def by fastforce
  qed
qed (use assms(2) in simp)

lemma waiting_can_step:
  assumes "run_ok E own s" "\<not> at_rest s" "answering E (run_Objects s) V"
  shows "\<exists>t. answered_step E alone s t"
proof (cases "\<forall>c. run_Workers s c = Free")
  case True
  then obtain c req where "(c, req) \<in> run_Queue s" using assms(2) by (auto simp: at_rest_def)
  with take [of s c req] True show ?thesis unfolding answered_step_def by fastforce
next
  case False
  with busy_can_step [OF assms(1) _ assms(3)] show ?thesis by blast
qed

section \<open>Coming to rest\<close>

abbreviation answered_run :: "regexp_engine \<Rightarrow> bool \<Rightarrow> Running \<Rightarrow> Running \<Rightarrow> bool" where
  "answered_run E alone \<equiv> (answered_step E alone)\<^sup>*\<^sup>*"

lemma answered_step_run_ok: "answered_step E alone s t \<Longrightarrow> run_ok E own s \<Longrightarrow> run_ok E own t"
  by (rule run_ok_on [of E alone s]) (auto simp: answered_step_def)

lemma answered_step_Objects: "answered_step E alone s t \<Longrightarrow> run_Objects t = run_Objects s"
  unfolding answered_step_def by (auto elim!: system_step_cases)

lemma answered_run_keeps:
  "answered_run E alone s t \<Longrightarrow> run_ok E own s \<Longrightarrow> run_ok E own t \<and> run_Objects t = run_Objects s"
  by (induction rule: rtranclp_induct) (auto simp: answered_step_run_ok answered_step_Objects)

lemma answered_runs_on: "answered_run E alone s t \<Longrightarrow> runs_on E alone s t"
  by (induction rule: rtranclp_induct) (auto simp: answered_step_def intro: rtranclp.rtrancl_into_rtrancl)

lemma answered_run_ends:
  assumes "run_ok E own s" "address_known (run_Objects s)" "r 0 = s"
  shows "\<exists>i. \<not> answered_step E alone (r i) (r (Suc i))"
proof (rule ccontr)
  assume "\<not> ?thesis"
  then have step: "answered_step E alone (r i) (r (Suc i))" for i by blast
  have "answered_run E alone s (r i)" for i
    using assms(3) step by (induction i) (auto intro: rtranclp.rtrancl_into_rtrancl)
  note keeps = answered_run_keeps [OF this assms(1)]
  have "(work E (r (Suc i)), work E (r i)) \<in> mult lighter" for i
    using work_decreases [OF step] run_okD(2) keeps assms(2) by metis
  then show False
    using wf_mult [OF wf_lighter] unfolding wf_iff_no_infinite_down_chain
    by (elim notE) (rule exI [of _ "\<lambda>i. work E (r i)"], blast)
qed

lemma stuck_at_rest:
  assumes "run_ok E own s" "surroundings_ok E (run_Objects s) V" "api_up (env_cluster V)"
    and "answered_run E alone s t" "\<nexists>u. answered_step E alone t u"
  shows "at_rest t"
  using waiting_can_step [of E own t V alone] answered_run_keeps [OF assms(4,1)] assms(2,3,5) by auto

lemma comes_to_rest:
  assumes "run_ok E own s" "surroundings_ok E (run_Objects s) V" "api_up (env_cluster V)"
    and "address_known (run_Objects s)"
  shows "\<exists>t. answered_run E alone s t \<and> at_rest t"
  using wf_inv_image [OF wf_mult [OF wf_lighter], of "work E"] assms
proof (induction s rule: wf_induct_rule)
  case (less s)
  show ?case
  proof (cases "\<exists>u. answered_step E alone s u")
    case True
    then obtain u where u: "answered_step E alone s u" ..
    note same = answered_step_Objects [OF u] and ok = answered_step_run_ok [OF u less.prems(1)]
    have "(u, s) \<in> inv_image (mult lighter) (work E)"
      using work_decreases [OF u run_okD(2) [OF less.prems(1)] less.prems(4)] by (simp add: in_inv_image)
    with less.IH ok less.prems(2-4) same obtain t where "answered_run E alone u t" "at_rest t"
      by metis
    with u show ?thesis by (meson converse_rtranclp_into_rtranclp)
  next
    case False
    with stuck_at_rest [OF less.prems(1-3)] show ?thesis by blast
  qed
qed

text \<open>A request that is served alone, with an API server that answers, is not put back.\<close>

lemma smooth_front_end:
  "answering E objs V \<Longrightarrow> smooth E objs p \<Longrightarrow> smooth E objs (snd (front_end V p w))"
  by (induction p arbitrary: w rule: front_induct) simp_all

lemma request_served:
  assumes "run_ok E own s" "run_Workers s c = Free" "(c, req) \<in> run_Queue s"
    and "answering E (run_Objects s) V" "address_known (run_Objects s)"
  shows "\<exists>w'. runs_on E False s (s\<lparr>run_Queue := run_Queue s - {(c, req)}, run_World := w'\<rparr>)"
proof -
  let ?p = "reconcile_steps c req"
  let ?s1 = "set_worker c (Handling req ?p) (s\<lparr>run_Queue := run_Queue s - {(c, req)}\<rparr>)"
  obtain w1 p1 where fe: "front_end V ?p (run_World s) = (w1, p1)" by fastforce
  let ?s2 = "set_worker c (Handling req p1) (?s1\<lparr>run_World := w1\<rparr>)"
  have "system_step E (\<lambda>_ _. False) False s ?s1" by (rule take [OF assms(2,3)])
  moreover have "runs_on E False ?s1 ?s2"
    using run_front [of ?s1 c req ?p E V False] assms(4) by (simp add: fe)
  ultimately have "runs_on E False s ?s2" by (rule converse_rtranclp_into_rtranclp)
  note ok = run_ok_on [OF this assms(1)]
  have p1: "smooth E (run_Objects s) p1"
    using smooth_front_end [OF assms(4) smooth_each [OF assms(5)], of c req "run_World s"] by (simp add: fe)
  have "\<exists>out w'. call_alone V (first_range c) p1 w1 = (Inr out, w') \<and> \<not> retried out"
  proof (cases p1)
    case (Crash panic)
    then have "run_Workers ?s2 c = Handling req (Crash panic)" by simp
    with never_crashed [OF ok] show ?thesis by blast
  next
    case UpdateProxy
    have "state_ok (w_State w1)" "routes_complete (w_State w1)" using run_okD(3,5) [OF ok] by simp_all
    from update_then_total [OF this, of V "first_range c" done_ok] UpdateProxy show ?thesis
      by (metis call_alone.simps(3) prod.collapse retried_simps(1))
  next
    case (Step effect rest)
    with front_end_no_step [of V ?p "run_World s" effect rest] fe show ?thesis by simp
  qed (use p1 in simp)
  then obtain out w' where "reg_Reconcile (SetupWithManager c) V req (run_World s) = (Inr out, w')" "\<not> retried out"
    using call_alone_front_end [of V "first_range c" ?p "run_World s"] fe call_alone_reconcile by auto
  with call_alone_runs [OF assms(2,3) conjunct1 [OF assms(4)], of out w' False] run_okD(3) [OF ok]
  show ?thesis by (auto simp: fe)
qed

end
