(* ===== verification/ManagerProperties.thy ===== *)
theory ManagerProperties
  imports Draining
begin

text \<open>
  The controllers as one system: which requests a change causes, what the state and the proxy
  hold when they have been served, and that they can be served.
\<close>

section \<open>The system at rest\<close>

lemma cluster_table_hosts:
  assumes "objects_ok own objs" "range_choice_ok V" "proxy_table V i (cluster_state own objs) = Inr irs"
  shows "(\<exists>ir \<in> set irs. MatchHostname ir host) \<longleftrightarrow>
    host_attached (env_regexp V) (cluster_state own objs) (strip_port host)"
  using proxy_hosts [OF assms(2), of "\<lparr>w_State = cluster_state own objs, w_Proxy = \<lparr>px_routes = irs\<rparr>, w_Writes = []\<rparr>" i host]
    state_ok_cluster_state [OF assms(1)] cluster_hostnames [OF assms(1)] assms(3)
  by (simp add: proxy_current_def)

text \<open>
  C1: what the proxy serves: let any changes be made to the cluster that keep gateways after their
  classes and classes and gateways with their controller (\<open>admitted\<close>), let the six controllers
  serve the requests in any order, side by side and with retries, as long as no two of their calls
  are inside \<open>updateProxy\<close> at the same time. Whenever nothing is waiting and nobody is at work,
  the proxy then serves a table that is computed from the objects of the cluster alone: it accepts
  a host if and only if a gateway of our class has a listener, and the cluster has a route attached
  to it, that both cover the host, and it answers 404 to every other request. Both conditions are
  needed: see \<open>gateway_before_class_ignored\<close> and \<open>stale_table_can_stay\<close>.
\<close>

theorem drained_proxy_serves_cluster:
  assumes "runs_to E (admitted own) True s" "at_rest s"
  defines "cluster \<equiv> cluster_state own (run_Objects s)"
  shows "(\<exists>V i. range_choice_ok V \<and> env_regexp V = E \<and>
      proxy_table V i cluster = Inr (px_routes (w_Proxy (run_World s)))) \<and>
    (if host_attached E cluster (strip_port (req_Host r))
     then \<exists>ir \<in> set (px_routes (w_Proxy (run_World s))). MatchHostname ir (req_Host r)
     else ServeHTTP E (w_Proxy (run_World s)) r = not_found r)"
proof -
  note ok = runs_to_ok [OF assms(1)]
  note objs = run_okD(1) [OF ok]
  obtain V i where V: "range_choice_ok V" "env_regexp V = E"
    and cur: "proxy_current V i (run_World s)"
    using at_rest_serves [OF assms(1,2)] by (auto simp: serves_state_def)
  have table: "proxy_table V i cluster = Inr (px_routes (w_Proxy (run_World s)))"
    using cur proxy_table_same_spec [OF at_rest_spec_state [OF ok assms(2)], of V i]
    unfolding proxy_current_def cluster_def by simp
  note hosts = cluster_table_hosts [OF objs V(1) table [unfolded cluster_def], folded cluster_def, of "req_Host r"]
  have "ServeHTTP E (w_Proxy (run_World s)) r = not_found r"
    if "\<not> (\<exists>ir \<in> set (px_routes (w_Proxy (run_World s))). MatchHostname ir (req_Host r))"
    using that by (simp add: ServeHTTP_def MatchRoute_def route_loop_no_host)
  with hosts V table show ?thesis by auto
qed

text \<open>
  C38: what the state holds, under any interleaving of the six controllers and of their calls of
  \<open>updateProxy\<close>: if the changes of the cluster are \<open>admitted\<close> (see the first property), then
  whenever nothing is waiting and nobody is at work the state holds exactly the cluster's routes,
  services, config maps and policies and its gateways of our class, each as the cluster has it, up
  to its status.
\<close>

theorem state_mirrors_cluster:
  assumes "runs_to E (admitted own) False s" "at_rest s"
  shows "spec_state (w_State (run_World s)) = spec_state (cluster_state own (run_Objects s))"
  by (rule at_rest_spec_state [OF runs_to_ok [OF assms(1)] assms(2)])


section \<open>An example\<close>

lemma runs_to_put:
  assumes "runs_to E admit alone s" "admit (run_Objects s) (Put obj)"
  shows "\<exists>t. runs_to E admit alone t \<and> run_Objects t = (run_Objects s)(obj_id obj \<mapsto> obj)"
proof -
  have "\<exists>reqs. dispatch (\<lambda>_. Inr []) (event_objects (Put obj) (run_Objects s)) = Inr reqs"
    unfolding dispatch_eq by blast
  then obtain reqs where "dispatch (\<lambda>_. Inr []) (event_objects (Put obj) (run_Objects s)) = Inr reqs" ..
  from observe [of admit s "Put obj", OF assms(2) this] assms(1)
  have "runs_to E admit alone (s\<lparr>run_Objects := change_objects (Put obj) (run_Objects s),
      run_Queue := run_Queue s \<union> set reqs\<rparr>)"
    unfolding runs_to_def by (rule rtranclp.rtrancl_into_rtrancl [rotated])
  moreover have "run_Objects (s\<lparr>run_Objects := change_objects (Put obj) (run_Objects s),
      run_Queue := run_Queue s \<union> set reqs\<rparr>) = (run_Objects s)(obj_id obj \<mapsto> obj)"
    by (simp add: change_objects_def)
  ultimately show ?thesis by blast
qed

fun creatable :: "Ownership \<Rightarrow> objects \<Rightarrow> api_object list \<Rightarrow> bool" where
  "creatable own m [] \<longleftrightarrow> True"
| "creatable own m (obj # objs) \<longleftrightarrow>
     admitted own m (Put obj) \<and> creatable own (m(obj_id obj \<mapsto> obj)) objs"

lemma runs_to_created:
  assumes "runs_to E (admitted own) alone s" "creatable own (run_Objects s) objs"
  shows "\<exists>t. runs_to E (admitted own) alone t \<and>
    run_Objects t = foldl (\<lambda>m obj. m(obj_id obj \<mapsto> obj)) (run_Objects s) objs"
  using assms
proof (induction objs arbitrary: s)
  case Nil
  then show ?case by auto
next
  case (Cons obj objs)
  then have admit: "admitted own (run_Objects s) (Put obj)" by simp
  obtain t where t: "runs_to E (admitted own) alone t" "run_Objects t = (run_Objects s)(obj_id obj \<mapsto> obj)"
    using runs_to_put [OF Cons.prems(1) admit] by blast
  have "creatable own (run_Objects t) objs" unfolding t(2) using Cons.prems(2) by simp
  from Cons.IH [OF t(1) this] show ?case unfolding t(2) foldl_Cons .
qed

text \<open>The example cluster, created object by object, and drained.\<close>

definition ex_created :: "api_object list" where
  "ex_created =
     [GatewayClassObject ex_class, ServiceObject ex_service, ConfigMapObject ex_config_map,
      GatewayObject ex_gateway, HTTPRouteObject ex_route, BackendTLSPolicyObject ex_policy]"

definition ex_own :: Ownership where
  "ex_own = \<lparr>own_Classes = {''gari''}, own_Gateways = {NamespacedName ''default'' ''gw''}\<rparr>"

definition ex_cache :: objects where
  "ex_cache = foldl (\<lambda>m obj. m(obj_id obj \<mapsto> obj)) Map.empty ex_created"

lemma ex_cache_lookup:
  "ex_cache (KindGatewayClass, k) = (if k = object_key ex_class then Some (GatewayClassObject ex_class) else None)"
  "ex_cache (KindService, k) = (if k = object_key ex_service then Some (ServiceObject ex_service) else None)"
  "ex_cache (KindConfigMap, k) = (if k = object_key ex_config_map then Some (ConfigMapObject ex_config_map) else None)"
  "ex_cache (KindGateway, k) = (if k = object_key ex_gateway then Some (GatewayObject ex_gateway) else None)"
  "ex_cache (KindHTTPRoute, k) = (if k = object_key ex_route then Some (HTTPRouteObject ex_route) else None)"
  "ex_cache (KindBackendTLSPolicy, k) =
     (if k = object_key ex_policy then Some (BackendTLSPolicyObject ex_policy) else None)"
  by (simp_all add: ex_cache_def ex_created_def)

lemma reads_single:
  "reads wrap (if k = object_key x then Some (wrap x) else None) (answers [x] k)"
  by (simp add: answers_def)

lemma answers_not_failed: "answers xs k \<noteq> GetFailed e"
  by (simp add: answers_def split: option.split)

lemma ex_client:
  "get_HTTPRoute (env_cluster ex_env) = answers [ex_route]"
  "get_Gateway (env_cluster ex_env) = answers [ex_gateway]"
  "get_GatewayClass (env_cluster ex_env) = answers [ex_class]"
  "get_Service (env_cluster ex_env) = answers [ex_service]"
  "get_ConfigMap (env_cluster ex_env) = answers [ex_config_map]"
  "get_BackendTLSPolicy (env_cluster ex_env) = answers [ex_policy]"
  "put_HTTPRoute_status (env_cluster ex_env) = Inr" "put_Gateway_status (env_cluster ex_env) = Inr"
  "put_GatewayClass_status (env_cluster ex_env) = Inr"
  "put_BackendTLSPolicy_status (env_cluster ex_env) = Inr"
  by (simp_all add: ex_env_def ex_cluster_def)

lemma ex_surroundings_ok: "surroundings_ok literal_engine ex_cache ex_env"
proof -
  have "client_reads ex_cache (env_cluster ex_env)"
    unfolding client_reads_def ex_client ex_cache_lookup by (intro allI conjI reads_single)
  moreover have "keeps_specs (env_cluster ex_env)"
    unfolding keeps_specs_def ex_client by blast
  moreover have "env_regexp ex_env = literal_engine" by (simp add: ex_env_def)
  ultimately show ?thesis using ex_range_ok unfolding surroundings_ok_def by blast
qed

lemma ex_api_up: "api_up (env_cluster ex_env)"
  unfolding api_up_def ex_client by (auto simp: answers_not_failed)

lemma ex_address_known: "address_known ex_cache"
  by (simp add: address_known_def ex_cache_lookup ex_service_def object_key_def first_ip_def)

lemma ex_route_schema: "route_schema ex_route"
  using ex_route_complete by (simp add: route_schema_def ex_route_def)

lemma ex_creatable: "creatable ex_own Map.empty ex_created"
  using ex_route_schema
  by (simp add: ex_created_def class_named_def ex_own_def)
    (simp add: ex_class_def ex_gateway_def object_key_def ex_policy_def)

lemma ex_runs: "\<exists>s. runs_to literal_engine (admitted ex_own) alone s \<and> run_Objects s = ex_cache"
proof -
  have "runs_to literal_engine (admitted ex_own) alone started" by (simp add: runs_to_def)
  from runs_to_created [OF this, of ex_created] ex_creatable show ?thesis
    unfolding ex_cache_def started_def Running.simps .
qed

lemma ex_rests:
  "\<exists>t. runs_to literal_engine (admitted ex_own) alone t \<and> run_Objects t = ex_cache \<and> at_rest t"
proof -
  obtain s where s: "runs_to literal_engine (admitted ex_own) alone s" "run_Objects s = ex_cache"
    using ex_runs by blast
  with comes_to_rest [OF runs_to_ok [OF s(1)], of ex_env alone] ex_surroundings_ok ex_api_up ex_address_known
  obtain t where t: "answered_run literal_engine alone s t" "at_rest t" by auto
  with s answered_run_keeps [OF t(1) runs_to_ok [OF s(1)]] runs_to_on [OF s(1) answered_runs_on [OF t(1)]]
  show ?thesis by auto
qed


lemma ex_host_attached:
  "host_attached literal_engine (cluster_state ex_own ex_cache) ''a.example.com''"
proof -
  have g: "st_gateways (cluster_state ex_own ex_cache) (object_key ex_gateway) = Some \<lparr>gs_Gateway = ex_gateway\<rparr>"
    by (simp add: cluster_state_def wanted_def unowned_def ex_cache_lookup ex_own_def)
      (simp add: ex_gateway_def object_key_def)
  have r: "st_httpRoutes (cluster_state ex_own ex_cache) (object_key ex_route) = Some \<lparr>hs_HTTPRoute = Some ex_route\<rparr>"
    by (simp add: cluster_state_def ex_cache_lookup)
  show ?thesis
    unfolding host_attached_def
    using ranI [of "st_gateways _", OF g] ranI [of "st_httpRoutes _", OF r] ex_attached ex_covers(2,3)
    by (intro bexI [of _ "\<lparr>gs_Gateway = ex_gateway\<rparr>"] bexI [of _ ex_listener]
        bexI [of _ "\<lparr>hs_HTTPRoute = Some ex_route\<rparr>"] exI [of _ ex_route])
      (simp_all add: ex_gateway_def)
qed

theorem drained_proxy_serves_cluster_witness:
  "\<exists>s. runs_to literal_engine (admitted ex_own) True s \<and> at_rest s \<and> run_Objects s = ex_cache \<and>
     (\<exists>ir \<in> set (px_routes (w_Proxy (run_World s))). MatchHostname ir ''a.example.com:8080'')"
proof -
  obtain s where s: "runs_to literal_engine (admitted ex_own) True s" "run_Objects s = ex_cache" "at_rest s"
    using ex_rests by blast
  have "host_attached literal_engine (cluster_state ex_own (run_Objects s))
      (strip_port (req_Host (ex_request ''a.example.com:8080'' ''/'')))"
    using ex_host_attached ex_covers(1) s(2) by (simp add: ex_request_def)
  with drained_proxy_serves_cluster [OF s(1,3), of "ex_request ''a.example.com:8080'' ''/''"] s
  show ?thesis by (auto simp: ex_request_def)
qed

theorem state_mirrors_cluster_witness:
  "\<exists>s. runs_to literal_engine (admitted ex_own) False s \<and> run_Objects s = ex_cache \<and>
     spec_state (w_State (run_World s)) = spec_state (cluster_state ex_own ex_cache)"
proof -
  obtain s where s: "runs_to literal_engine (admitted ex_own) False s" "run_Objects s = ex_cache" "at_rest s"
    using ex_rests by blast
  with state_mirrors_cluster [OF s(1,3)] show ?thesis by auto
qed

section \<open>The requests that a change causes\<close>

text \<open>
  C33: an event never makes a handler fail, and it causes exactly these requests: one to the
  controller of the object's kind, for the object; for a route, one to the gateway controller for
  each gateway that it refers to, in the route's own namespace; and for a config map, one to the
  policy controller for each policy of the namespace, as the client lists them, that refers to it
  as a CA certificate. In particular no route is reconciled when a gateway changes, no gateway when
  a class changes, and no policy when a route, a gateway or a service changes.
\<close>

theorem change_requests_exact:
  "\<exists>reqs. dispatch listed objs = Inr reqs \<and>
     set reqs = (\<Union>obj \<in> set objs.
       {(c, key_of obj) | c. kind_for c = kind_of obj} \<union>
       (case obj of
          HTTPRouteObject route \<Rightarrow> Pair GatewayReconciler `
            {NamespacedName (om_Namespace route) (pr_Name pr) | pr. pr \<in> set (hr_ParentRefs route) \<and>
               ValueOf '''' (pr_Group pr) \<in> {'''', ''gateway.networking.k8s.io''} \<and>
               ValueOf '''' (pr_Kind pr) \<in> {'''', ''Gateway''}}
        | ConfigMapObject cm \<Rightarrow> Pair BackendTLSPolicyReconciler `
            {object_key p | p. p \<in> (case listed (om_Namespace cm) of Inl err \<Rightarrow> {} | Inr ps \<Rightarrow> set ps) \<and>
               (\<exists>r \<in> set (btp_CACertificateRefs p).
                  tr_Group r = '''' \<and> tr_Kind r = ''ConfigMap'' \<and> tr_Name r = om_Name cm)}
        | _ \<Rightarrow> {}))"
proof -
  obtain reqs where reqs: "dispatch listed objs = Inr reqs" unfolding dispatch_eq by blast
  have watched: "{(c, k). k \<in> set (also_asked listed c obj)} =
      (case obj of
          HTTPRouteObject route \<Rightarrow> Pair GatewayReconciler ` set (gateways_for_route route)
        | ConfigMapObject cm \<Rightarrow> Pair BackendTLSPolicyReconciler ` set (policies_for_config_map listed cm)
        | _ \<Rightarrow> {})" for obj
    by (cases obj) (auto simp: also_asked_def split: reconciler.splits)
  have "set reqs = (\<Union>obj \<in> set objs. {(c, key_of obj) | c. kind_for c = kind_of obj} \<union>
      {(c, k). k \<in> set (also_asked listed c obj)})"
  proof (rule set_eqI, clarify)
    fix c k
    show "(c, k) \<in> set reqs \<longleftrightarrow> (c, k) \<in> (\<Union>obj \<in> set objs.
        {(c, key_of obj) | c. kind_for c = kind_of obj} \<union> {(c, k). k \<in> set (also_asked listed c obj)})"
      unfolding dispatch_iff [OF reqs] by auto
  qed
  with reqs show ?thesis
    unfolding watched conjunct1 [OF watch_requests_exact] conjunct2 [OF watch_requests_exact] by blast
qed

section \<open>A gateway before its class\<close>

text \<open>A cluster with the example gateway and some classes, and nothing else.\<close>

definition ex_bare_env :: "GatewayClass list \<Rightarrow> Env" where
  "ex_bare_env classes = ex_env\<lparr>env_cluster := ex_cluster\<lparr>get_HTTPRoute := answers [],
     get_GatewayClass := answers classes, get_Service := answers [], get_ConfigMap := answers [],
     get_BackendTLSPolicy := answers []\<rparr>\<rparr>"

definition ex_gateway_only :: objects where
  "ex_gateway_only = [(KindGateway, object_key ex_gateway) \<mapsto> GatewayObject ex_gateway]"

definition ex_gateway_then_class :: objects where
  "ex_gateway_then_class =
     ex_gateway_only((KindGatewayClass, object_key ex_class) \<mapsto> GatewayClassObject ex_class)"

lemma reads_none: "reads wrap None (answers [] k)"
  by (simp add: answers_def)

lemma ex_bare_client:
  "get_HTTPRoute (env_cluster (ex_bare_env cs)) = answers []"
  "get_Gateway (env_cluster (ex_bare_env cs)) = answers [ex_gateway]"
  "get_GatewayClass (env_cluster (ex_bare_env cs)) = answers cs"
  "get_Service (env_cluster (ex_bare_env cs)) = answers []"
  "get_ConfigMap (env_cluster (ex_bare_env cs)) = answers []"
  "get_BackendTLSPolicy (env_cluster (ex_bare_env cs)) = answers []"
  "put_HTTPRoute_status (env_cluster (ex_bare_env cs)) = Inr"
  "put_Gateway_status (env_cluster (ex_bare_env cs)) = Inr"
  "put_BackendTLSPolicy_status (env_cluster (ex_bare_env cs)) = Inr"
  "put_GatewayClass_status (env_cluster (ex_bare_env cs)) = Inr"
  "env_regexp (ex_bare_env cs) = literal_engine" "range_choice_ok (ex_bare_env cs)"
  by (simp_all add: ex_bare_env_def ex_env_def ex_cluster_def range_choice_ok_def)

lemma ex_bare_objects:
  "ex_gateway_only (KindGateway, k) = (if k = object_key ex_gateway then Some (GatewayObject ex_gateway) else None)"
  "kd \<noteq> KindGateway \<Longrightarrow> ex_gateway_only (kd, k) = None"
  "ex_gateway_then_class (KindGatewayClass, k) =
     (if k = object_key ex_class then Some (GatewayClassObject ex_class) else None)"
  "kd \<noteq> KindGatewayClass \<Longrightarrow> ex_gateway_then_class (kd, k) = ex_gateway_only (kd, k)"
  by (simp_all add: ex_gateway_only_def ex_gateway_then_class_def)

lemma ex_bare_surroundings:
  "surroundings_ok literal_engine ex_gateway_only (ex_bare_env [])"
  "surroundings_ok literal_engine ex_gateway_then_class (ex_bare_env [ex_class])"
  by (simp_all add: surroundings_ok_def client_reads_def keeps_specs_def ex_bare_client ex_bare_objects
      reads_single reads_none)

text \<open>
  The gateway arrives while its class is not known: the call for it does nothing. Then the class
  arrives, and nobody asks about the gateway again.
\<close>

abbreviation ex_idle :: "objects \<Rightarrow> request set \<Rightarrow> World \<Rightarrow> Running" where
  "ex_idle objs q w \<equiv> \<lparr>run_Objects = objs, run_Queue = q, run_World = w, run_Workers = (\<lambda>_. Free)\<rparr>"

lemma ex_event:
  assumes "dispatch (\<lambda>_. Inr []) (event_objects (Put obj) objs) = Inr reqs"
  shows "runs_to E (\<lambda>_ _. True) alone (ex_idle objs q w) \<Longrightarrow>
    runs_to E (\<lambda>_ _. True) alone (ex_idle (objs(obj_id obj \<mapsto> obj)) (q \<union> set reqs) w)"
  using observe [of "\<lambda>_ _. True" "ex_idle objs q w" "Put obj" _ reqs E alone, OF TrueI] assms
  unfolding runs_to_def by (simp add: change_objects_def rtranclp.rtrancl_into_rtrancl)

text \<open>A request that is served alone, in a call that leaves the state alone.\<close>

lemma ex_served_alone:
  assumes "runs_to E admit alone (ex_idle objs {(c, req)} w)" "surroundings_ok E objs V"
    and "reg_Reconcile (SetupWithManager c) V req w = (Inr done_ok, w')"
    and "state_ok (w_State (fst (front_end V (reconcile_steps c req) w)))"
  shows "runs_to E admit alone (ex_idle objs {} w')"
  using call_alone_runs [of "ex_idle objs {(c, req)} w" c req E V done_ok w' alone] assms
  by (auto simp: updating_def intro: runs_to_on)

lemma gateway_ignored_run:
  defines "w \<equiv> run_World started"
  shows "runs_to literal_engine (\<lambda>_ _. True) alone
    (ex_idle ex_gateway_then_class {(GatewayClassReconciler, object_key ex_class)} w)"
proof -
  let ?gk = "object_key ex_gateway"
  have "runs_to literal_engine (\<lambda>_ _. True) alone (ex_idle Map.empty {} w)"
    by (simp add: runs_to_def started_def w_def)
  from ex_event [OF _ this, of "GatewayObject ex_gateway"]
  have "runs_to literal_engine (\<lambda>_ _. True) alone (ex_idle ex_gateway_only {(GatewayReconciler, ?gk)} w)"
    by (simp add: dispatch_eq event_objects_def all_reconcilers_def also_asked_def ex_gateway_only_def)
  moreover have "reg_Reconcile (SetupWithManager GatewayReconciler) (ex_bare_env []) ?gk w = (Inr done_ok, w)"
    by (simp add: setup_defs ReconcileGateway_def ex_bare_client answers_def)
  moreover have "state_ok (w_State (fst (front_end (ex_bare_env []) (reconcile_steps GatewayReconciler ?gk) w)))"
    using state_ok_NewState
    by (simp add: Gateway_steps_def class_steps_def fetch_def ex_bare_client answers_def w_def started_def)
  ultimately have "runs_to literal_engine (\<lambda>_ _. True) alone (ex_idle ex_gateway_only {} w)"
    by (rule ex_served_alone [OF _ ex_bare_surroundings(1)])
  from ex_event [OF _ this, of "GatewayClassObject ex_class"] show ?thesis
    by (simp add: dispatch_eq event_objects_def ex_bare_objects all_reconcilers_def also_asked_def
        ex_gateway_then_class_def)
qed

lemma front_end_GatewayClass: "w_State (fst (front_end V (GatewayClass_steps req) w)) = w_State w"
  by (simp add: GatewayClass_steps_def step_defs Let_def split: get_result.split sum.split)

text \<open>
  A gateway that is reconciled before its class exists is not reconciled when the class appears:
  the system comes to rest with a gateway of our class in the cluster that the state, and so the
  proxy, knows nothing of.
\<close>

theorem gateway_before_class_ignored:
  "\<exists>s. runs_to literal_engine (\<lambda>_ _. True) True s \<and> at_rest s \<and>
     run_Objects s = ex_gateway_then_class \<and> ours (ex_bare_env [ex_class]) ex_gateway \<and>
     w_State (run_World s) = NewState"
proof -
  let ?w = "run_World started" and ?ck = "object_key ex_class" and ?V = "ex_bare_env [ex_class]"
  have "\<exists>w'. ReconcileGatewayClass ?V ?ck ?w = (Inr done_ok, w')"
    by (simp add: ReconcileGatewayClass_def ex_bare_client answers_def Let_def)
  then obtain w' where w': "ReconcileGatewayClass ?V ?ck ?w = (Inr done_ok, w')" ..
  have "state_ok (w_State (fst (front_end ?V (reconcile_steps GatewayClassReconciler ?ck) ?w)))"
    using state_ok_NewState by (simp add: front_end_GatewayClass started_def)
  moreover have "reg_Reconcile (SetupWithManager GatewayClassReconciler) ?V ?ck ?w = (Inr done_ok, w')"
    using w' by (simp add: setup_defs)
  ultimately have "runs_to literal_engine (\<lambda>_ _. True) True (ex_idle ex_gateway_then_class {} w')"
    by (intro ex_served_alone [OF gateway_ignored_run ex_bare_surroundings(2)])
  moreover have "w_State w' = NewState"
    using ReconcileGatewayClass_state [of ?V ?ck ?w] w' by (simp add: started_def)
  moreover have "ours ?V ex_gateway"
    by (simp add: ours_def ex_bare_client answers_def ex_class_def ex_gateway_def object_key_def)
  ultimately show ?thesis
    by (intro exI [of _ "ex_idle ex_gateway_then_class {} w'"]) (simp add: at_rest_def)
qed

end
