(* ===== verification/Overlap.thy ===== *)
theory Overlap
  imports ManagerProperties
begin

text \<open>
  Calls of \<open>updateProxy\<close> that overlap: when they converge, and a run of the six controllers after
  which the proxy serves a route that the cluster no longer has.
\<close>

section \<open>Updates while the state does not change\<close>

definition quiet_step ::
    "regexp_engine \<Rightarrow> (objects \<Rightarrow> object_change \<Rightarrow> bool) \<Rightarrow> Running \<Rightarrow> Running \<Rightarrow> bool" where
  "quiet_step E admit s t \<longleftrightarrow>
     system_step E admit False s t \<and> w_State (run_World t) = w_State (run_World s)"

lemma quiet_step_fresh:
  assumes "quiet_step E admit s t" "all_fresh s"
  shows "all_fresh t"
proof -
  have same: "w_State (run_World t) = w_State (run_World s)" using assms(1) by (simp add: quiet_step_def)
  have "system_step E admit False s t" using assms(1) by (simp add: quiet_step_def)
  then show ?thesis
  proof (cases rule: system_step.cases)
    case (read_state c req pc pc')
    then have "fresh (w_State (run_World s)) pc'"
      using assms(2) update_read_fresh unfolding all_fresh_def by blast
    with read_state(1) assms(2) show ?thesis by (auto simp: all_fresh_def)
  qed (use assms(2) same in \<open>auto simp: all_fresh_def split: if_splits\<close>)
qed

lemma quiet_step_serves:
  assumes "quiet_step E (admitted own) s t" "run_ok E own s" "all_fresh s"
    and "updating s c \<or> serves_state E (run_World s)"
  shows "updating t c \<or> serves_state E (run_World t)"
proof -
  have same: "w_State (run_World t) = w_State (run_World s)" using assms(1) by (simp add: quiet_step_def)
  have "system_step E (admitted own) False s t" using assms(1) by (simp add: quiet_step_def)
  then show ?thesis
  proof (cases rule: system_step.cases)
    case (handle d req effect rest V)
    have "w_Proxy (run_World t) = w_Proxy (run_World s)"
      using run_ok_handle(2) [OF assms(2) handle(2,3)] handle(1) by simp
    then have "serves_state E (run_World t) = serves_state E (run_World s)"
      by (rule serves_state_cong [OF same])
    moreover have "updating t c = updating s c"
      using handle(2) unfolding handle(1) updating_def by auto
    ultimately show ?thesis using assms(4) by simp
  next
    case (publish d req gws rs B now table)
    then have "fresh (w_State (run_World s)) (AtPublish gws rs B)"
      using assms(3) unfolding all_fresh_def by blast
    from publish_serves [OF this publish(3) run_okD(3) [OF assms(2)]] publish(1) show ?thesis by simp
  qed (use assms(4) in \<open>auto simp: updating_def\<close>)
qed

lemma quiet_run:
  assumes "(quiet_step E (admitted own))\<^sup>*\<^sup>* s t" "run_ok E own s" "all_fresh s" "updating s c"
  shows "run_ok E own t \<and> all_fresh t \<and> (updating t c \<or> serves_state E (run_World t)) \<and>
    w_State (run_World t) = w_State (run_World s)"
  using assms(1)
proof (induction rule: rtranclp_induct)
  case (step u t)
  then have "run_ok E own t" using run_ok_step unfolding quiet_step_def by blast
  with step quiet_step_fresh [OF step.hyps(2)] quiet_step_serves [OF step.hyps(2)] show ?case
    by (simp add: quiet_step_def)
qed (use assms in simp)

text \<open>
  C39: once the state stops changing, the proxy converges: take a reachable moment at which every
  call that is inside \<open>updateProxy\<close> has so far read what the state holds now, and a controller is
  inside. As long as the state keeps its value from then on, whatever the controllers do and in
  whatever order the calls publish their tables, once that controller has left \<open>updateProxy\<close> the
  proxy serves a table that is built from the present state. (The premise about what has been read
  is needed: without it see \<open>stale_table_can_stay\<close>.)
\<close>

theorem quiet_updates_converge:
  assumes "runs_to E (admitted own) False s" "all_fresh s" "updating s c"
    and "(quiet_step E (admitted own))\<^sup>*\<^sup>* s t" "\<not> updating t c"
  shows "serves_state E (run_World t) \<and> w_State (run_World t) = w_State (run_World s)"
  using quiet_run [OF assms(4) runs_to_ok [OF assms(1)] assms(2,3)] assms(5) by blast

section \<open>A table that is out of date\<close>

text \<open>The objects of the example and the client once the route is deleted.\<close>

definition ex_route_gone :: objects where
  "ex_route_gone = ex_cache((KindHTTPRoute, object_key ex_route) := None)"

definition ex_gone_env :: Env where
  "ex_gone_env = ex_env\<lparr>env_cluster := ex_cluster\<lparr>get_HTTPRoute := answers []\<rparr>\<rparr>"

lemma ex_gone_client:
  "get_HTTPRoute (env_cluster ex_gone_env) = answers []"
  "get_Gateway (env_cluster ex_gone_env) = answers [ex_gateway]"
  "get_GatewayClass (env_cluster ex_gone_env) = answers [ex_class]"
  "get_Service (env_cluster ex_gone_env) = answers [ex_service]"
  "get_ConfigMap (env_cluster ex_gone_env) = answers [ex_config_map]"
  "get_BackendTLSPolicy (env_cluster ex_gone_env) = answers [ex_policy]"
  "put_HTTPRoute_status (env_cluster ex_gone_env) = Inr"
  "put_Gateway_status (env_cluster ex_gone_env) = Inr"
  "put_GatewayClass_status (env_cluster ex_gone_env) = Inr"
  "put_BackendTLSPolicy_status (env_cluster ex_gone_env) = Inr"
  "env_regexp ex_gone_env = literal_engine" "range_choice_ok ex_gone_env"
  using ex_range_ok by (simp_all add: ex_gone_env_def ex_client ex_cluster_def range_choice_ok_def) (simp_all add: ex_env_def)

lemma ex_gone_answering: "answering literal_engine ex_route_gone ex_gone_env"
proof -
  have "client_reads ex_route_gone (env_cluster ex_gone_env)"
    unfolding client_reads_def ex_gone_client
    by (simp add: ex_route_gone_def ex_cache_lookup reads_single reads_none)
  then show ?thesis
    by (auto simp: surroundings_ok_def keeps_specs_def api_up_def ex_gone_client answers_not_failed)
qed

lemma ex_gone_address: "address_known ex_route_gone"
  using ex_address_known by (simp add: address_known_def ex_route_gone_def)

abbreviation ex_run :: "Running \<Rightarrow> bool" where
  "ex_run \<equiv> runs_to literal_engine (admitted ex_own) False"

lemma ex_run_event:
  assumes "ex_run s" "admitted ex_own (run_Objects s) c"
    and "dispatch (\<lambda>_. Inr []) (event_objects c (run_Objects s)) = Inr reqs"
  shows "ex_run (s\<lparr>run_Objects := change_objects c (run_Objects s), run_Queue := run_Queue s \<union> set reqs\<rparr>)"
  using assms observe [of "admitted ex_own" s c] unfolding runs_to_def
  by (meson rtranclp.rtrancl_into_rtrancl)

text \<open>
  The example cluster is at rest. An event for the service comes in (nothing has changed), and its
  controller reads all five maps.
\<close>

lemma ex_service_stored:
  assumes "run_ok E own s" "at_rest s" "run_Objects s = ex_cache"
  shows "UpsertService ex_service (w_State (run_World s)) = w_State (run_World s)"
proof -
  let ?st = "w_State (run_World s)" and ?k = "object_key ex_service"
  have "\<forall>c k. same_spec (held ?st (kind_for c) k) (wanted own ex_cache (kind_for c) k)"
    using run_okD(7) [OF assms(1)] assms(2,3) by (simp add: mirrors_def at_rest_def working_on_def)
  then have "same_spec (held ?st (kind_for ServiceReconciler) ?k) (wanted own ex_cache (kind_for ServiceReconciler) ?k)"
    by blast
  then have "st_services ?st ?k = Some ex_service"
    by (auto simp: held.simps wanted_def unowned_def ex_cache_lookup)
  then have "(st_services ?st)(?k \<mapsto> ex_service) = st_services ?st" by (rule fun_upd_idem)
  then show ?thesis by (simp add: UpsertService_def object_key_def)
qed

lemma ex_service_reads:
  obtains s gws rs B where "ex_run s" "run_Objects s = ex_cache" "run_Queue s = {}"
    "run_Workers s = (\<lambda>_. Free)(ServiceReconciler := Updating (object_key ex_service) (AtPublish gws rs B))"
    "fresh (w_State (run_World s)) (AtPublish gws rs B)"
    "spec_state (w_State (run_World s)) = spec_state (cluster_state ex_own ex_cache)"
proof -
  let ?k = "object_key ex_service" and ?c = ServiceReconciler
  obtain s0 where s0: "ex_run s0" "run_Objects s0 = ex_cache" "at_rest s0" using ex_rests by blast
  note ok = runs_to_ok [OF s0(1)]
  define st where "st = w_State (run_World s0)"
  have free: "run_Workers s0 = (\<lambda>_. Free)" "run_Queue s0 = {}" using s0(3) by (auto simp: at_rest_def)
  obtain gws rs B where r: "(update_read st)\<^sup>*\<^sup>* AtGateways (AtPublish gws rs B)"
    using reads_finish [of st AtGateways] run_okD(3) [OF ok] unfolding st_def by blast
  have "dispatch (\<lambda>_. Inr []) (event_objects (Put (ServiceObject ex_service)) (run_Objects s0)) =
      Inr [(?c, ?k), (?c, ?k)]"
    by (simp add: s0(2) dispatch_eq event_objects_def ex_cache_lookup all_reconcilers_def also_asked_def)
  then have "ex_run (s0\<lparr>run_Objects := ex_cache, run_Queue := {(?c, ?k)}\<rparr>)"
    using ex_run_event [OF s0(1), of "Put (ServiceObject ex_service)"] s0(2) free
    by (simp add: change_objects_def fun_upd_idem ex_cache_lookup)
  moreover have "s0\<lparr>run_Objects := ex_cache, run_Queue := q\<rparr> = s0\<lparr>run_Queue := q\<rparr>" for q
    using s0(2) by (cases s0) simp
  ultimately have s1: "ex_run (s0\<lparr>run_Queue := {(?c, ?k)}\<rparr>)" by (simp only:)
  let ?s2 = "set_worker ?c (Handling ?k (reconcile_steps ?c ?k)) s0"
  have "system_step literal_engine (\<lambda>_ _. False) False (s0\<lparr>run_Queue := {(?c, ?k)}\<rparr>)
      (set_worker ?c (Handling ?k (reconcile_steps ?c ?k)) (s0\<lparr>run_Queue := {}\<rparr>))"
    using take [of "s0\<lparr>run_Queue := {(?c, ?k)}\<rparr>" ?c ?k] free by simp
  moreover have "s0\<lparr>run_Queue := {}\<rparr> = s0" using free(2) by (cases s0) simp
  ultimately have "system_step literal_engine (\<lambda>_ _. False) False (s0\<lparr>run_Queue := {(?c, ?k)}\<rparr>) ?s2"
    by (simp only:)
  with s1 have s2: "ex_run ?s2" by (rule runs_to_step)
  have fe: "front_end ex_env (reconcile_steps ?c ?k) (run_World s0) = (run_World s0, UpdateProxy)"
    using ex_service_stored [OF ok s0(3,2)]
    by (simp add: Service_steps_def step_defs store_then_def ex_client answers_def)
  have "runs_on literal_engine False ?s2 (set_worker ?c (Handling ?k UpdateProxy) s0)"
    using run_front [of ?s2 ?c ?k _ literal_engine ex_env False] ex_surroundings_ok fe s0(2)
    by (simp add: set_worker_def)
  with s2 have s3: "ex_run (set_worker ?c (Handling ?k UpdateProxy) s0)" by (rule runs_to_on)
  have "system_step literal_engine (\<lambda>_ _. False) False (set_worker ?c (Handling ?k UpdateProxy) s0)
      (set_worker ?c (Updating ?k AtGateways) s0)"
    using enter [of "set_worker ?c (Handling ?k UpdateProxy) s0" ?c ?k False] by simp
  with s3 have s4: "ex_run (set_worker ?c (Updating ?k AtGateways) s0)"
    by (rule runs_to_step)
  have "runs_on literal_engine False (set_worker ?c (Updating ?k AtGateways) s0)
      (set_worker ?c (Updating ?k (AtPublish gws rs B)) s0)"
    using run_reads [of "set_worker ?c (Updating ?k AtGateways) s0" ?c ?k AtGateways "AtPublish gws rs B"] r
    by (simp add: st_def)
  with s4 have "ex_run (set_worker ?c (Updating ?k (AtPublish gws rs B)) s0)" by (rule runs_to_on)
  moreover have "fresh st (AtPublish gws rs B)" using reads_fresh [OF r] by simp
  ultimately show thesis
    using that [of "set_worker ?c (Updating ?k (AtPublish gws rs B)) s0" gws rs B] at_rest_spec_state [OF ok s0(3)] s0(2) free
    by (simp add: st_def)
qed

text \<open>
  Now the route is deleted, and the two controllers that are asked serve their requests; the
  table without the route is published before the one that was read earlier.
\<close>

lemma ex_gone_requests:
  "dispatch (\<lambda>_. Inr []) (event_objects (Remove (KindHTTPRoute, object_key ex_route)) ex_cache) =
     Inr [(HTTPRouteReconciler, object_key ex_route), (GatewayReconciler, NamespacedName ''default'' ''gw'')]"
  by (simp add: dispatch_eq event_objects_def ex_cache_lookup all_reconcilers_def also_asked_def)
    (simp add: gateways_for_route_def ex_route_def ex_ref_def ValueOf_def)

lemma ex_gone_served:
  assumes "ex_run s" "run_Objects s = ex_route_gone" "run_Workers s c = Free" "(c, req) \<in> run_Queue s"
  shows "\<exists>w'. ex_run (s\<lparr>run_Queue := run_Queue s - {(c, req)}, run_World := w'\<rparr>)"
  using request_served [OF runs_to_ok [OF assms(1)] assms(3,4), of ex_gone_env] assms(2)
    ex_gone_answering ex_gone_address runs_to_on [OF assms(1)] by metis

lemma ex_run_table:
  assumes "ex_run s" "run_Workers s c = Updating req (AtPublish gws rs B)"
  obtains table where "table_of literal_engine 0 gws rs B = Inr table"
proof -
  have "worker_ok literal_engine ex_own s c (Updating req (AtPublish gws rs B))"
    using run_okD(8) [OF runs_to_ok [OF assms(1)], of c] assms(2) by metis
  then have "all_complete rs" by simp
  with that show thesis by (rule complete_table [rotated])
qed

theorem quiet_updates_converge_witness:
  "\<exists>s t. ex_run s \<and> all_fresh s \<and> updating s ServiceReconciler \<and>
     (quiet_step literal_engine (admitted ex_own))\<^sup>*\<^sup>* s t \<and> serves_state literal_engine (run_World t)"
proof -
  let ?c = ServiceReconciler and ?k = "object_key ex_service"
  obtain s gws rs B where s: "ex_run s" "run_Workers s = (\<lambda>_. Free)(?c := Updating ?k (AtPublish gws rs B))"
    "fresh (w_State (run_World s)) (AtPublish gws rs B)" by (rule ex_service_reads)
  have c: "run_Workers s ?c = Updating ?k (AtPublish gws rs B)" using s(2) by simp
  obtain table where table: "table_of literal_engine 0 gws rs B = Inr table" by (rule ex_run_table [OF s(1) c])
  let ?t = "set_worker ?c (Handling ?k (Reply done_ok))
    (s\<lparr>run_World := (run_World s)\<lparr>w_Proxy := UpdateRoutes table (w_Proxy (run_World s))\<rparr>\<rparr>)"
  have st: "(quiet_step literal_engine (admitted ex_own))\<^sup>*\<^sup>* s ?t"
    using publish [OF c table] by (intro r_into_rtranclp) (simp add: quiet_step_def)
  moreover have fresh: "all_fresh s" "updating s ?c" using s(2,3) by (auto simp: all_fresh_def updating_def)
  moreover have "\<not> updating ?t ?c" by (simp add: updating_def)
  ultimately show ?thesis using quiet_updates_converge [OF s(1) fresh st] s(1) by blast
qed

lemma stale_run:
  obtains s st table where "ex_run s" "at_rest s" "run_Objects s = ex_route_gone"
    "px_routes (w_Proxy (run_World s)) = table" "state_ok st" "spec_state st = spec_state (cluster_state ex_own ex_cache)"
    "\<exists>V i. range_choice_ok V \<and> env_regexp V = literal_engine \<and> proxy_table V i st = Inr table"
proof -
  let ?c = ServiceReconciler and ?k = "object_key ex_service" and ?rk = "object_key ex_route"
  let ?gk = "NamespacedName ''default'' ''gw''"
  obtain s gws rs B where s: "ex_run s" "run_Objects s = ex_cache" "run_Queue s = {}"
    "run_Workers s = (\<lambda>_. Free)(?c := Updating ?k (AtPublish gws rs B))"
    "fresh (w_State (run_World s)) (AtPublish gws rs B)"
    "spec_state (w_State (run_World s)) = spec_state (cluster_state ex_own ex_cache)" by (rule ex_service_reads)
  have c: "run_Workers s ?c = Updating ?k (AtPublish gws rs B)" using s(4) by simp
  obtain table where table: "table_of literal_engine 0 gws rs B = Inr table" by (rule ex_run_table [OF s(1) c])
  let ?s1 = "s\<lparr>run_Objects := ex_route_gone, run_Queue := {(HTTPRouteReconciler, ?rk), (GatewayReconciler, ?gk)}\<rparr>"
  have s1: "ex_run ?s1"
    using ex_run_event [OF s(1), of "Remove (KindHTTPRoute, ?rk)"] ex_gone_requests s(2,3)
    by (simp add: change_objects_def ex_route_gone_def)
  then obtain w2 where s2: "ex_run (?s1\<lparr>run_Queue := {(GatewayReconciler, ?gk)}, run_World := w2\<rparr>)"
    using ex_gone_served [OF s1, of HTTPRouteReconciler ?rk] s(4) by auto
  then obtain w3 where s3: "ex_run (?s1\<lparr>run_Queue := {}, run_World := w3\<rparr>)" (is "ex_run ?s3")
    using ex_gone_served [OF s2, of GatewayReconciler ?gk] s(4) by auto
  have c3: "run_Workers ?s3 ?c = Updating ?k (AtPublish gws rs B)" using s(4) by simp
  let ?t = "set_worker ?c Free (?s3\<lparr>run_World := w3\<lparr>w_Proxy := UpdateRoutes table (w_Proxy w3)\<rparr>\<rparr>)"
  have "ex_run ?t"
    using runs_to_on [OF s3 run_publish [OF c3 table]] by simp
  moreover have "at_rest ?t" using s(4) by (auto simp: at_rest_def)
  moreover have "px_routes (w_Proxy (run_World ?t)) = table" by (simp add: UpdateRoutes_def)
  moreover note ok = run_okD(3) [OF runs_to_ok [OF s(1)]]
  ultimately show thesis
    using that [of ?t table "w_State (run_World s)"] s(6) fresh_table [OF s(5) table ok] by simp
qed

text \<open>
  C40: calls that overlap can leave a stale table. There is a run of the six controllers, with
  \<open>admitted\<close> changes only, in which the service controller has read the state when a route is
  deleted; the route and the gateway controller serve their requests, and then the service
  controller publishes its table. Nothing is waiting and nobody is at work any more, neither the
  cluster nor the state holds a route, but the proxy still accepts a host of the deleted one.
\<close>

theorem stale_table_can_stay:
  "\<exists>s. runs_to literal_engine (admitted ex_own) False s \<and> at_rest s \<and>
     (\<forall>k. run_Objects s (KindHTTPRoute, k) = None) \<and>
     st_httpRoutes (w_State (run_World s)) = Map.empty \<and>
     (\<exists>ir \<in> set (px_routes (w_Proxy (run_World s))). MatchHostname ir ''a.example.com:8080'')"
proof -
  obtain s st V i where s: "ex_run s" "at_rest s" "run_Objects s = ex_route_gone"
    and st: "spec_state st = spec_state (cluster_state ex_own ex_cache)"
    and V: "range_choice_ok V" "env_regexp V = literal_engine" "proxy_table V i st = Inr (px_routes (w_Proxy (run_World s)))"
    by (rule stale_run) blast
  obtain u where "ex_run u" "run_Objects u = ex_cache" using ex_runs by blast
  then have objs: "objects_ok ex_own ex_cache" using run_okD(1) [OF runs_to_ok] by metis
  have "proxy_table V i (cluster_state ex_own ex_cache) = Inr (px_routes (w_Proxy (run_World s)))"
    using V(3) proxy_table_same_spec [OF st] by simp
  from cluster_table_hosts [OF objs V(1) this, of "''a.example.com:8080''"] ex_host_attached V(2)
  have host: "\<exists>ir \<in> set (px_routes (w_Proxy (run_World s))). MatchHostname ir ''a.example.com:8080''"
    by (simp add: ex_covers(1))
  have no: "run_Objects s (KindHTTPRoute, k) = None" for k
    by (simp add: s(3) ex_route_gone_def ex_cache_lookup)
  have "held (w_State (run_World s)) KindHTTPRoute k = None" for k
  proof -
    have "\<forall>c k. same_spec (held (w_State (run_World s)) (kind_for c) k) (wanted ex_own (run_Objects s) (kind_for c) k)"
      using run_okD(7) [OF runs_to_ok [OF s(1)]] s(2) by (simp add: mirrors_def at_rest_def working_on_def)
    then have "same_spec (held (w_State (run_World s)) (kind_for HTTPRouteReconciler) k)
        (wanted ex_own (run_Objects s) (kind_for HTTPRouteReconciler) k)" by blast
    then show ?thesis by (simp add: wanted_def unowned_def no)
  qed
  note none = this
  have filed: "filed (\<lambda>r. map_option object_key (hs_HTTPRoute r)) (st_httpRoutes (w_State (run_World s)))"
    using run_okD(3) [OF runs_to_ok [OF s(1)]] by (simp add: state_ok_def)
  have "st_httpRoutes (w_State (run_World s)) k = None" for k
  proof (cases "st_httpRoutes (w_State (run_World s)) k")
    case (Some rs)
    with filed obtain hr where "hs_HTTPRoute rs = Some hr" unfolding filed_def by blast
    with Some none [of k] show ?thesis by (simp add: held.simps)
  qed
  then have "st_httpRoutes (w_State (run_World s)) = Map.empty" by blast
  with s(1,2) no host show ?thesis by blast
qed

end
