(* ===== verification/Startup.thy ===== *)
theory Startup
  imports Manager
begin

text \<open>
  \<^verbatim>\<open>cmd/gateway-api-reference-implementation/main.go\<close>: the command-line flags, the calls
  that \<open>run\<close> makes before it waits, the three goroutines of its error group, and the
  self-signed certificate of the HTTPS server.

  The calls into client libraries (\<open>GetConfig\<close>, \<open>NewManager\<close>, the controller builder, the
  manager's \<open>Start\<close>) and the flags that these libraries register are parameters. So are the random
  generator, the clock and the cryptography behind the certificate.
\<close>

section \<open>The command line\<close>

record Flags =
  metricsAddr :: string
  probeAddr :: string
  proxyAddr :: string
  proxyHTTPSAddr :: string
  enableH2C :: bool
  enableLeaderElection :: bool

definition default_flags :: Flags where
  "default_flags =
     \<lparr>metricsAddr = '':8080'', probeAddr = '':8081'', proxyAddr = '':8000'',
      proxyHTTPSAddr = '':8443'', enableH2C = False, enableLeaderElection = False\<rparr>"

text \<open>
  What \<open>flag.Set\<close> does with the value of a flag: a string flag takes it as it is, a boolean flag
  parses it; a flag of a library accepts it or not.
\<close>

datatype flag_kind =
    StringFlag "string \<Rightarrow> Flags \<Rightarrow> Flags"
  | BoolFlag "bool \<Rightarrow> Flags \<Rightarrow> Flags"
  | LibraryFlag bool "string \<Rightarrow> bool"

type_synonym library_flags = "string \<Rightarrow> flag_kind option"

definition registered :: "library_flags \<Rightarrow> string \<Rightarrow> flag_kind option" where
  "registered libs name =
     (if name = ''metrics-bind-address'' then Some (StringFlag (\<lambda>v f. f\<lparr>metricsAddr := v\<rparr>))
      else if name = ''health-probe-bind-address'' then Some (StringFlag (\<lambda>v f. f\<lparr>probeAddr := v\<rparr>))
      else if name = ''proxy-bind-address'' then Some (StringFlag (\<lambda>v f. f\<lparr>proxyAddr := v\<rparr>))
      else if name = ''proxy-https-bind-address'' then
        Some (StringFlag (\<lambda>v f. f\<lparr>proxyHTTPSAddr := v\<rparr>))
      else if name = ''enable-h2c'' then Some (BoolFlag (\<lambda>b f. f\<lparr>enableH2C := b\<rparr>))
      else if name = ''leader-elect'' then Some (BoolFlag (\<lambda>b f. f\<lparr>enableLeaderElection := b\<rparr>))
      else libs name)"

definition ParseBool :: "string \<Rightarrow> bool option" where
  "ParseBool s =
     (if s \<in> {''1'', ''t'', ''T'', ''true'', ''TRUE'', ''True''} then Some True
      else if s \<in> {''0'', ''f'', ''F'', ''false'', ''FALSE'', ''False''} then Some False
      else None)"

text \<open>
  \<open>flag.Parse\<close> either ends with the flags set (arguments that are left over are not used), or
  it exits the program: with status 0 when help is asked for, with status 2 on an error.
\<close>

datatype exit_status = Exit nat

text \<open>The name of an argument without its dashes, and its value if it has one.\<close>

fun cut_value :: "string \<Rightarrow> string \<times> string option" where
  "cut_value [] = ([], None)"
| "cut_value (c # cs) =
     (if c = CHR ''='' then ([], Some cs)
      else (case cut_value cs of (n, v) \<Rightarrow> (c # n, v)))"

definition split_flag :: "string \<Rightarrow> string \<times> string option" where
  "split_flag name = (case cut_value (tl name) of (n, v) \<Rightarrow> (hd name # n, v))"

text \<open>One argument: nothing more to parse, an exit, or a flag with what follows it.\<close>

datatype parsed_arg = NotAFlag | BadArg exit_status | FlagArg string "string option"

definition parse_arg :: "string \<Rightarrow> parsed_arg" where
  "parse_arg s =
     (if length s < 2 \<or> hd s \<noteq> CHR ''-'' then NotAFlag
      else if s = ''--'' then NotAFlag
      else
        (let name = (if s ! 1 = CHR ''-'' then drop 2 s else drop 1 s) in
         if name = '''' \<or> hd name = CHR ''-'' \<or> hd name = CHR ''='' then BadArg (Exit 2)
         else (case split_flag name of (n, v) \<Rightarrow> FlagArg n v)))"

fun set_flag :: "flag_kind \<Rightarrow> string \<Rightarrow> Flags \<Rightarrow> exit_status + Flags" where
  "set_flag (StringFlag f) value flags = Inr (f value flags)"
| "set_flag (BoolFlag f) value flags =
     (case ParseBool value of None \<Rightarrow> Inl (Exit 2) | Some b \<Rightarrow> Inr (f b flags))"
| "set_flag (LibraryFlag is_bool ok) value flags = (if ok value then Inr flags else Inl (Exit 2))"

fun is_bool_flag :: "flag_kind \<Rightarrow> bool" where
  "is_bool_flag (StringFlag _) = False"
| "is_bool_flag (BoolFlag _) = True"
| "is_bool_flag (LibraryFlag is_bool _) = is_bool"

fun flag_Parse :: "library_flags \<Rightarrow> string list \<Rightarrow> Flags \<Rightarrow> exit_status + Flags" where
  "flag_Parse libs [] flags = Inr flags"
| "flag_Parse libs (s # args) flags =
     (case parse_arg s of
        NotAFlag \<Rightarrow> Inr flags
      | BadArg e \<Rightarrow> Inl e
      | FlagArg name value \<Rightarrow>
          (case registered libs name of
             None \<Rightarrow> Inl (if name = ''help'' \<or> name = ''h'' then Exit 0 else Exit 2)
           | Some kind \<Rightarrow>
               (case value of
                  Some v \<Rightarrow> bind_result (set_flag kind v flags) (flag_Parse libs args)
                | None \<Rightarrow>
                    if is_bool_flag kind then
                      bind_result (set_flag kind ''true'' flags) (flag_Parse libs args)
                    else
                      (case args of
                         [] \<Rightarrow> Inl (Exit 2)
                       | v # rest \<Rightarrow> bind_result (set_flag kind v flags) (flag_Parse libs rest)))))"

section \<open>The certificate\<close>

record Template =
  tpl_SerialNumber :: int
  tpl_Organization :: "string list"
  tpl_NotBefore :: int
  tpl_NotAfter :: int
  tpl_KeyUsage :: int
  tpl_ExtKeyUsage :: "int list"
  tpl_BasicConstraintsValid :: bool
  tpl_DNSNames :: "string list"

text \<open>Times are in nanoseconds, a duration is an \<open>int64\<close>.\<close>

definition one_hour :: "64 word" where "one_hour = 3600 * 1000000000"

definition KeyUsageDigitalSignature :: int where "KeyUsageDigitalSignature = 1"
definition KeyUsageKeyEncipherment :: int where "KeyUsageKeyEncipherment = push_bit 2 1"
definition ExtKeyUsageServerAuth :: int where "ExtKeyUsageServerAuth = 1"

unbundle bit_operations_syntax

definition cert_template :: "int \<Rightarrow> int \<Rightarrow> Template" where
  "cert_template serialNumber notBefore =
     \<lparr>tpl_SerialNumber = serialNumber,
      tpl_Organization = [''Gateway API Reference Implementation''],
      tpl_NotBefore = notBefore,
      tpl_NotAfter = notBefore + sint (365 * 24 * one_hour),
      tpl_KeyUsage = KeyUsageKeyEncipherment OR KeyUsageDigitalSignature,
      tpl_ExtKeyUsage = [ExtKeyUsageServerAuth],
      tpl_BasicConstraintsValid = True,
      tpl_DNSNames = [''localhost'', ''https-listener.org'', ''abc.example.com'']\<rparr>"

record ('key, 'cert) Crypto =
  rsa_GenerateKey :: "nat \<Rightarrow> string + 'key"
  rand_Int :: "int \<Rightarrow> string + int"
  time_Now :: int
  x509_CreateCertificate :: "Template \<Rightarrow> Template \<Rightarrow> 'key \<Rightarrow> 'key \<Rightarrow> string + string"
  x509_MarshalPKCS1PrivateKey :: "'key \<Rightarrow> string"
  pem_EncodeToMemory :: "string \<Rightarrow> string \<Rightarrow> string"
  tls_X509KeyPair :: "string \<Rightarrow> string \<Rightarrow> string + 'cert"

definition generateSelfSignedCert :: "('key, 'cert) Crypto \<Rightarrow> string + 'cert" where
  "generateSelfSignedCert C =
     bind_result (rsa_GenerateKey C 2048) (\<lambda>priv.
     let notBefore = time_Now C;
         serialNumberLimit = push_bit 128 1
     in
     bind_result (rand_Int C serialNumberLimit) (\<lambda>serialNumber.
     let template = cert_template serialNumber notBefore in
     bind_result (x509_CreateCertificate C template template priv priv) (\<lambda>derBytes.
     let certPEM = pem_EncodeToMemory C ''CERTIFICATE'' derBytes;
         keyPEM = pem_EncodeToMemory C ''RSA PRIVATE KEY'' (x509_MarshalPKCS1PrivateKey C priv)
     in tls_X509KeyPair C certPEM keyPEM)))"

section \<open>The calls before the wait\<close>

record Options =
  opt_MetricsBindAddress :: string
  opt_WebhookPort :: int
  opt_HealthProbeBindAddress :: string
  opt_LeaderElection :: bool
  opt_LeaderElectionID :: string

definition manager_options :: "Flags \<Rightarrow> Options" where
  "manager_options f =
     \<lparr>opt_MetricsBindAddress = metricsAddr f, opt_WebhookPort = 9443,
      opt_HealthProbeBindAddress = probeAddr f, opt_LeaderElection = enableLeaderElection f,
      opt_LeaderElectionID = ''gateway-api-reference-implementation''\<rparr>"

record ('cfg, 'mgr) Library =
  lib_GetConfig :: "string + 'cfg"
  lib_NewManager :: "'cfg \<Rightarrow> Options \<Rightarrow> string + 'mgr"
  lib_Complete :: "'mgr \<Rightarrow> reconciler \<Rightarrow> registration \<Rightarrow> string option"

datatype task = ProxyServer | ProxyHTTPSServer | ManagerTask

datatype action = NewManager Options | Go task | SetUp reconciler

definition controller_name :: "reconciler \<Rightarrow> string" where
  "controller_name c =
     (case c of HTTPRouteReconciler \<Rightarrow> ''HTTPRoute'' | GatewayClassReconciler \<Rightarrow> ''GatewayClass''
      | GatewayReconciler \<Rightarrow> ''Gateway'' | ServiceReconciler \<Rightarrow> ''Service''
      | BackendTLSPolicyReconciler \<Rightarrow> ''BackendTLSPolicy'' | ConfigMapReconciler \<Rightarrow> ''ConfigMap'')"

fun set_up_all ::
    "('cfg, 'mgr) Library \<Rightarrow> 'mgr \<Rightarrow> reconciler list \<Rightarrow> action list \<times> string option" where
  "set_up_all L mgr [] = ([], None)"
| "set_up_all L mgr (c # cs) =
     (case lib_Complete L mgr c (SetupWithManager c) of
        Some err \<Rightarrow>
          ([SetUp c], Some (''error creating '' @ controller_name c @ '' controller: '' @ err))
      | None \<Rightarrow> (case set_up_all L mgr cs of (acts, r) \<Rightarrow> (SetUp c # acts, r)))"

text \<open>What \<open>run\<close> does before \<open>g.Wait\<close>: its actions, and the error of an early return.\<close>

definition run_start :: "('cfg, 'mgr) Library \<Rightarrow> Flags \<Rightarrow> action list \<times> string option" where
  "run_start L flags =
     (case lib_GetConfig L of
        Inl err \<Rightarrow> ([], Some (''unable to get kubeconfig: '' @ err))
      | Inr cfg \<Rightarrow>
          (let opts = manager_options flags in
           case lib_NewManager L cfg opts of
             Inl err \<Rightarrow> ([NewManager opts], Some (''unable to start manager: '' @ err))
           | Inr mgr \<Rightarrow>
               (case set_up_all L mgr
                       [HTTPRouteReconciler, GatewayClassReconciler, GatewayReconciler,
                        ServiceReconciler, BackendTLSPolicyReconciler, ConfigMapReconciler] of
                  (acts, Some err) \<Rightarrow>
                    ([NewManager opts, Go ProxyServer, Go ProxyHTTPSServer] @ acts, Some err)
                | (acts, None) \<Rightarrow>
                    ([NewManager opts, Go ProxyServer, Go ProxyHTTPSServer] @ acts @ [Go ManagerTask],
                     None))))"

section \<open>The goroutines of the error group\<close>

datatype handler = ProxyHandler | H2CHandler

record 'cert Server =
  srv_Addr :: string
  srv_Handler :: handler
  srv_Certificates :: "'cert list"

text \<open>What \<open>ListenAndServe\<close> returns.\<close>

datatype serve_result = ServeNil | ErrServerClosed | ServeFailed string

fun server_error :: "string \<Rightarrow> serve_result \<Rightarrow> string option" where
  "server_error what ServeNil = None"
| "server_error what ErrServerClosed = None"
| "server_error what (ServeFailed err) = Some (what @ err)"

definition proxy_server :: "Flags \<Rightarrow> 'cert Server" where
  "proxy_server f =
     \<lparr>srv_Addr = proxyAddr f, srv_Handler = (if enableH2C f then H2CHandler else ProxyHandler),
      srv_Certificates = []\<rparr>"

definition proxy_task :: "('cert Server \<Rightarrow> serve_result) \<Rightarrow> Flags \<Rightarrow> string option" where
  "proxy_task ListenAndServe f =
     server_error ''proxy server failed: '' (ListenAndServe (proxy_server f))"

definition https_task ::
    "string + 'cert \<Rightarrow> ('cert Server \<Rightarrow> serve_result) \<Rightarrow> Flags \<Rightarrow> string option" where
  "https_task generated ListenAndServeTLS f =
     (case generated of
        Inl err \<Rightarrow> Some (''failed to generate self-signed cert: '' @ err)
      | Inr cert \<Rightarrow>
          server_error ''proxy HTTPS server failed: ''
            (ListenAndServeTLS
               \<lparr>srv_Addr = proxyHTTPSAddr f, srv_Handler = ProxyHandler, srv_Certificates = [cert]\<rparr>))"

definition manager_task :: "string option \<Rightarrow> string option" where
  "manager_task result = map_option ((@) ''problem running manager: '') result"

definition main_exit :: "string option \<Rightarrow> exit_status" where
  "main_exit err = (case err of Some _ \<Rightarrow> Exit 1 | None \<Rightarrow> Exit 0)"

text \<open>
  The error group while \<open>run\<close> waits. A signal or the first task that returns an error cancels the
  context; each server has a goroutine that then calls \<open>Shutdown\<close>. Of the libraries this uses
  what they document: \<open>ListenAndServe\<close> always returns an error, \<open>ErrServerClosed\<close> only after
  \<open>Shutdown\<close>; the manager's \<open>Start\<close> returns nil only when its context is cancelled; \<open>Wait\<close> returns
  the first error of a task when all have returned.
\<close>

record Group =
  grp_Running :: "task set"
  grp_Cancelled :: bool
  grp_Signalled :: bool
  grp_Shutdown :: "task set"
  grp_Err :: "string option"

definition task_returns :: "task \<Rightarrow> string option \<Rightarrow> Group \<Rightarrow> Group" where
  "task_returns t r g =
     g\<lparr>grp_Running := grp_Running g - {t},
       grp_Cancelled := grp_Cancelled g \<or> r \<noteq> None,
       grp_Err := (if grp_Err g = None then r else grp_Err g)\<rparr>"

definition may_serve :: "task \<Rightarrow> Group \<Rightarrow> serve_result \<Rightarrow> bool" where
  "may_serve t g result \<longleftrightarrow> result \<noteq> ServeNil \<and> (result = ErrServerClosed \<longrightarrow> t \<in> grp_Shutdown g)"

inductive group_step :: "string + 'cert \<Rightarrow> Flags \<Rightarrow> Group \<Rightarrow> Group \<Rightarrow> bool" for generated f where
  signal: "group_step generated f g (g\<lparr>grp_Cancelled := True, grp_Signalled := True\<rparr>)"
| shutdown:
    "grp_Cancelled g \<Longrightarrow> t \<in> {ProxyServer, ProxyHTTPSServer} \<Longrightarrow>
     group_step generated f g (g\<lparr>grp_Shutdown := insert t (grp_Shutdown g)\<rparr>)"
| proxy_returns:
    "ProxyServer \<in> grp_Running g \<Longrightarrow> may_serve ProxyServer g (serve (proxy_server f :: 'cert Server)) \<Longrightarrow>
     group_step generated f g (task_returns ProxyServer (proxy_task serve f) g)"
| https_returns:
    "ProxyHTTPSServer \<in> grp_Running g \<Longrightarrow> (\<And>srv. may_serve ProxyHTTPSServer g (serve srv)) \<Longrightarrow>
     group_step generated f g (task_returns ProxyHTTPSServer (https_task generated serve f) g)"
| manager_returns:
    "ManagerTask \<in> grp_Running g \<Longrightarrow> (result = None \<Longrightarrow> grp_Cancelled g) \<Longrightarrow>
     group_step generated f g (task_returns ManagerTask (manager_task result) g)"

definition group_started :: Group where
  "group_started =
     \<lparr>grp_Running = {ProxyServer, ProxyHTTPSServer, ManagerTask}, grp_Cancelled = False,
      grp_Signalled = False, grp_Shutdown = {}, grp_Err = None\<rparr>"

text \<open>What \<open>run\<close> can return: the error of an early return, or what \<open>Wait\<close> returns.\<close>

inductive run_returns ::
    "('cfg, 'mgr) Library \<Rightarrow> string + 'cert \<Rightarrow> Flags \<Rightarrow> bool \<Rightarrow> string option \<Rightarrow> bool"
  for L generated f where
  early: "run_start L f = (acts, Some err) \<Longrightarrow> run_returns L generated f signalled (Some err)"
| waited:
    "run_start L f = (acts, None) \<Longrightarrow> (group_step generated f)\<^sup>*\<^sup>* group_started g \<Longrightarrow>
     grp_Running g = {} \<Longrightarrow> run_returns L generated f (grp_Signalled g) (grp_Err g)"

text \<open>
  The exit of the program: the flag package exits on its own, \<open>main\<close> exits with what \<open>run\<close>
  returned, and the signal handler of controller-runtime exits at once at a second signal.
\<close>

inductive program_exits ::
    "('cfg, 'mgr) Library \<Rightarrow> library_flags \<Rightarrow> string list \<Rightarrow> string + 'cert \<Rightarrow> bool \<Rightarrow> exit_status \<Rightarrow> bool"
  for L libs args generated where
  flags_exit: "flag_Parse libs args default_flags = Inl e \<Longrightarrow> program_exits L libs args generated signalled e"
| run_exits:
    "flag_Parse libs args default_flags = Inr f \<Longrightarrow> run_returns L generated f signalled r \<Longrightarrow>
     program_exits L libs args generated signalled (main_exit r)"
| second_signal: "program_exits L libs args generated True (Exit 1)"

inductive_cases run_returns_nil: "run_returns L generated f signalled None"
inductive_simps group_step_iff: "group_step generated f g h"

section \<open>The flags\<close>

text \<open>The arguments that set every flag of the program.\<close>

definition flag_args :: "Flags \<Rightarrow> string list" where
  "flag_args f =
     [''--metrics-bind-address='' @ metricsAddr f, ''--health-probe-bind-address='' @ probeAddr f,
      ''--proxy-bind-address='' @ proxyAddr f,
      ''--proxy-https-bind-address='' @ proxyHTTPSAddr f,
      ''--enable-h2c='' @ (if enableH2C f then ''true'' else ''false''),
      ''--leader-elect='' @ (if enableLeaderElection f then ''true'' else ''false'')]"

lemma cut_value_append:
  "CHR ''='' \<notin> set n \<Longrightarrow> cut_value (n @ CHR ''='' # v) = (n, Some v)"
  by (induction n) auto

lemma parse_arg_value:
  assumes "CHR ''='' \<notin> set n" "n \<noteq> []" "hd n \<noteq> CHR ''-''"
  shows "parse_arg (''--'' @ n @ CHR ''='' # v) = FlagArg n (Some v)"
proof -
  obtain c cs where n: "n = c # cs" using assms(2) by (cases n) auto
  then have "split_flag (n @ CHR ''='' # v) = (n, Some v)"
    using cut_value_append [of cs v] assms(1) by (simp add: split_flag_def)
  with n assms show ?thesis by (auto simp: parse_arg_def)
qed

text \<open>
  C37: the command line says what the configuration is: rendering any configuration as arguments
  and parsing them gives it back, whatever the addresses contain and whatever the flags were
  before, and whatever flags the libraries register beside the program's.
\<close>

theorem flags_roundtrip:
  "flag_Parse libs (flag_args f) g = Inr f"
proof -
  have args: "parse_arg (''--metrics-bind-address='' @ v) = FlagArg ''metrics-bind-address'' (Some v)"
    "parse_arg (''--health-probe-bind-address='' @ v) = FlagArg ''health-probe-bind-address'' (Some v)"
    "parse_arg (''--proxy-bind-address='' @ v) = FlagArg ''proxy-bind-address'' (Some v)"
    "parse_arg (''--proxy-https-bind-address='' @ v) = FlagArg ''proxy-https-bind-address'' (Some v)"
    "parse_arg (''--enable-h2c='' @ v) = FlagArg ''enable-h2c'' (Some v)"
    "parse_arg (''--leader-elect='' @ v) = FlagArg ''leader-elect'' (Some v)" for v
    using parse_arg_value [of "''metrics-bind-address''" v]
      parse_arg_value [of "''health-probe-bind-address''" v]
      parse_arg_value [of "''proxy-bind-address''" v] parse_arg_value [of "''proxy-https-bind-address''" v]
      parse_arg_value [of "''enable-h2c''" v] parse_arg_value [of "''leader-elect''" v] by simp_all
  show ?thesis
    unfolding flag_args_def flag_Parse.simps args parsed_arg.case
    by (simp add: registered_def ParseBool_def)
qed

section \<open>How the program ends\<close>

lemma set_up_all_eq:
  "set_up_all L mgr cs =
     (case find (\<lambda>c. lib_Complete L mgr c (SetupWithManager c) \<noteq> None) cs of
        None \<Rightarrow> (map SetUp cs, None)
      | Some c \<Rightarrow>
          (map SetUp (takeWhile (\<lambda>c. lib_Complete L mgr c (SetupWithManager c) = None) cs @ [c]),
           map_option (\<lambda>err. ''error creating '' @ controller_name c @ '' controller: '' @ err)
             (lib_Complete L mgr c (SetupWithManager c))))"
  by (induction cs) (auto split: option.split prod.split)

lemma run_start_nil:
  assumes "run_start L f = (acts, None)"
  shows "acts = [NewManager (manager_options f), Go ProxyServer, Go ProxyHTTPSServer] @
    map SetUp all_reconcilers @ [Go ManagerTask]"
  using assms unfolding run_start_def all_reconcilers_def [symmetric] set_up_all_eq Let_def
  by (auto split: sum.splits option.splits dest: find_Some_in)

lemma run_start_error:
  assumes "run_start L f = (acts, Some err)"
  shows "Go ManagerTask \<notin> set acts"
  using assms unfolding run_start_def all_reconcilers_def [symmetric] set_up_all_eq Let_def
  by (auto split: sum.splits option.splits)

definition group_ok :: "Group \<Rightarrow> bool" where
  "group_ok g \<longleftrightarrow>
     (grp_Shutdown g \<noteq> {} \<longrightarrow> grp_Cancelled g) \<and>
     (grp_Cancelled g \<longrightarrow> grp_Signalled g \<or> grp_Err g \<noteq> None) \<and>
     (grp_Running g \<noteq> {ProxyServer, ProxyHTTPSServer, ManagerTask} \<longrightarrow> grp_Cancelled g)"

fun_cases server_error_None: "server_error what result = None"

lemma server_error_nil:
  "may_serve t g result \<Longrightarrow> server_error what result = None \<Longrightarrow> t \<in> grp_Shutdown g"
  by (auto simp: may_serve_def elim: server_error_None)

lemma group_ok_returns:
  assumes "group_ok g" "r = None \<Longrightarrow> grp_Cancelled g"
  shows "group_ok (task_returns t r g)"
  using assms by (cases r) (auto simp: group_ok_def task_returns_def)

lemma group_ok_step:
  assumes "group_step generated f g h" "group_ok g"
  shows "group_ok h"
  using assms(1)
proof cases
  case (proxy_returns serve)
  have "grp_Cancelled g" if "proxy_task serve f = None"
    using server_error_nil [OF proxy_returns(3)] that assms(2)
    by (auto simp: proxy_task_def group_ok_def)
  with proxy_returns(1) group_ok_returns [OF assms(2)] show ?thesis by simp
next
  case (https_returns serve)
  have "grp_Cancelled g" if "https_task generated serve f = None"
    using server_error_nil [OF https_returns(3)] that assms(2)
    by (auto simp: https_task_def group_ok_def split: sum.splits)
  with https_returns(1) group_ok_returns [OF assms(2)] show ?thesis by simp
next
  case (manager_returns result)
  with group_ok_returns [OF assms(2), of "manager_task result"] show ?thesis
    by (auto simp: manager_task_def)
qed (use assms(2) in \<open>auto simp: group_ok_def\<close>)

lemma group_run_ok:
  assumes "(group_step generated f)\<^sup>*\<^sup>* group_started g"
  shows "group_ok g"
  using assms
proof (induction rule: rtranclp_induct)
  case base
  show ?case by (simp add: group_ok_def group_started_def)
next
  case (step g h)
  from group_ok_step [OF step.hyps(2) step.IH] show ?case .
qed

lemma run_ends:
  assumes "run_returns L generated f signalled None"
  shows "signalled \<and> run_start L f =
    ([NewManager (manager_options f), Go ProxyServer, Go ProxyHTTPSServer] @
       map SetUp all_reconcilers @ [Go ManagerTask], None)"
proof -
  from assms obtain g where "(group_step generated f)\<^sup>*\<^sup>* group_started g" "grp_Running g = {}"
    "grp_Err g = None" "signalled = grp_Signalled g" "\<exists>acts. run_start L f = (acts, None)"
    by (elim run_returns_nil) metis
  with group_run_ok [of generated f g] run_start_nil [of L f] show ?thesis by (auto simp: group_ok_def)
qed

lemma parse_arg_exit: "parse_arg s = BadArg e \<Longrightarrow> e = Exit 2"
  by (auto simp: parse_arg_def Let_def split: if_splits prod.splits)

lemma set_flag_exit: "set_flag kind v flags = Inl e \<Longrightarrow> e = Exit 2"
  by (cases kind) (auto split: option.splits if_splits)

definition asks_for_help :: "string \<Rightarrow> bool" where
  "asks_for_help s \<longleftrightarrow> (\<exists>name value. parse_arg s = FlagArg name value \<and> name \<in> {''help'', ''h''})"

lemma set_flag_then:
  "bind_result (set_flag kind v flags) parse = Inl e \<Longrightarrow> e = Exit 2 \<or> (\<exists>flags'. parse flags' = Inl e)"
  by (cases "set_flag kind v flags") (auto dest: set_flag_exit)

lemma flag_Parse_exit:
  "flag_Parse libs args flags = Inl e \<Longrightarrow> e = Exit 2 \<or> e = Exit 0 \<and> (\<exists>s \<in> set args. asks_for_help s)"
proof (induction "length args" arbitrary: args flags rule: less_induct)
  case less
  show ?case
  proof (cases args)
    case (Cons s rest)
    have later: "e = Exit 2 \<or> e = Exit 0 \<and> (\<exists>s \<in> set args'. asks_for_help s)"
      if "bind_result (set_flag kind v flags) (flag_Parse libs args') = Inl e" "length args' < length args"
      for kind v args'
      using set_flag_then [OF that(1)] less.hyps [OF that(2)] by blast
    show ?thesis
    proof (cases "parse_arg s")
      case (FlagArg name v)
      then have asked: "name = ''help'' \<or> name = ''h'' \<Longrightarrow> asks_for_help s" by (auto simp: asks_for_help_def)
      from less.prems [unfolded Cons] FlagArg show ?thesis
        by (simp add: Cons asked split: option.splits if_splits list.splits)
          (fastforce dest: later [unfolded Cons])+
    qed (use less.prems Cons parse_arg_exit in auto)
  qed (use less.prems in simp)
qed

text \<open>
  C36: how the whole program ends. It exits with status 2 only on bad flags. It exits with status 0
  only when an argument asks for help, or after a termination signal; in the latter case the flags
  were parsed, the manager was created with the configured options, both servers were started,
  all six controllers were registered in order and then the manager was started. In every other
  case the status is 1: when a call of the start-up fails (then the manager is never started), when
  a server or the manager ends by itself, and at a second signal.
\<close>

theorem exit_zero_only_after_signal:
  assumes "program_exits L libs args generated signalled e"
  shows "(e = Exit 0 \<and>
      (flag_Parse libs args default_flags = Inl (Exit 0) \<and> (\<exists>s \<in> set args. asks_for_help s) \<or>
       signalled \<and> (\<exists>f. flag_Parse libs args default_flags = Inr f \<and>
         run_start L f =
           ([NewManager (manager_options f), Go ProxyServer, Go ProxyHTTPSServer] @
              map SetUp all_reconcilers @ [Go ManagerTask], None))) \<or>
    e = Exit 2 \<and> flag_Parse libs args default_flags = Inl (Exit 2) \<or>
    e = Exit 1) \<and>
   (\<forall>f. snd (run_start L f) = None \<longleftrightarrow> Go ManagerTask \<in> set (fst (run_start L f)))"
proof
  show "\<forall>f. snd (run_start L f) = None \<longleftrightarrow> Go ManagerTask \<in> set (fst (run_start L f))"
  proof
    show "snd (run_start L f) = None \<longleftrightarrow> Go ManagerTask \<in> set (fst (run_start L f))" for f
      using run_start_error [of L f] run_start_nil [of L f]
      by (cases "run_start L f"; cases "snd (run_start L f)") auto
  qed
qed (use assms flag_Parse_exit [of libs args default_flags] run_ends [of L generated] in
    \<open>cases rule: program_exits.cases\<close>, auto simp: main_exit_def split: option.splits)

text \<open>A library on which every call succeeds, and a run that a signal ends.\<close>

definition ex_library :: "(unit, unit) Library" where
  "ex_library = \<lparr>lib_GetConfig = Inr (), lib_NewManager = (\<lambda>_ _. Inr ()), lib_Complete = (\<lambda>_ _ _. None)\<rparr>"

lemma ex_run_returns: "run_returns ex_library (Inr ()) default_flags True None"
proof -
  let ?step = "group_step (Inr () :: string + unit) default_flags"
  let ?g0 = "group_started\<lparr>grp_Cancelled := True, grp_Signalled := True\<rparr>"
  let ?g1 = "?g0\<lparr>grp_Shutdown := {ProxyServer}\<rparr>"
  let ?g2 = "?g1\<lparr>grp_Shutdown := {ProxyHTTPSServer, ProxyServer}\<rparr>"
  let ?g3 = "?g2\<lparr>grp_Running := {ProxyHTTPSServer, ManagerTask}\<rparr>"
  let ?g4 = "?g3\<lparr>grp_Running := {ManagerTask}\<rparr>" and ?g5 = "?g3\<lparr>grp_Running := {}\<rparr>"
  note defs = group_started_def task_returns_def may_serve_def proxy_task_def https_task_def manager_task_def
  have "?step group_started ?g0" by (rule signal)
  moreover have "?step ?g0 ?g1"
    using shutdown [of ?g0 ProxyServer "Inr () :: string + unit" default_flags] by (simp add: group_started_def)
  moreover have "?step ?g1 ?g2"
    using shutdown [of ?g1 ProxyHTTPSServer "Inr () :: string + unit" default_flags] by simp
  moreover have "?step ?g2 ?g3"
    using proxy_returns [of ?g2 "\<lambda>_. ErrServerClosed" default_flags "Inr () :: string + unit"]
    by (simp add: defs insert_Diff_if)
  moreover have "?step ?g3 ?g4"
    using https_returns [of ?g3 "\<lambda>_. ErrServerClosed" "Inr () :: string + unit" default_flags]
    by (simp add: defs)
  moreover have "?step ?g4 ?g5"
    using manager_returns [of ?g4 None "Inr () :: string + unit" default_flags] by (simp add: defs)
  ultimately have run: "?step\<^sup>*\<^sup>* group_started ?g5"
    by (meson rtranclp.rtrancl_refl rtranclp.rtrancl_into_rtrancl)
  have "run_start ex_library default_flags = (fst (run_start ex_library default_flags), None)"
    by (simp add: run_start_def ex_library_def)
  from waited [OF this run] show ?thesis by (simp add: group_started_def)
qed

theorem exit_zero_only_after_signal_witness:
  "program_exits ex_library (\<lambda>_. None) [] (Inr ()) True (Exit 0) \<and>
   Go ManagerTask \<in> set (fst (run_start ex_library default_flags))"
proof -
  have exits: "program_exits ex_library (\<lambda>_. None) [] (Inr ()) True (Exit 0)"
    using run_exits [of "\<lambda>_. None" "[]" default_flags, OF _ ex_run_returns] by (simp add: main_exit_def)
  from exit_zero_only_after_signal [OF this] exits show ?thesis by auto
qed

section \<open>The certificate\<close>

text \<open>
  The certificate is valid for a year from now (the duration does not overflow), and it is
  made in steps that each can fail; it is signed with the key that it certifies.
\<close>

lemma cert_template_validity:
  "tpl_NotAfter (cert_template n t) = t + 365 * 24 * 3600 * 1000000000"
  by (simp add: cert_template_def one_hour_def)

lemma cert_template_usage: "tpl_KeyUsage (cert_template n t) = 5"
  by (simp add: cert_template_def KeyUsageKeyEncipherment_def KeyUsageDigitalSignature_def)

lemma generateSelfSignedCert_Inr:
  "generateSelfSignedCert C = Inr cert \<longleftrightarrow>
     (\<exists>key serial der. rsa_GenerateKey C 2048 = Inr key \<and> rand_Int C (2 ^ 128) = Inr serial \<and>
        x509_CreateCertificate C (cert_template serial (time_Now C))
          (cert_template serial (time_Now C)) key key = Inr der \<and>
        tls_X509KeyPair C (pem_EncodeToMemory C ''CERTIFICATE'' der)
          (pem_EncodeToMemory C ''RSA PRIVATE KEY'' (x509_MarshalPKCS1PrivateKey C key)) = Inr cert)"
  by (auto simp: generateSelfSignedCert_def Let_def bind_result_Inr_iff push_bit_eq_mult)

end
