(* ===== verification/WellFormed.thy ===== *)
theory WellFormed
  imports StateProperties ControllerProperties
begin

text \<open>
  The shape of what the program computes: every table that \<open>BuildInternalRoutes\<close> returns is
  well-formed, in the sense that a type system could express; and the bounds of its size and of
  the reported number of attached routes, which the code truncates to an \<open>int32\<close>.
\<close>

section \<open>Well-formed tables\<close>

text \<open>A header match has a type, and a compiled expression exactly when the type asks for one.\<close>

definition header_wf :: "regexp_engine \<Rightarrow> InternalHeaderMatch \<Rightarrow> bool" where
  "header_wf E h \<longleftrightarrow> ihm_Type h \<noteq> '''' \<and>
     (case ihm_MatchRegularExpressionValue h of
        None \<Rightarrow> ihm_Type h \<noteq> HeaderMatchRegularExpression
      | Some re \<Rightarrow> ihm_Type h = HeaderMatchRegularExpression \<and>
          regexp_Compile E (ihm_MatchExactValue h) = Inr re)"

definition match_wf :: "regexp_engine \<Rightarrow> InternalMatch \<Rightarrow> bool" where
  "match_wf E m \<longleftrightarrow>
     (case im_Path m of None \<Rightarrow> True | Some p \<Rightarrow> ipm_Type p \<noteq> '''') \<and>
     list_all (header_wf E) (im_Headers m)"

text \<open>A rule with a backend neither redirects nor answers with an error; an error is a 500.\<close>

definition rule_wf :: "regexp_engine \<Rightarrow> InternalRule \<Rightarrow> bool" where
  "rule_wf E r \<longleftrightarrow>
     (irule_Backend r = None \<or> irule_Redirect r = None \<and> irule_Error r = None) \<and>
     (case irule_Error r of
        None \<Rightarrow> True
      | Some e \<Rightarrow> es_HTTPStatusCode e = 500 \<and> cond_Status (es_Condition e) = ConditionFalse) \<and>
     list_all (match_wf E) (irule_Matches r)"

definition route_wf :: "regexp_engine \<Rightarrow> InternalRoute \<Rightarrow> bool" where
  "route_wf E ir \<longleftrightarrow>
     ir_Hostnames ir \<noteq> [] \<and> '''' \<notin> set (ir_Hostnames ir) \<and> list_all (rule_wf E) (ir_Rules ir)"

lemma build_match_wf:
  assumes "validate_headers E (rm_Headers m) = None"
  shows "match_wf E (build_match E m)"
proof -
  have "validate_headers E hs = None \<Longrightarrow> list_all (header_wf E) (map (build_header E) hs)" for hs
    by (induction hs)
      (auto simp: build_header_def header_wf_def Let_def split: sum.splits if_splits)
  with assms show ?thesis
    by (auto simp: match_wf_def build_match_def split: option.split)
qed

lemma built_from_validated:
  assumes "built_from E now B s l hr ir"
  shows "validate_rules E (hr_Rules hr) = None"
  using assms by (auto simp: built_from_def binds_def accepts_def accepted_outcome_True)

lemma built_from_rule_wf:
  assumes "built_from E now B s l hr ir" "r \<in> set (ir_Rules ir)"
  shows "rule_wf E r"
proof -
  obtain rule where rule: "rule \<in> set (hr_Rules hr)"
      "build_rule E B hr (resolved_condition now hr) rule = Inr r"
    using built_from_rule [OF assms] by blast
  have "validate_headers E (rm_Headers m) = None" if "m \<in> set (rr_Matches rule)" for m
    using built_from_validated [OF assms(1)] rule(1) that
    unfolding validate_rules_None validate_headers_None by blast
  then have matches: "list_all (match_wf E) (irule_Matches r)"
    using build_rule_Matches [OF rule(2)] by (auto simp: list_all_iff build_match_wf)
  show ?thesis
  proof (cases "\<forall>rule \<in> set (hr_Rules hr). \<forall>b \<in> set (rr_BackendRefs rule). service_kind b")
    case True
    then have "cond_Status (resolved_condition now hr) \<noteq> ConditionFalse"
      using resolved_condition_invalid by blast
    with build_rule_valid [OF rule(2)] True rule(1) matches show ?thesis
      by (auto simp: rule_wf_def)
  next
    case False
    with built_from_invalid [OF assms] matches show ?thesis by (auto simp: rule_wf_def)
  qed
qed

text \<open>
  C34: every table that is built from routes without empty hostnames is well-formed: an entry has
  hostnames, none of them empty (an entry without any would accept every host); a rule that
  forwards neither redirects nor carries an error; an error is a 500 with a false condition; and
  every match has its types set, and an expression compiled from its value exactly where its type
  asks for one, so that no header match of the table can silently fail for want of an expression.
\<close>

theorem built_tables_well_formed:
  assumes "BuildInternalRoutes E now s routes B cn = Inr irs" "hostnames_nonempty routes"
  shows "list_all (route_wf E) irs"
  unfolding list_all_iff
proof
  fix ir assume ir: "ir \<in> set irs"
  obtain l rs hr where o: "rs \<in> set routes" "hs_HTTPRoute rs = Some hr" "built_from E now B s l hr ir"
    using BuildInternalRoutes_in [OF assms(1) ir] by blast
  have "'''' \<notin> set (hr_Hostnames hr)" using assms(2) o(1,2) unfolding hostnames_nonempty_def by blast
  then have "'''' \<notin> set (ir_Hostnames ir)"
    using o(3) IntersectHostnames_no_empty unfolding built_from_def by metis
  moreover have "ir_Hostnames ir \<noteq> []" by (rule BuildInternalRoutes_nonempty_hostnames [OF assms(1) ir])
  ultimately show "route_wf E ir"
    using built_from_rule_wf [OF o(3)] by (simp add: route_wf_def list_all_iff)
qed

theorem built_tables_well_formed_witness:
  "list_all (route_wf literal_engine) (ex_built ex_route) \<and> ex_built ex_route \<noteq> []"
proof -
  have "hostnames_nonempty [\<lparr>hs_HTTPRoute = Some ex_route\<rparr>]"
    by (simp add: hostnames_nonempty_def ex_route_def)
  from built_tables_well_formed [OF ex_built_eq [OF ex_route_complete] this]
    ex_built_member [OF ex_route_complete ex_binds] show ?thesis by auto
qed

section \<open>Bounds\<close>

lemma listener_status_Inr:
  assumes "listener_status now gw routes l = Inr ls"
  shows "lsts_AttachedRoutes ls = of_nat (length (filter (counts_for gw l) routes))"
proof -
  have nil: "attached_routes_loop gw l rs n = Inr m \<Longrightarrow> \<forall>r \<in> set rs. hs_HTTPRoute r \<noteq> None" for rs n m
    by (induction rs arbitrary: n) (auto simp: bind_result_Inr_iff deref_Inr_iff)
  obtain n where n: "attached_routes_loop gw l routes 0 = Inr n" "lsts_AttachedRoutes ls = of_nat n"
    using assms by (auto simp: listener_status_def bind_result_Inr_iff)
  with attached_routes_loop_count [OF nil [OF n(1)], of gw l 0] show ?thesis by simp
qed

text \<open>
  C35: the number of attached routes that a listener reports is the number of routes that count
  for it, truncated to 32 bits with a sign: with fewer than \<open>2 ^ 31\<close> routes it is exact, not
  negative and at most the number of routes; with \<open>2 ^ 31\<close> counted routes it would be negative.
\<close>

theorem attached_routes_bounds:
  assumes "listener_status now gw routes l = Inr ls"
  defines "counted \<equiv> length (filter (counts_for gw l) routes)"
  shows "(if length routes < 2 ^ 31
     then sint (lsts_AttachedRoutes ls) = int counted \<and> sint (lsts_AttachedRoutes ls) \<in> {0..int (length routes)}
     else sint (lsts_AttachedRoutes ls) = signed_take_bit 31 (int counted)) \<and>
   (counted = 2 ^ 31 \<longrightarrow> sint (lsts_AttachedRoutes ls) = - (2 ^ 31))"
proof -
  have s: "sint (lsts_AttachedRoutes ls) = signed_take_bit 31 (int counted)"
    unfolding listener_status_Inr [OF assms(1)] counted_def by (simp add: signed_of_nat)
  have le: "counted \<le> length routes" by (simp add: counted_def)
  have "signed_take_bit 31 (int counted) = int counted" if "length routes < 2 ^ 31"
    using le that by (intro signed_take_bit_int_eq_self) auto
  moreover have "signed_take_bit 31 (int counted) = - (2 ^ 31)" if "counted = 2 ^ 31"
    unfolding that by (simp add: signed_take_bit_eq_take_bit_minus bit_simps take_bit_eq_mod)
  ultimately show ?thesis using s le by auto
qed

lemma ex_counts: "counts_for ex_gateway ex_listener \<lparr>hs_HTTPRoute = Some ex_accepted_route\<rparr>"
proof -
  have "fst (accepted_outcome literal_engine ex_route ex_ref [\<lparr>gs_Gateway = ex_gateway\<rparr>]) = ConditionTrue"
    by code_simp
  then have "cond_Status (accepted_condition literal_engine 0 [\<lparr>gs_Gateway = ex_gateway\<rparr>] ex_route ex_ref) =
      ConditionTrue"
    by (auto simp: accepted_condition_def split: prod.splits)
  then have "IsAccepted \<lparr>hs_HTTPRoute = Some ex_accepted_route\<rparr> ControllerName"
    by (simp add: IsAccepted_def ex_accepted_route_def)
  then show ?thesis
    by (simp add: counts_for_def ex_accepted_route_def ex_route_def ex_ref_def ex_gateway_def
        section_selects_def)
qed

theorem attached_routes_bounds_witness:
  "\<exists>ls. listener_status 0 ex_gateway [\<lparr>hs_HTTPRoute = Some ex_accepted_route\<rparr>] ex_listener = Inr ls \<and>
     sint (lsts_AttachedRoutes ls) = 1"
proof -
  let ?rs = "[\<lparr>hs_HTTPRoute = Some ex_accepted_route\<rparr>]"
  have "\<forall>r \<in> set ?rs. hs_HTTPRoute r \<noteq> None" by simp
  from attached_routes_loop_count [OF this]
  obtain ls where ls: "listener_status 0 ex_gateway ?rs ex_listener = Inr ls"
    by (simp add: listener_status_def)
  with attached_routes_bounds [OF ls] show ?thesis by (simp add: ex_counts)
qed

text \<open>The size of a table: at most one entry for each pair of a listener and a route.\<close>

lemma concat_result_length:
  assumes "concat_result f xs = Inr ys" "\<And>x zs. x \<in> set xs \<Longrightarrow> f x = Inr zs \<Longrightarrow> length zs \<le> n"
  shows "length ys \<le> length xs * n"
  using assms
proof (induction xs arbitrary: ys)
  case (Cons x xs)
  then obtain as bs where "f x = Inr as" "concat_result f xs = Inr bs" "ys = as @ bs"
    by (auto simp: bind_result_Inr_iff)
  with Cons.IH [of bs] Cons.prems(2) show ?case by fastforce
qed simp

lemma build_route_at_most_one:
  "build_route E now B s l rs = Inr irs \<Longrightarrow> length irs \<le> 1"
  by (auto simp: build_route_def bind_result_Inr_iff Let_def split: if_splits)

lemma table_size:
  assumes "BuildInternalRoutes E now s routes B cn = Inr irs"
  shows "length irs \<le> length (gw_Listeners (gs_Gateway s)) * length routes"
proof (rule concat_result_length [OF assms [unfolded BuildInternalRoutes_def]])
  fix l zs assume "build_listener E now B s routes l = Inr zs"
  then have "concat_result (build_route E now B s l) routes = Inr zs \<or> zs = []"
    by (auto simp: build_listener_eq split: if_splits)
  with concat_result_length [of "build_route E now B s l" routes zs 1] build_route_at_most_one
  show "length zs \<le> length routes" by auto
qed

end
