(* ===== verification/Spec2Isabelle.thy ===== *)
theory Spec2Isabelle
  imports ProxyProperties StoreProperties Overlap Startup WellFormed
begin

text \<open>
  This library models the Gateway API reference implementation (Go): a Kubernetes controller
  that turns \<open>Gateway\<close>, \<open>HTTPRoute\<close>, \<open>Service\<close>, \<open>ConfigMap\<close> and \<open>BackendTLSPolicy\<close> objects
  into a routing table, reports their status, and an HTTP proxy that serves the table.

  How the parts interact. \<^verbatim>\<open>cmd/gateway-api-reference-implementation/main.go\<close> parses the
  flags, registers six controllers with a manager and starts it beside an HTTP and an HTTPS
  server. The manager turns changes of objects into requests for the reconcilers. The reconcilers of \<^verbatim>\<open>pkg/controller\<close> read objects from the API
  server and store them in the \<open>State\<close> of \<^verbatim>\<open>pkg/state\<close>. After each change \<open>updateProxy\<close>
  reads the state back, builds a table with \<open>BuildInternalRoutes\<close> for every gateway and hands
  it to the \<open>Proxy\<close> of \<^verbatim>\<open>pkg/proxy\<close>, whose \<open>ServeHTTP\<close> answers requests from it by
  \<open>MatchRoute\<close>.

  The theories, in the order of their imports:
  \<^item> \<open>Prelude\<close>: panics as values of a sum type, its sequencing, ranging over a Go map.
  \<^item> \<open>GoStd\<close>: the functions of the Go standard library that the source calls.
  \<^item> \<open>API\<close>: the Kubernetes objects, as records with the fields the source uses.
  \<^item> \<open>Hostnames\<close> (\<^verbatim>\<open>pkg/state/utils.go\<close>): hostname patterns and their intersection.
  \<^item> \<open>InternalRoutes\<close> (\<^verbatim>\<open>pkg/state/gateway.go\<close>): the table's data and the matching of
    hosts, paths and headers.
  \<^item> \<open>Preference\<close>: the interface of a precedence (a strict weak order) and the scan that keeps
    the best element.
  \<^item> \<open>Matching\<close> (\<^verbatim>\<open>gateway.go\<close>): \<open>isBetterMatch\<close> and \<open>MatchRoute\<close>; the precedence is an
    instance of the interface, the three nested loops are one scan over the candidates.
  \<^item> \<open>RouteStatus\<close> (\<^verbatim>\<open>pkg/state/httproute.go\<close>): validation and the two conditions.
  \<^item> \<open>Build\<close> (\<^verbatim>\<open>gateway.go\<close>): \<open>BuildInternalRoutes\<close>, loop by loop, and what an entry of the
    table owes to its listener, route, backends and policies.
  \<^item> \<open>Store\<close> (\<^verbatim>\<open>pkg/state/state.go\<close>): the five maps; the interface \<open>object_store\<close> and its
    five interpretations; the invariant \<open>state_ok\<close>.
  \<^item> \<open>Proxy\<close> (\<^verbatim>\<open>pkg/proxy/proxy.go\<close>): dispatch, redirects, forwarding.
  \<^item> \<open>Controllers\<close> (\<^verbatim>\<open>pkg/controller/utils.go\<close>, \<^verbatim>\<open>service_controller.go\<close>,
    \<^verbatim>\<open>configmap_controller.go\<close>): the surroundings of a reconciler, \<open>updateProxy\<close>, the two
    simplest reconcilers.
  \<^item> \<open>StatusWriter\<close>: the comparison of statuses and the interface \<open>status_writer\<close>.
  \<^item> \<open>RouteController\<close>, \<open>GatewayController\<close>, \<open>PolicyController\<close>: the other four reconcilers,
    each an interpretation of \<open>status_writer\<close>.
  \<^item> \<open>Concurrency\<close>: \<open>updateProxy\<close> of \<^verbatim>\<open>utils.go\<close> as it runs beside others: five locked reads and
    one publication.
  \<^item> \<open>Manager\<close> (the \<open>SetupWithManager\<close> of each controller file): what each controller is
    registered for and watches, and the requests that an event causes.
  \<^item> \<open>Steps\<close> (the \<open>Reconcile\<close> of each controller file): the six reconcilers once more, one step per
    call of the client, locked operation on the state, assignment to a shared object, and reading of
    the clock; taken without interruption the steps are the functions (\<open>call_alone_reconcile\<close>).
  \<^item> \<open>RunningSystem\<close>: the step relation of cache, request queue and six workers.
  \<^item> \<open>Startup\<close> (\<^verbatim>\<open>cmd/gateway-api-reference-implementation/main.go\<close>): flags, start-up
    calls, the goroutines of the error group, the exit, the self-signed certificate.
  \<^item> \<open>Examples\<close>: the concrete cluster on which the properties are evaluated.
  \<^item> \<open>StateProperties\<close>, \<open>ProxyProperties\<close>, \<open>ControllerProperties\<close>, \<open>StoreProperties\<close>,
    \<open>WellFormed\<close>: the properties of the packages; the last one has the shape and the bounds of
    computed values.
  \<^item> \<open>ServedHosts\<close>, \<open>ClusterTable\<close>: the hosts of a state and of its table, tables up to status.
  \<^item> \<open>ManagerCalls\<close>, \<open>ManagerInvariant\<close>, \<open>ManagerProgress\<close>, \<open>Draining\<close>: the lemmas of the running
    system: each step of a call under what the other workers may do meanwhile, the invariants, runs
    of one call, and the multiset measure by which the work that is left decreases.
  \<^item> \<open>ManagerProperties\<close>, \<open>Overlap\<close> and this theory: the properties of the whole system.

  How code is represented. A struct is a record, a pointer an \<open>option\<close>, an \<open>int32\<close> a word, a Go
  map a partial map. A string is a list of bytes. A dereference of nil and an index out of
  range are the values \<open>Inl NilDereference\<close> and \<open>Inl IndexOutOfRange\<close>, and every call that can
  meet one returns a sum. A loop with \<open>break\<close>, \<open>continue\<close> or an early return is a recursive
  function over its list, with one equation per outcome; no loop needs fuel. Ranging over a Go
  map takes the order as an argument (\<open>range_order\<close>: each key once); a reconciler takes it from
  \<open>env_range\<close>, which \<open>range_choice_ok\<close> asks to enumerate the keys and nothing else. A
  reconciler maps a world (state, proxy, log of status updates) to its outcome and the next
  world. The route reconciler mutates an object that the state shares; \<open>alias_HTTPRoute\<close> makes
  the effect explicit.

  Parameters: the regular-expression engine (does a pattern compile, does it match), the type of
  the first PEM block of some bytes, the clock, the API server's answers. Hypotheses on them are
  that a status update keeps the name of the object, and for some properties that it echoes the
  object; that routes pass the CRD schema (a \<open>RequestRedirect\<close> filter has its payload, no
  hostname is empty); and, for the precedence only, \<open>ranked_routes\<close>: path matches are \<open>Exact\<close> or
  \<open>PathPrefix\<close>, because it breaks down for \<open>RegularExpression\<close> (\<open>RegularExpression_path_unchecked\<close>).

  The running system. \<open>system_step\<close> states what the program relies on of controller-runtime: the
  client reads a cache; a change of the cache runs the registered handlers on the old and the new
  object and puts their requests into a queue; a controller has one worker, which takes a request
  when its call starts, and puts it back when the call fails or asks to be repeated. The six
  workers interleave step by step, and a call of \<open>updateProxy\<close> is six steps of its own
  (\<open>update_read\<close>, \<open>publish\<close>). A snapshot holds values where the code holds pointers to stored
  routes; what is assigned through them is the status, which no table depends on
  (\<open>table_ignores_status\<close>). The argument \<open>alone\<close> excludes overlapping calls of \<open>updateProxy\<close> and
  nothing else; the program is \<open>alone = False\<close>. \<open>admitted\<close> restricts the changes of the cluster to
  objects that pass the CRD schema, to gateways that are created after their class, and to classes
  that are not removed and whose controller stays the same; an \<open>Ownership\<close> names the classes and
  the gateways that are ours. \<open>group_step\<close> is the error group, the servers and the manager while
  \<open>run\<close> waits. There is no fuel anywhere; the termination of a run without changes is by the
  multiset order on \<open>work\<close>.

  What the properties show. The system, for \<open>admitted\<close> changes: under any interleaving the state at
  rest mirrors the objects of the cluster; when no two calls of \<open>updateProxy\<close> overlap, the proxy at
  rest serves the table computed from those objects alone; with an API server that answers and an
  address for the proxy every run comes to rest. Overlapping updates converge once the state is
  quiet and what they have read is fresh; a run of the six controllers shows that they can leave a
  stale table otherwise. Hosts: pattern intersection is exact, the table accepts exactly the hosts
  of its listeners and routes. Requests: matching by path element and header; with \<open>Exact\<close> and
  \<open>PathPrefix\<close> matches the winner is the first candidate of highest rank, whatever the order of the
  table up to rank. Status: each condition's status and reason; statuses converge. Backends: first
  reference with a port, the last TLS policy, when certificates are verified. The store: last
  writer wins over all kinds of objects. Shape: tables are well-formed, the bound of the reported
  counter, the round trip of the flags. Robustness: which calls cannot panic, and the one that
  can; how the program exits. The lemmas beside the properties record behaviour that differs from
  the API's documentation.

  Not modelled: the tests and their tools, logging, the registration of Go types with the client's
  scheme, the bodies of the library calls at start-up (their outcomes are parameters), the
  rendering of URLs and response bodies, the reverse proxy and the TLS handshake of the standard
  library.
\<close>

section \<open>From the state to the proxy\<close>

text \<open>
  C3: end to end, a successful reconciliation of a route makes the proxy serve exactly the hosts
  that the state asks for: the table accepts a \<open>Host\<close> header if and only if some gateway of the
  state has a listener, and some route of the state is attached to it, that both cover the host;
  every other request is answered with 404.
\<close>

theorem reconciled_proxy_serves_state:
  assumes "range_choice_ok V" "keeps_keys (env_cluster V)" "state_ok (w_State w)"
    and "ReconcileHTTPRoute V req w = (Inr done_ok, w')" "state_hostnames_nonempty (w_State w')"
  shows "(if host_attached (env_regexp V) (w_State w') (strip_port (req_Host r))
    then \<exists>ir \<in> set (px_routes (w_Proxy w')). MatchHostname ir (req_Host r)
    else ServeHTTP (env_regexp V) (w_Proxy w') r = not_found r)"
proof -
  have cur: "proxy_current V 1 w'" and ok: "state_ok (w_State w')"
  proof -
    show "proxy_current V 1 w'"
      using assms(2)
    proof (cases rule: ReconcileHTTPRoute_cases [where req = req and w = w])
      case deleted with assms(4) show ?thesis by (metis update_then_current)
    next
      case same with assms(4) show ?thesis by (metis update_then_current)
    next
      case written with assms(4) show ?thesis by (metis update_then_current)
    qed (use assms(4) in auto)
    have "w_State w' = w_State (snd (ReconcileHTTPRoute V req w))" using assms(4) by simp
    moreover have "state_ok (w_State (snd (ReconcileHTTPRoute V req w)))"
      using assms(2)
      by (cases rule: ReconcileHTTPRoute_cases [where req = req and w = w])
        (use assms(3) in \<open>simp_all add: state_ok_intros\<close>)
    ultimately show "state_ok (w_State w')" by simp
  qed
  note hosts = proxy_hosts [OF assms(1) ok assms(5) cur, of "req_Host r"]
  show ?thesis
  proof (cases "host_attached (env_regexp V) (w_State w') (strip_port (req_Host r))")
    case True
    with hosts show ?thesis by simp
  next
    case False
    with hosts have "MatchRoute (env_regexp V) (px_routes (w_Proxy w')) r = (None, None)"
      by (simp add: MatchRoute_def route_loop_no_host)
    with False show ?thesis by (simp add: ServeHTTP_def)
  qed
qed

definition ex_gateway_world :: World where
  "ex_gateway_world = ex_world\<lparr>w_State := UpsertGateway ex_gateway NewState\<rparr>"

theorem reconciled_proxy_serves_state_witness:
  "\<exists>w'. ReconcileHTTPRoute ex_env (NamespacedName ''default'' ''route'') ex_gateway_world = (Inr done_ok, w') \<and>
     (\<exists>ir \<in> set (px_routes (w_Proxy w')). MatchHostname ir ''a.example.com:8080'')"
proof -
  have ok: "state_ok (w_State ex_gateway_world)" "routes_complete (w_State ex_gateway_world)"
    using ex_world_ok by (simp_all add: ex_gateway_world_def state_ok_intros ex_world_def)
  obtain w' ps where w': "ReconcileHTTPRoute ex_env (NamespacedName ''default'' ''route'') ex_gateway_world = (Inr done_ok, w')"
      and st: "w_State w' = store_HTTPRoute (ex_route\<lparr>hr_Status_Parents := ps\<rparr>) (w_State ex_gateway_world)"
    by (rule ex_route_called [OF ok])
  let ?hr = "ex_route\<lparr>hr_Status_Parents := ps\<rparr>"
  have routes: "ran (st_httpRoutes (w_State w')) = {\<lparr>hs_HTTPRoute = Some ?hr\<rparr>}"
    by (simp add: st store_HTTPRoute_lookup ex_gateway_world_def UpsertGateway_def NewState_def ran_def)
  have gates: "ran (st_gateways (w_State w')) = {\<lparr>gs_Gateway = ex_gateway\<rparr>}"
    by (simp add: st ex_gateway_world_def UpsertGateway_def NewState_def ran_def)
  have "state_hostnames_nonempty (w_State w')"
    by (simp add: state_hostnames_nonempty_def routes ex_route_def)
  note t = reconciled_proxy_serves_state [OF ex_range_ok ex_keeps_keys ok(1) w' this,
      of "ex_request ''a.example.com:8080'' ''/''"]
  have "attached literal_engine \<lparr>gs_Gateway = ex_gateway\<rparr> ex_listener ?hr"
    using ex_attached by (simp add: attached_def)
  then have "host_attached (env_regexp ex_env) (w_State w') (strip_port ''a.example.com:8080'')"
    using ex_covers by (simp add: host_attached_def routes gates ex_env_def) (simp add: ex_gateway_def)
  with t w' show ?thesis by (auto simp: ex_request_def)
qed

text \<open>Where an entry of the proxy's table comes from.\<close>

lemma proxy_entry:
  assumes "range_choice_ok V" "state_ok (w_State w)" "proxy_current V i w"
    and "ir \<in> set (px_routes (w_Proxy w))"
  obtains gw l rs hr where "gw \<in> ran (st_gateways (w_State w))" "rs \<in> ran (st_httpRoutes (w_State w))"
    "hs_HTTPRoute rs = Some hr"
    "built_from (env_regexp V) (env_now V) (snapshot_inputs V i (w_State w)) gw l hr ir"
proof -
  let ?st = "w_State w" and ?E = "env_regexp V"
  let ?gws = "GetGateways (env_range V i (dom (st_gateways ?st))) ?st"
  let ?rs = "GetHTTPRoutes (env_range V (i + 1) (dom (st_httpRoutes ?st))) ?st"
  let ?build = "\<lambda>gw. BuildInternalRoutes ?E (env_now V) gw ?rs (snapshot_inputs V i ?st) ControllerName"
  have c: "concat_result ?build ?gws = Inr (px_routes (w_Proxy w))"
    using assms(3) by (simp add: proxy_current_def proxy_table_def Let_def)
  have gws: "set ?gws = ran (st_gateways ?st)"
    by (rule GetGateways_set [OF range_choice_order [OF assms(1) state_ok_finite(1) [OF assms(2)]]])
  have rs: "set ?rs = ran (st_httpRoutes ?st)"
    by (rule GetHTTPRoutes_set [OF range_choice_order [OF assms(1) state_ok_finite(2) [OF assms(2)]]])
  obtain gw irs where gw: "gw \<in> set ?gws" "?build gw = Inr irs" "ir \<in> set irs"
    using concat_result_Inr_origin [OF c assms(4)] by blast
  from BuildInternalRoutes_in [OF gw(2,3)] gw(1) that show ?thesis unfolding gws rs by blast
qed

lemma candidate_origin:
  assumes "(r, m) \<in> set (candidates E irs req)"
  obtains ir where "ir \<in> set irs" "MatchHostname ir (req_Host req)" "r \<in> set (ir_Rules ir)"
    "irule_Matches r = [] \<or> m \<in> set (irule_Matches r) \<and> Matches E m (req_Path req) (req_Header req)"
proof -
  obtain ir where ir: "ir \<in> set irs" "(r, m) \<in> set (route_candidates E req ir)"
    using assms by (auto simp: candidates_def)
  then obtain r' where "MatchHostname ir (req_Host req)" "r' \<in> set (ir_Rules ir)"
      "(r, m) \<in> set (rule_candidates E req r')"
    by (auto simp: route_candidates_def split: if_splits)
  with ir(1) that show ?thesis by (auto simp: rule_candidates_def split: if_splits)
qed

lemma answer_forwarded:
  "answer r m req = Forwarded u tr \<Longrightarrow>
     irule_Error r = None \<and> irule_Redirect r = None \<and>
     (\<exists>b. irule_Backend r = Some b \<and> forward req b = Forwarded u tr)"
  by (auto simp: answer_def redirect_def not_found_def Let_def split: option.splits)

lemma forward_host:
  "forward req b = Forwarded u tr \<Longrightarrow> url_Host u = ib_Host b @ '':'' @ decimal (sint (ib_Port b))"
  by (auto simp: forward_def Let_def split: if_splits)

lemma forwarding_rule:
  assumes "built_from E now B gw l hr ir" "r \<in> set (ir_Rules ir)" "answer r m req = Forwarded u tr"
  shows "\<exists>rule \<in> set (hr_Rules hr). build_rule E B hr (resolved_condition now hr) rule = Inr r \<and>
    (\<exists>b \<in> set (rr_BackendRefs rule). \<exists>port. br_Port b = Some port \<and>
       url_Host u = br_Name b @ ''.'' @ service_namespace (om_Namespace hr) b @
         ''.svc.cluster.local'' @ '':'' @ decimal (sint port))"
proof -
  obtain rule where rule: "rule \<in> set (hr_Rules hr)"
      "build_rule E B hr (resolved_condition now hr) rule = Inr r"
    using built_from_rule [OF assms(1,2)] by blast
  obtain ib where ib: "irule_Error r = None" "irule_Redirect r = None"
      "irule_Backend r = Some ib" "forward req ib = Forwarded u tr"
    using answer_forwarded [OF assms(3)] by blast
  have svc: "\<forall>rule \<in> set (hr_Rules hr). \<forall>b \<in> set (rr_BackendRefs rule). service_kind b"
    using built_from_invalid [OF assms(1,2)] ib(3) by auto
  then have "cond_Status (resolved_condition now hr) \<noteq> ConditionFalse"
    using resolved_condition_invalid by blast
  with build_rule_valid [OF rule(2)] svc rule(1) ib(2,3)
  have "chosen_backend B (om_Namespace hr) (rr_BackendRefs rule) = Some ib" by simp
  then obtain b where b: "first_port_ref (rr_BackendRefs rule) = Some b"
      "ib = build_backend B (om_Namespace hr) b (the (br_Port b))"
    by (auto simp: chosen_backend_def)
  obtain port where port: "b \<in> set (rr_BackendRefs rule)" "br_Port b = Some port"
    using find_Some_in [OF b(1) [unfolded first_port_ref_def]] by auto
  have "url_Host u = br_Name b @ ''.'' @ service_namespace (om_Namespace hr) b @
      ''.svc.cluster.local'' @ '':'' @ decimal (sint port)"
    using forward_host [OF ib(4)] b(2) port(2)
    by (simp add: build_backend_def service_namespace_def Let_def)
  with rule port show ?thesis by blast
qed

text \<open>
  C4: no request leaks: when the proxy's table is current, that is built from the present state
  (which it need not be after a rejected status update or an update that was overtaken), and it
  forwards a request, the target is the service and port of a backend reference of a rule of an attached route of the state, whose
  hostnames and listener cover the requested host and one of whose matches (if it has any) the
  request satisfies.
\<close>

theorem forwarded_only_to_attached_backends:
  assumes "range_choice_ok V" "state_ok (w_State w)" "state_hostnames_nonempty (w_State w)"
    and "proxy_current V i w"
    and "ServeHTTP (env_regexp V) (w_Proxy w) req = Forwarded u tr"
  shows "\<exists>gw \<in> ran (st_gateways (w_State w)). \<exists>l \<in> set (gw_Listeners (gs_Gateway gw)).
    \<exists>rs \<in> ran (st_httpRoutes (w_State w)). \<exists>hr. hs_HTTPRoute rs = Some hr \<and>
      attached (env_regexp V) gw l hr \<and> listener_serves l (strip_port (req_Host req)) \<and>
      hostnames_cover (hr_Hostnames hr) (strip_port (req_Host req)) \<and>
      (\<exists>rule \<in> set (hr_Rules hr). \<exists>b \<in> set (rr_BackendRefs rule). \<exists>port.
         br_Port b = Some port \<and>
         url_Host u = br_Name b @ ''.'' @ service_namespace (om_Namespace hr) b @
           ''.svc.cluster.local'' @ '':'' @ decimal (sint port) \<and>
         (rr_Matches rule = [] \<or>
          (\<exists>m \<in> set (rr_Matches rule).
             Matches (env_regexp V) (build_match (env_regexp V) m) (req_Path req) (req_Header req))))"
proof -
  let ?E = "env_regexp V" and ?B = "snapshot_inputs V i (w_State w)"
  obtain r m where c: "MatchRoute ?E (px_routes (w_Proxy w)) req = (Some r, Some m)"
      "answer r m req = Forwarded u tr"
    using assms(5) unfolding ServeHTTP_answer
    by (auto simp: not_found_def split: option.splits prod.splits)
  obtain ir where ir: "ir \<in> set (px_routes (w_Proxy w))" "MatchHostname ir (req_Host req)"
      "r \<in> set (ir_Rules ir)"
      "irule_Matches r = [] \<or> m \<in> set (irule_Matches r) \<and> Matches ?E m (req_Path req) (req_Header req)"
    using MatchRoute_in [OF c(1)] by (rule candidate_origin)
  obtain gw l rs hr where o: "gw \<in> ran (st_gateways (w_State w))" "rs \<in> ran (st_httpRoutes (w_State w))"
      "hs_HTTPRoute rs = Some hr" "built_from ?E (env_now V) ?B gw l hr ir"
    by (rule proxy_entry [OF assms(1,2,4) ir(1)])
  have "'''' \<notin> set (hr_Hostnames hr)"
    using assms(3) o(2,3) unfolding state_hostnames_nonempty_def by blast
  note host = built_from_hostname [OF o(4) this, of "req_Host req"]
  have l: "l \<in> set (gw_Listeners (gs_Gateway gw))" "attached ?E gw l hr"
    using o(4) accepts_attached unfolding built_from_def binds_def by blast+
  obtain rule b port where rule: "rule \<in> set (hr_Rules hr)"
      "build_rule ?E ?B hr (resolved_condition (env_now V) hr) rule = Inr r"
    and b: "b \<in> set (rr_BackendRefs rule)" "br_Port b = Some port"
      "url_Host u = br_Name b @ ''.'' @ service_namespace (om_Namespace hr) b @
        ''.svc.cluster.local'' @ '':'' @ decimal (sint port)"
    using forwarding_rule [OF o(4) ir(3) c(2)] by blast
  have "rr_Matches rule = [] \<or> (\<exists>m \<in> set (rr_Matches rule).
      Matches ?E (build_match ?E m) (req_Path req) (req_Header req))"
    using ir(4) build_rule_Matches [OF rule(2)] by auto
  with o(1-3) l host ir(2) rule(1) b show ?thesis by blast
qed

text \<open>The table that the example state gives, and a world that serves it.\<close>

definition ex_service_rule :: "InternalMatch list \<Rightarrow> string \<Rightarrow> int32 \<Rightarrow> InternalRule" where
  "ex_service_rule ms name port =
     \<lparr>irule_Matches = ms,
      irule_Backend = Some \<lparr>ib_Host = name @ ''.default.svc.cluster.local'', ib_Port = port,
        ib_AppProtocol = None, ib_TLSConfig = None\<rparr>,
      irule_Redirect = None, irule_Error = None\<rparr>"

definition ex_served :: "InternalRoute list" where
  "ex_served = [\<lparr>ir_Hostnames = [''*.example.com''],
     ir_Rules = [ex_service_rule [ex_prefix ''/api''] ''api'' 80, ex_service_rule [] ''web'' 8080]\<rparr>]"

definition ex_served_world :: World where
  "ex_served_world = ex_world\<lparr>w_State := store_HTTPRoute ex_route (UpsertGateway ex_gateway NewState),
     w_Proxy := \<lparr>px_routes = ex_served\<rparr>\<rparr>"

lemma ex_served_built:
  "BuildInternalRoutes literal_engine 100 \<lparr>gs_Gateway = ex_gateway\<rparr> [\<lparr>hs_HTTPRoute = Some ex_route\<rparr>]
     ex_inputs ControllerName = Inr ex_served"
  by code_simp

lemma ex_served_current: "proxy_current ex_env 0 ex_served_world"
proof -
  let ?st = "w_State ex_served_world"
  have "GetGateways (env_range ex_env 0 (dom (st_gateways ?st))) ?st = [\<lparr>gs_Gateway = ex_gateway\<rparr>]"
    "GetHTTPRoutes (env_range ex_env 1 (dom (st_httpRoutes ?st))) ?st = [\<lparr>hs_HTTPRoute = Some ex_route\<rparr>]"
    "snapshot_inputs ex_env 0 ?st = ex_inputs"
    by (simp_all add: GetGateways_def GetHTTPRoutes_def snapshot_inputs_def GetServices_def
        GetConfigMaps_def GetBackendTLSPolicies_def ex_inputs_def ex_served_world_def
        store_HTTPRoute_def UpsertGateway_def NewState_def ex_env_def)
  then show ?thesis
    using ex_served_built
    by (simp add: proxy_current_def proxy_table_def Let_def) (simp add: ex_served_world_def ex_env_def)
qed

theorem forwarded_only_to_attached_backends_witness:
  "\<exists>u tr b. ServeHTTP (env_regexp ex_env) (w_Proxy ex_served_world) (ex_request ''a.example.com'' ''/api/x'') =
       Forwarded u tr \<and>
     url_Host u = br_Name b @ ''.'' @ service_namespace ''default'' b @ ''.svc.cluster.local'' @ '':'' @
       decimal (sint (the (br_Port b)))"
proof -
  let ?r = "ex_request ''a.example.com'' ''/api/x''"
  have st: "state_ok (w_State ex_served_world)"
    by (simp add: ex_served_world_def state_ok_intros)
  have ok: "state_hostnames_nonempty (w_State ex_served_world)"
    by (simp add: ex_served_world_def state_hostnames_nonempty_def
        store_HTTPRoute_def UpsertGateway_def NewState_def ran_def ex_route_def)
  have "MatchRoute literal_engine ex_served ?r =
      (Some (ex_service_rule [ex_prefix ''/api''] ''api'' 80), Some (ex_prefix ''/api''))"
    by code_simp
  then obtain u tr where s: "ServeHTTP (env_regexp ex_env) (w_Proxy ex_served_world) ?r = Forwarded u tr"
    by (simp add: ServeHTTP_def ex_served_world_def ex_env_def)
      (simp add: ex_service_rule_def forward_def Let_def)
  from forwarded_only_to_attached_backends [OF ex_range_ok st ok ex_served_current s]
  obtain rs hr b port where "rs \<in> ran (st_httpRoutes (w_State ex_served_world))" "hs_HTTPRoute rs = Some hr"
      "br_Port b = Some port"
      "url_Host u = br_Name b @ ''.'' @ service_namespace (om_Namespace hr) b @
         ''.svc.cluster.local'' @ '':'' @ decimal (sint port)" by blast
  moreover have "ran (st_httpRoutes (w_State ex_served_world)) = {\<lparr>hs_HTTPRoute = Some ex_route\<rparr>}"
    by (simp add: ex_served_world_def store_HTTPRoute_def UpsertGateway_def NewState_def ran_def)
  ultimately have "url_Host u = br_Name b @ ''.'' @ service_namespace ''default'' b @
      ''.svc.cluster.local'' @ '':'' @ decimal (sint (the (br_Port b)))"
    by (auto simp: ex_route_parts)
  with s show ?thesis by blast
qed

end
